theory Spec2Isabelle
  imports Complex_Main "HOL-Library.Word"
begin

unbundle bit_operations_syntax

section \<open>JavaScript primitives used by the handlers\<close>

text \<open>
  Strings are lists of 8-bit characters. \<open>js_trim\<close> is \<^verbatim>\<open>String.prototype.trim\<close> on the
  white space of that range, \<open>js_toUpperCase\<close> maps the ASCII letters, \<open>js_slice0\<close> is
  \<^verbatim>\<open>s.slice(0, n)\<close>, \<open>js_string_of_int\<close> is \<^verbatim>\<open>String(n)\<close> for an integer \<open>n\<close> and
  \<open>js_parseInt10\<close> is \<^verbatim>\<open>parseInt(s, 10)\<close>. A value that the
  source tests for truthiness (\<^verbatim>\<open>!x\<close>, \<^verbatim>\<open>x || ''\<close>) is a \<open>string option\<close>:
  \<open>None\<close> is undefined or null, and the empty string is falsy as well.
\<close>

definition is_js_space :: "char \<Rightarrow> bool" where
  "is_js_space c \<longleftrightarrow> of_char c \<in> {9, 10, 11, 12, 13, 32, 160 :: nat}"

definition js_trim :: "string \<Rightarrow> string" where
  "js_trim s = rev (dropWhile is_js_space (rev (dropWhile is_js_space s)))"

definition is_digit :: "char \<Rightarrow> bool" where
  "is_digit c \<longleftrightarrow> 48 \<le> (of_char c :: nat) \<and> (of_char c :: nat) \<le> 57"

definition digit_val :: "char \<Rightarrow> nat" where
  "digit_val c = of_char c - 48"

definition digit_char :: "nat \<Rightarrow> char" where
  "digit_char d = char_of (48 + d)"

definition js_toUpperCase :: "string \<Rightarrow> string" where
  "js_toUpperCase s =
     map (\<lambda>c. if 97 \<le> (of_char c :: nat) \<and> (of_char c :: nat) \<le> 122
              then char_of (of_char c - 32 :: nat) else c) s"

definition js_slice0 :: "nat \<Rightarrow> string \<Rightarrow> string" where
  "js_slice0 n s = take n s"

definition truthy :: "string option \<Rightarrow> bool" where
  "truthy v \<longleftrightarrow> (case v of None \<Rightarrow> False | Some s \<Rightarrow> s \<noteq> [])"

definition or_empty :: "string option \<Rightarrow> string" where
  "or_empty v = (case v of None \<Rightarrow> [] | Some s \<Rightarrow> s)"

fun string_of_nat :: "nat \<Rightarrow> string" where
  "string_of_nat n =
     (if n < 10 then [digit_char n] else string_of_nat (n div 10) @ [digit_char (n mod 10)])"

declare string_of_nat.simps [simp del]

definition js_string_of_int :: "int \<Rightarrow> string" where
  "js_string_of_int i = (if i < 0 then CHR ''-'' # string_of_nat (nat (- i)) else string_of_nat (nat i))"

definition nat_of_digits :: "string \<Rightarrow> nat" where
  "nat_of_digits ds = foldl (\<lambda>acc c. 10 * acc + digit_val c) 0 ds"

text \<open>
  A JavaScript number is an IEEE double. The numbers the handlers compute with are integral,
  so a finite number is kept as the integer it denotes. The number value of a mathematical
  integer is the nearest double, ties going to the even significand of 53 bits; from
  \<open>2 ^ 1024\<close> on the rounded value is an infinity (\<open>None\<close> in \<open>round_to_double\<close>).
\<close>

datatype js_number = Finite int | PosInfinity | NegInfinity | NaN

fun bit_length :: "nat \<Rightarrow> nat" where
  "bit_length n = (if n = 0 then 0 else Suc (bit_length (n div 2)))"

declare bit_length.simps [simp del]

definition round_to_double :: "nat \<Rightarrow> nat option" where
  "round_to_double n =
     (let k = bit_length n - 53;
          q = n div 2 ^ k;
          r = n mod 2 ^ k;
          q' = (if 2 * r > 2 ^ k \<or> (2 * r = 2 ^ k \<and> odd q) then q + 1 else q)
      in if q' * 2 ^ k \<ge> 2 ^ 1024 then None else Some (q' * 2 ^ k))"

text \<open>
  \<^verbatim>\<open>parseInt(s, 10)\<close>: leading white space, an optional sign, then the longest run of
  decimal digits; \<^verbatim>\<open>NaN\<close> without a digit, else the number value of the integer read.
\<close>

definition js_parseInt10 :: "string \<Rightarrow> js_number" where
  "js_parseInt10 s =
     (let t = dropWhile is_js_space s;
          neg = (t \<noteq> [] \<and> hd t = CHR ''-'');
          u = (if t \<noteq> [] \<and> (hd t = CHR ''-'' \<or> hd t = CHR ''+'') then tl t else t);
          ds = takeWhile is_digit u
      in if ds = [] then NaN
         else (case round_to_double (nat_of_digits ds) of
                 None \<Rightarrow> (if neg then NegInfinity else PosInfinity)
               | Some v \<Rightarrow> Finite (if neg then - int v else int v)))"

text \<open>
  Library and platform functions that are not code of this repository are parameters of
  the model: the HMAC-SHA256 of Node's \<^verbatim>\<open>crypto\<close> (hex digest), \<^verbatim>\<open>JSON.stringify\<close>,
  the numeric conversion \<^verbatim>\<open>Number(s)\<close> (\<open>None\<close> for a value that is not finite) and the
  outbound \<^verbatim>\<open>fetch\<close>.
\<close>

record http_request =
  hr_url :: string
  hr_event_type :: string
  hr_timestamp :: string
  hr_signature :: string
  hr_body :: string

datatype fetch_result = Response int string | Thrown string string

datatype jval = JNull | JNum int | JStr string

type_synonym payload = "(string \<times> jval) list"

record externals =
  hmac_sha256_hex :: "string \<Rightarrow> string \<Rightarrow> string"
  json_stringify :: "payload \<Rightarrow> string"
  to_number :: "string \<Rightarrow> rat option"
  fetch :: "http_request \<Rightarrow> fetch_result"

section \<open>Persistence model (lib/db)\<close>

text \<open>
  The gateway keeps its state in one relational store. Each table the verified operations
  touch is a list of rows (an SQL \<^verbatim>\<open>DELETE ... WHERE\<close> is a \<open>filter\<close>, an
  \<^verbatim>\<open>UPDATE ... WHERE\<close> is a \<open>map\<close>); the two single-row configuration tables are
  maps from the merchant id. Numbers are JavaScript numbers holding integers (unix seconds,
  amounts, counters), modelled as \<open>int\<close>. Every function that reads the clock
  (\<^verbatim>\<open>Math.floor(Date.now() / 1000)\<close>) takes the value read as its argument \<open>now\<close>; the
  random UUID keys of events and alerts are not modelled.
\<close>

datatype error = Error string

datatype gw_env = Production | Sandbox

record pending_transaction =
  pt_id :: string
  pt_username :: string
  pt_base_amount :: int
  pt_unique_suffix :: int
  pt_final_amount :: int
  pt_qris_string :: string
  pt_created_at :: int
  pt_expires_at :: int

record paid_transaction =
  pd_id :: string
  pd_username :: string
  pd_final_amount :: int
  pd_paid_at :: int
  pd_expires_at :: int

datatype InvoiceStatus = Created | Pending | Paid | Expired | Refunded

record invoice =
  inv_id :: string
  inv_merchant_id :: string
  inv_env :: gw_env
  inv_username :: string
  inv_reference_id :: "string option"
  inv_base_amount :: int
  inv_unique_suffix :: int
  inv_final_amount :: int
  inv_status :: InvoiceStatus
  inv_qris_string :: string
  inv_created_at :: int
  inv_expires_at :: int
  inv_paid_at :: "int option"

record invoice_event =
  ev_invoice_id :: string
  ev_merchant_id :: string
  ev_event_type :: string
  ev_payload :: payload
  ev_created_at :: int

datatype delivery_status = Queued | Delivered | Failed

record webhook_delivery =
  wd_id :: string
  wd_merchant_id :: string
  wd_env :: gw_env
  wd_invoice_id :: "string option"
  wd_event_type :: string
  wd_payload_json :: string
  wd_status :: delivery_status
  wd_attempt_count :: int
  wd_next_retry_at :: int
  wd_last_status_code :: "int option"
  wd_last_error :: "string option"
  wd_response_snippet :: "string option"
  wd_created_at :: int
  wd_updated_at :: int

record alert =
  al_merchant_id :: "string option"
  al_type :: string
  al_message :: string
  al_created_at :: int
  al_resolved_at :: "int option"

record used_nonce =
  un_merchant_id :: string
  un_nonce :: string
  un_expires_at :: int

record merchant_row =
  webhook_url :: "string option"
  webhook_enabled :: int
  sandbox_webhook_url :: "string option"
  sandbox_webhook_enabled :: int
  ip_whitelist_enabled :: int

record ip_whitelist_row =
  iw_merchant_id :: string
  iw_cidr :: string

record credential_row =
  api_secret :: "string option"
  sandbox_api_secret :: "string option"
  webhook_secret :: "string option"
  sandbox_webhook_secret :: "string option"

record db =
  pending_transactions :: "pending_transaction list"
  paid_transactions :: "paid_transaction list"
  invoices :: "invoice list"
  invoice_events :: "invoice_event list"
  webhook_deliveries :: "webhook_delivery list"
  alerts :: "alert list"
  used_nonces :: "used_nonce list"
  merchant_ip_whitelist :: "ip_whitelist_row list"
  merchants :: "string \<rightharpoonup> merchant_row"
  merchant_credentials :: "string \<rightharpoonup> credential_row"

definition empty_db :: db where
  "empty_db = \<lparr> pending_transactions = [], paid_transactions = [], invoices = [],
     invoice_events = [], webhook_deliveries = [], alerts = [], used_nonces = [],
     merchant_ip_whitelist = [], merchants = Map.empty, merchant_credentials = Map.empty \<rparr>"

subsection \<open>Pending and paid transactions, suffix allocation\<close>

text \<open>\<^verbatim>\<open>cleanupExpired\<close>: both deletes use \<^verbatim>\<open>expires_at < now\<close>.\<close>

definition cleanupExpired :: "int \<Rightarrow> db \<Rightarrow> db" where
  "cleanupExpired now s =
     s\<lparr> pending_transactions := filter (\<lambda>r. \<not> pt_expires_at r < now) (pending_transactions s),
        paid_transactions := filter (\<lambda>r. \<not> pd_expires_at r < now) (paid_transactions s) \<rparr>"

text \<open>
  The two \<^verbatim>\<open>for (let i = lo; i <= hi; i++) if (!usedSet.has(i)) return i\<close> loops of
  \<^verbatim>\<open>getAvailableSuffix\<close>; \<open>None\<close> is falling out of the loop.
\<close>

function suffix_scan :: "int \<Rightarrow> int \<Rightarrow> int set \<Rightarrow> int option" where
  "suffix_scan i hi usedSet =
     (if i \<le> hi then (if i \<notin> usedSet then Some i else suffix_scan (i + 1) hi usedSet)
      else None)"
  by pat_completeness auto
termination
  by (relation "measure (\<lambda>(i, hi, u). nat (hi + 1 - i))") auto

declare suffix_scan.simps [simp del]

definition getAvailableSuffix :: "int \<Rightarrow> string \<Rightarrow> db \<Rightarrow> (error + int) \<times> db" where
  "getAvailableSuffix now username s =
     (let s1 = cleanupExpired now s;
          rows = filter (\<lambda>r. pt_username r = username) (pending_transactions s1);
          usedSet = set (map pt_unique_suffix rows)
      in case suffix_scan 1 500 usedSet of
           Some i \<Rightarrow> (Inr i, s1)
         | None \<Rightarrow>
             (case suffix_scan 501 999 usedSet of
                Some i \<Rightarrow> (Inr i, s1)
              | None \<Rightarrow> (Inl (Error ''No suffix available''), s1)))"

text \<open>
  The suffixes claimed for a principal at time \<open>now\<close>: those of its pending rows that the
  cleanup at \<open>now\<close> keeps (a row expires once \<open>expires_at < now\<close>).
\<close>

definition claimed_suffixes :: "int \<Rightarrow> string \<Rightarrow> db \<Rightarrow> int set" where
  "claimed_suffixes now username s =
     pt_unique_suffix ` {r \<in> set (pending_transactions s).
        pt_username r = username \<and> \<not> pt_expires_at r < now}"

definition sample_pending :: "string \<Rightarrow> string \<Rightarrow> int \<Rightarrow> int \<Rightarrow> pending_transaction" where
  "sample_pending i u sfx ex =
     \<lparr> pt_id = i, pt_username = u, pt_base_amount = 10000, pt_unique_suffix = sfx,
       pt_final_amount = 10000 + sfx, pt_qris_string = '''', pt_created_at = ex - 600,
       pt_expires_at = ex \<rparr>"

definition suffix_db :: db where
  "suffix_db = empty_db\<lparr> pending_transactions :=
     [sample_pending ''a'' ''merchantA'' 1 700, sample_pending ''b'' ''merchantA'' 2 650,
      sample_pending ''c'' ''merchantA'' 3 90, sample_pending ''d'' ''merchantB'' 4 700] \<rparr>"

section \<open>Webhook worker (lib/webhook_worker)\<close>

record worker_config =
  MAX_ATTEMPTS :: int
  BASE_BACKOFF_SECONDS :: int
  TIMEOUT_MS :: int

definition default_worker_config :: worker_config where
  "default_worker_config = \<lparr> MAX_ATTEMPTS = 8, BASE_BACKOFF_SECONDS = 60, TIMEOUT_MS = 8000 \<rparr>"

definition backoffSeconds :: "worker_config \<Rightarrow> int \<Rightarrow> int" where
  "backoffSeconds cfg attempt =
     (let pow = min 10 (max 0 (attempt - 1))
      in BASE_BACKOFF_SECONDS cfg * 2 ^ nat pow)"

subsection \<open>Webhook configuration, secrets and deliveries (lib/db)\<close>

record webhook_cfg =
  wc_webhook_url :: "string option"
  wc_webhook_enabled :: bool

text \<open>
  \<^verbatim>\<open>getMerchantWebhookConfigEnv\<close>: the URL is \<^verbatim>\<open>row.x ? String(row.x) : null\<close>, so an
  empty stored URL reads as null; the flag is \<^verbatim>\<open>Number(row.x || 0) === 1\<close>.
\<close>

definition getMerchantWebhookConfigEnv :: "string \<Rightarrow> gw_env \<Rightarrow> db \<Rightarrow> webhook_cfg" where
  "getMerchantWebhookConfigEnv merchantId env s =
     (case merchants s merchantId of
        None \<Rightarrow> \<lparr> wc_webhook_url = None, wc_webhook_enabled = False \<rparr>
      | Some row \<Rightarrow>
          (if env = Sandbox
           then \<lparr> wc_webhook_url = (if truthy (sandbox_webhook_url row) then sandbox_webhook_url row else None),
                  wc_webhook_enabled = (sandbox_webhook_enabled row = 1) \<rparr>
           else \<lparr> wc_webhook_url = (if truthy (webhook_url row) then webhook_url row else None),
                  wc_webhook_enabled = (webhook_enabled row = 1) \<rparr>))"

definition getMerchantWebhookSecret :: "string \<Rightarrow> gw_env \<Rightarrow> db \<Rightarrow> string option" where
  "getMerchantWebhookSecret merchantId env s =
     (case merchant_credentials s merchantId of
        None \<Rightarrow> None
      | Some row \<Rightarrow>
          (let sec = (if env = Sandbox then or_empty (sandbox_webhook_secret row)
                      else or_empty (webhook_secret row))
           in if sec = [] then None else Some sec))"

definition getMerchantSigningSecret :: "string \<Rightarrow> gw_env \<Rightarrow> db \<Rightarrow> string option" where
  "getMerchantSigningSecret merchantId env s =
     (case merchant_credentials s merchantId of
        None \<Rightarrow> None
      | Some row \<Rightarrow>
          (let sec = (if env = Sandbox then or_empty (sandbox_api_secret row)
                      else or_empty (api_secret row))
           in if sec = [] then None else Some sec))"

text \<open>
  \<^verbatim>\<open>enqueueWebhookDelivery\<close> runs
  \<^verbatim>\<open>INSERT INTO webhook_deliveries (id, merchant_id, env, invoice_id, event_type, payload_json, status, attempt_count, next_retry_at, created_at, updated_at) VALUES (?, ?, ?, ?, ?, 'queued', 0, ?, ?, ?)\<close>:
  eleven columns and ten values (eight placeholders for nine bound arguments). The SQL
  engine refuses a value list whose length differs from the column list, so the statement
  inserts nothing and \<^verbatim>\<open>db.run\<close> rejects; the model keeps the two lists as written and
  compares their lengths. \<open>SqlParam\<close> is a \<^verbatim>\<open>?\<close> placeholder.
\<close>

datatype sql_value = SqlParam | SqlText string | SqlInt int

definition enqueue_columns :: "string list" where
  "enqueue_columns = [''id'', ''merchant_id'', ''env'', ''invoice_id'', ''event_type'',
     ''payload_json'', ''status'', ''attempt_count'', ''next_retry_at'', ''created_at'',
     ''updated_at'']"

definition enqueue_values :: "sql_value list" where
  "enqueue_values = [SqlParam, SqlParam, SqlParam, SqlParam, SqlParam, SqlText ''queued'',
     SqlInt 0, SqlParam, SqlParam, SqlParam]"

record enqueue_input =
  eq_merchant_id :: string
  eq_env :: "gw_env option"
  eq_invoice_id :: "string option"
  eq_event_type :: string
  eq_payload :: payload
  eq_run_at :: "int option"

definition enqueueWebhookDelivery ::
  "externals \<Rightarrow> int \<Rightarrow> string \<Rightarrow> enqueue_input \<Rightarrow> db \<Rightarrow> (error + string) \<times> db" where
  "enqueueWebhookDelivery ext now newid inp s =
     (let runAt = (case eq_run_at inp of None \<Rightarrow> now | Some r \<Rightarrow> r)
      in if length enqueue_values \<noteq> length enqueue_columns
         then (Inl (Error ''SQLITE_ERROR''), s)
         else (Inr newid,
               s\<lparr> webhook_deliveries := webhook_deliveries s @
                 [\<lparr> wd_id = newid, wd_merchant_id = eq_merchant_id inp,
                    wd_env = (case eq_env inp of None \<Rightarrow> Production | Some e \<Rightarrow> e),
                    wd_invoice_id = eq_invoice_id inp, wd_event_type = eq_event_type inp,
                    wd_payload_json = json_stringify ext (eq_payload inp),
                    wd_status = Queued, wd_attempt_count = 0, wd_next_retry_at = runAt,
                    wd_last_status_code = None, wd_last_error = None,
                    wd_response_snippet = None, wd_created_at = now,
                    wd_updated_at = now \<rparr>] \<rparr>))"

text \<open>
  \<^verbatim>\<open>getDueWebhookDeliveries\<close>:
  \<^verbatim>\<open>WHERE status = 'queued' AND next_retry_at <= ? ORDER BY next_retry_at ASC LIMIT ?\<close>.
\<close>

definition getDueWebhookDeliveries :: "int \<Rightarrow> nat \<Rightarrow> db \<Rightarrow> webhook_delivery list" where
  "getDueWebhookDeliveries now limit s =
     take limit (sort_key wd_next_retry_at
       (filter (\<lambda>r. wd_status r = Queued \<and> wd_next_retry_at r \<le> now) (webhook_deliveries s)))"

text \<open>
  The argument object of \<^verbatim>\<open>markWebhookDeliveryResult\<close>. Its \<^verbatim>\<open>next_retry_at\<close> is
  tested with \<^verbatim>\<open>=== null\<close> and with \<^verbatim>\<open>??\<close>, so an absent field and null differ.
\<close>

datatype 'a nullable = Undefined | Null | Val 'a

record mark_input =
  mi_id :: string
  mi_delivered :: bool
  mi_status_code :: "int option"
  mi_error :: "string option"
  mi_response_snippet :: "string option"
  mi_next_retry_at :: "int nullable"

definition markWebhookDeliveryResult :: "int \<Rightarrow> mark_input \<Rightarrow> db \<Rightarrow> db" where
  "markWebhookDeliveryResult now inp s =
     (let row = find (\<lambda>r. wd_id r = mi_id inp) (webhook_deliveries s);
          attempt = (case row of None \<Rightarrow> 0 | Some r \<Rightarrow> wd_attempt_count r) + 1;
          status = (if mi_delivered inp then Delivered
                    else if mi_next_retry_at inp = Null then Failed else Queued);
          nextRetry = (if mi_delivered inp then None
                       else (case mi_next_retry_at inp of Val v \<Rightarrow> Some v | _ \<Rightarrow> Some (now + 60)));
          s1 = s\<lparr> webhook_deliveries := map (\<lambda>r. if wd_id r = mi_id inp
                 then r\<lparr> wd_status := status, wd_attempt_count := attempt,
                        wd_next_retry_at := (case nextRetry of None \<Rightarrow> now | Some v \<Rightarrow> v),
                        wd_last_status_code := mi_status_code inp,
                        wd_last_error := mi_error inp,
                        wd_response_snippet := mi_response_snippet inp,
                        wd_updated_at := now \<rparr>
                 else r) (webhook_deliveries s) \<rparr>
      in if \<not> mi_delivered inp \<and> mi_next_retry_at inp = Null
         then s1\<lparr> webhook_deliveries := map (\<lambda>r. if wd_id r = mi_id inp
                 then r\<lparr> wd_status := Failed, wd_updated_at := now \<rparr> else r)
                 (webhook_deliveries s1) \<rparr>
         else s1)"

definition createAlert :: "int \<Rightarrow> string option \<Rightarrow> string \<Rightarrow> string \<Rightarrow> db \<Rightarrow> db" where
  "createAlert now merchant_id type message s =
     s\<lparr> alerts := alerts s @
       [\<lparr> al_merchant_id = merchant_id, al_type = type, al_message = message,
          al_created_at = now, al_resolved_at = None \<rparr>] \<rparr>"

definition signWebhook :: "externals \<Rightarrow> string \<Rightarrow> int \<Rightarrow> string \<Rightarrow> string" where
  "signWebhook ext webhookSecret timestamp payloadJson =
     hmac_sha256_hex ext webhookSecret (js_string_of_int timestamp @ ''.'' @ payloadJson)"

text \<open>
  The error text of the \<^verbatim>\<open>catch\<close> branch:
  \<^verbatim>\<open>e?.name === 'AbortError' ? 'TIMEOUT' : (e?.message || 'ERROR')\<close>.
\<close>

definition thrown_reason :: "string \<Rightarrow> string \<Rightarrow> string" where
  "thrown_reason name message =
     (if name = ''AbortError'' then ''TIMEOUT'' else if message \<noteq> [] then message else ''ERROR'')"

text \<open>The POST that \<^verbatim>\<open>deliverOne\<close> hands to \<^verbatim>\<open>fetch\<close>: URL, the three headers, body.\<close>

definition webhook_post :: "webhook_cfg \<Rightarrow> webhook_delivery \<Rightarrow> int \<Rightarrow> string \<Rightarrow> string \<Rightarrow> http_request" where
  "webhook_post wcfg d now signature payloadJson =
     \<lparr> hr_url = or_empty (wc_webhook_url wcfg), hr_event_type = wd_event_type d,
       hr_timestamp = js_string_of_int now, hr_signature = signature,
       hr_body = payloadJson \<rparr>"

definition deliverOne :: "worker_config \<Rightarrow> externals \<Rightarrow> int \<Rightarrow> webhook_delivery \<Rightarrow> db \<Rightarrow> db" where
  "deliverOne cfg ext now d s =
     (let wcfg = getMerchantWebhookConfigEnv (wd_merchant_id d) (wd_env d) s
      in if \<not> wc_webhook_enabled wcfg \<or> \<not> truthy (wc_webhook_url wcfg)
         then markWebhookDeliveryResult now
                \<lparr> mi_id = wd_id d, mi_delivered = False, mi_status_code = None,
                  mi_error = Some ''WEBHOOK_DISABLED'', mi_response_snippet = None,
                  mi_next_retry_at = Null \<rparr> s
         else
           (case getMerchantWebhookSecret (wd_merchant_id d) (wd_env d) s of
              None \<Rightarrow>
                markWebhookDeliveryResult now
                  \<lparr> mi_id = wd_id d, mi_delivered = False, mi_status_code = None,
                    mi_error = Some ''MISSING_CREDENTIALS'', mi_response_snippet = None,
                    mi_next_retry_at = Null \<rparr> s
            | Some whsec \<Rightarrow>
                (let payloadJson = wd_payload_json d;
                     signature = signWebhook ext whsec now payloadJson;
                     nextAttempt = wd_attempt_count d + 1
                 in case fetch ext (webhook_post wcfg d now signature payloadJson) of
                      Response status text \<Rightarrow>
                        (let snippet = (if text \<noteq> [] then Some (js_slice0 500 text) else None)
                         in if status \<ge> 200 \<and> status < 300
                            then markWebhookDeliveryResult now
                                   \<lparr> mi_id = wd_id d, mi_delivered = True,
                                     mi_status_code = Some status, mi_error = None,
                                     mi_response_snippet = snippet,
                                     mi_next_retry_at = Undefined \<rparr> s
                            else if nextAttempt \<ge> MAX_ATTEMPTS cfg
                            then createAlert now (Some (wd_merchant_id d)) ''WEBHOOK_FAILED''
                                   (''Webhook failed permanently for event '' @ wd_event_type d
                                      @ '' (HTTP '' @ js_string_of_int status @ '')'')
                                   (markWebhookDeliveryResult now
                                     \<lparr> mi_id = wd_id d, mi_delivered = False,
                                       mi_status_code = Some status,
                                       mi_error = Some (''HTTP_'' @ js_string_of_int status),
                                       mi_response_snippet = snippet,
                                       mi_next_retry_at = Null \<rparr> s)
                            else markWebhookDeliveryResult now
                                   \<lparr> mi_id = wd_id d, mi_delivered = False,
                                     mi_status_code = Some status,
                                     mi_error = Some (''HTTP_'' @ js_string_of_int status),
                                     mi_response_snippet = snippet,
                                     mi_next_retry_at = Val (now + backoffSeconds cfg nextAttempt) \<rparr> s)
                    | Thrown name message \<Rightarrow>
                        (if nextAttempt \<ge> MAX_ATTEMPTS cfg
                         then createAlert now (Some (wd_merchant_id d)) ''WEBHOOK_FAILED''
                                (''Webhook failed permanently for event '' @ wd_event_type d
                                   @ '' ('' @ thrown_reason name message @ '')'')
                                (markWebhookDeliveryResult now
                                  \<lparr> mi_id = wd_id d, mi_delivered = False,
                                    mi_status_code = None,
                                    mi_error = Some (thrown_reason name message),
                                    mi_response_snippet = None,
                                    mi_next_retry_at = Null \<rparr> s)
                         else markWebhookDeliveryResult now
                                \<lparr> mi_id = wd_id d, mi_delivered = False,
                                  mi_status_code = None,
                                  mi_error = Some (thrown_reason name message),
                                  mi_response_snippet = None,
                                  mi_next_retry_at = Val (now + backoffSeconds cfg nextAttempt) \<rparr> s))))"

text \<open>\<^verbatim>\<open>runWebhookWorkerOnce\<close>: the batch of at most 20 due rows, delivered in order.\<close>

definition runWebhookWorkerOnce :: "worker_config \<Rightarrow> externals \<Rightarrow> int \<Rightarrow> db \<Rightarrow> nat \<times> db" where
  "runWebhookWorkerOnce cfg ext now s =
     (let batch = getDueWebhookDeliveries now 20 s
      in (length batch, foldl (\<lambda>st d. deliverOne cfg ext now d st) s batch))"

text \<open>
  The invariant of a delivery row under a configuration: the attempt counter is within
  bounds (a queued row still has an attempt left), a delivered row records a 2xx status,
  and a failed row has used all attempts or carries one of the two configuration reasons.
\<close>

definition delivery_ok :: "worker_config \<Rightarrow> webhook_delivery \<Rightarrow> bool" where
  "delivery_ok cfg d \<longleftrightarrow>
     0 \<le> wd_attempt_count d \<and> wd_attempt_count d \<le> MAX_ATTEMPTS cfg
     \<and> (wd_status d = Queued \<longrightarrow> wd_attempt_count d < MAX_ATTEMPTS cfg)
     \<and> (wd_status d = Delivered \<longrightarrow>
          (case wd_last_status_code d of None \<Rightarrow> False | Some c \<Rightarrow> 200 \<le> c \<and> c \<le> 299))
     \<and> (wd_status d = Failed \<longrightarrow>
          wd_attempt_count d = MAX_ATTEMPTS cfg
          \<or> wd_last_error d = Some ''WEBHOOK_DISABLED''
          \<or> wd_last_error d = Some ''MISSING_CREDENTIALS'')"

definition deliveries_ok :: "worker_config \<Rightarrow> db \<Rightarrow> bool" where
  "deliveries_ok cfg s \<longleftrightarrow>
     distinct (map wd_id (webhook_deliveries s))
     \<and> (\<forall>d \<in> set (webhook_deliveries s). delivery_ok cfg d)"

text \<open>
  What one delivery attempt meets: \<open>None\<close> when the webhook is disabled, has no URL
  or has no secret (no request is sent), otherwise the result of the request.
\<close>

definition delivery_attempt :: "externals \<Rightarrow> int \<Rightarrow> webhook_delivery \<Rightarrow> db \<Rightarrow> fetch_result option" where
  "delivery_attempt ext now d s =
     (let wcfg = getMerchantWebhookConfigEnv (wd_merchant_id d) (wd_env d) s
      in if \<not> wc_webhook_enabled wcfg \<or> \<not> truthy (wc_webhook_url wcfg) then None
         else (case getMerchantWebhookSecret (wd_merchant_id d) (wd_env d) s of
                 None \<Rightarrow> None
               | Some whsec \<Rightarrow>
                   Some (fetch ext (webhook_post wcfg d now
                     (signWebhook ext whsec now (wd_payload_json d)) (wd_payload_json d)))))"

fun attempt_failed :: "fetch_result \<Rightarrow> bool" where
  "attempt_failed (Response status text) = (\<not> (status \<ge> 200 \<and> status < 300))"
| "attempt_failed (Thrown name message) = True"

text \<open>The states the store passes through while the worker runs, batch after batch.\<close>

inductive worker_run :: "worker_config \<Rightarrow> db \<Rightarrow> db \<Rightarrow> bool" for cfg :: worker_config and s0 :: db where
  start: "worker_run cfg s0 s0"
| batch: "worker_run cfg s0 s \<Longrightarrow> worker_run cfg s0 (snd (runWebhookWorkerOnce cfg ext now s))"

text \<open>
  The scheduler (lib/scheduler) calls \<^verbatim>\<open>runWebhookWorkerOnce\<close> from a \<^verbatim>\<open>setInterval\<close>
  callback, every 15 seconds by default, and does not wait for the call of the tick before.
  A tick reads its batch of due rows from the store as it is then and delivers the rows in
  order; the deliveries of the batches in flight interleave, each working on the row as its
  batch read it. A state is the store together with the undelivered rest of every batch.
\<close>

inductive scheduler_run ::
  "worker_config \<Rightarrow> db \<times> webhook_delivery list list \<Rightarrow> db \<times> webhook_delivery list list \<Rightarrow> bool"
  for cfg :: worker_config and c0 :: "db \<times> webhook_delivery list list" where
  idle: "scheduler_run cfg c0 c0"
| tick: "scheduler_run cfg c0 (s, bs) \<Longrightarrow>
     scheduler_run cfg c0 (s, bs @ [getDueWebhookDeliveries now 20 s])"
| deliver: "scheduler_run cfg c0 (s, bs) \<Longrightarrow> k < length bs \<Longrightarrow> bs ! k = d # rest \<Longrightarrow>
     scheduler_run cfg c0 (deliverOne cfg ext now d s, bs[k := rest])"

subsection \<open>Sample data for running the model\<close>

text \<open>
  A stand-in for the external functions, with the reply of \<^verbatim>\<open>fetch\<close> as its argument.
  Its \<open>to_number\<close> agrees with \<^verbatim>\<open>Number\<close> on non-empty strings of decimal digits, the
  only strings the sample runs convert, and is \<open>None\<close> elsewhere; its digest is a
  placeholder (the lengths of key and message in hexadecimal), which is all the runs need.
\<close>

definition hex_digit :: "nat \<Rightarrow> char" where
  "hex_digit n = (if n < 10 then char_of (48 + n) else char_of (87 + n))"

definition hex_byte :: "nat \<Rightarrow> string" where
  "hex_byte n = [hex_digit (n div 16 mod 16), hex_digit (n mod 16)]"

definition decimal_number :: "string \<Rightarrow> rat option" where
  "decimal_number s =
     (if s \<noteq> [] \<and> list_all is_digit s then Some (of_nat (nat_of_digits s)) else None)"

definition stub_externals :: "fetch_result \<Rightarrow> externals" where
  "stub_externals reply =
     \<lparr> hmac_sha256_hex = (\<lambda>key msg. hex_byte (length key) @ hex_byte (length msg)),
       json_stringify = (\<lambda>p. concat (map fst p)),
       to_number = decimal_number,
       fetch = (\<lambda>req. reply) \<rparr>"

definition sample_delivery :: "delivery_status \<Rightarrow> int \<Rightarrow> webhook_delivery" where
  "sample_delivery st attempts =
     \<lparr> wd_id = ''d1'', wd_merchant_id = ''m1'', wd_env = Production,
       wd_invoice_id = Some ''inv1'', wd_event_type = ''payment.paid'',
       wd_payload_json = ''{}'', wd_status = st, wd_attempt_count = attempts,
       wd_next_retry_at = 1000, wd_last_status_code = None, wd_last_error = None,
       wd_response_snippet = None, wd_created_at = 900, wd_updated_at = 900 \<rparr>"

definition sample_merchant :: "int \<Rightarrow> merchant_row" where
  "sample_merchant enabled =
     \<lparr> webhook_url = Some ''https://merchant.example/hook'', webhook_enabled = enabled,
       sandbox_webhook_url = None, sandbox_webhook_enabled = 0, ip_whitelist_enabled = 0 \<rparr>"

definition sample_credentials :: credential_row where
  "sample_credentials =
     \<lparr> api_secret = Some ''sksec_1'', sandbox_api_secret = None,
       webhook_secret = Some ''whsec_1'', sandbox_webhook_secret = None \<rparr>"

definition webhook_db :: "int \<Rightarrow> db" where
  "webhook_db attempts = empty_db
     \<lparr> webhook_deliveries := [sample_delivery Queued attempts],
       merchants := [''m1'' \<mapsto> sample_merchant 1],
       merchant_credentials := [''m1'' \<mapsto> sample_credentials] \<rparr>"

text \<open>Two due rows of merchant \<open>m1\<close>; the second has used seven of its eight attempts.\<close>

definition overlap_db :: db where
  "overlap_db = (webhook_db 7)
     \<lparr> webhook_deliveries :=
         [(sample_delivery Queued 0)\<lparr> wd_id := ''d0'' \<rparr>, sample_delivery Queued 7] \<rparr>"

section \<open>Signed-request pipeline (api/gw/security)\<close>

subsection \<open>Nonce store (lib/db)\<close>

text \<open>
  \<^verbatim>\<open>isNonceUsed\<close> first deletes every row with \<^verbatim>\<open>expires_at <= now\<close> and then
  looks for a row of the merchant and nonce with \<^verbatim>\<open>expires_at > now\<close>; it returns the
  answer and the store after the delete.
\<close>

definition isNonceUsed :: "int \<Rightarrow> string \<Rightarrow> string \<Rightarrow> db \<Rightarrow> bool \<times> db" where
  "isNonceUsed now merchantId nonce s =
     (if merchantId = [] \<or> nonce = [] then (True, s)
      else (let s1 = s\<lparr> used_nonces := filter (\<lambda>r. \<not> un_expires_at r \<le> now) (used_nonces s) \<rparr>
            in (list_ex (\<lambda>r. un_merchant_id r = merchantId \<and> un_nonce r = nonce
                                \<and> un_expires_at r > now) (used_nonces s1), s1)))"

text \<open>\<^verbatim>\<open>markNonceUsed\<close>: \<^verbatim>\<open>INSERT OR REPLACE\<close> on the key \<open>(merchant_id, nonce)\<close>.\<close>

definition markNonceUsed :: "string \<Rightarrow> string \<Rightarrow> int \<Rightarrow> db \<Rightarrow> db" where
  "markNonceUsed merchantId nonce expiresAt s =
     s\<lparr> used_nonces :=
         filter (\<lambda>r. \<not> (un_merchant_id r = merchantId \<and> un_nonce r = nonce)) (used_nonces s)
         @ [\<lparr> un_merchant_id = merchantId, un_nonce = nonce, un_expires_at = expiresAt \<rparr>] \<rparr>"

definition getMerchantSecretForSigning :: "string \<Rightarrow> gw_env \<Rightarrow> db \<Rightarrow> string option" where
  "getMerchantSecretForSigning merchantId env s = getMerchantSigningSecret merchantId env s"

subsection \<open>The middleware\<close>

record request =
  rq_merchantId :: "string option"
  rq_gwEnv :: "gw_env option"
  rq_method :: "string option"
  rq_originalUrl :: "string option"
  rq_url :: "string option"
  rq_rawBody :: "string option"
  rq_header :: "string \<Rightarrow> string option"
  rq_ip :: "string option"

text \<open>
  What a middleware does with a request: it answers with an HTTP status and an error code
  (\<^verbatim>\<open>res.status(n).json({success: false, error: {code, ...}})\<close>; the message text is not
  kept), or it calls \<^verbatim>\<open>next()\<close>.
\<close>

datatype mw_result = Reject int string | Next

text \<open>
  \<^verbatim>\<open>Buffer.from(s, 'hex')\<close> decodes pairs of hexadecimal digits and stops at the first
  pair that is not one (a trailing single digit is dropped); it never throws.
\<close>

definition hex_val :: "char \<Rightarrow> nat option" where
  "hex_val c =
     (let n = (of_char c :: nat)
      in if 48 \<le> n \<and> n \<le> 57 then Some (n - 48)
         else if 97 \<le> n \<and> n \<le> 102 then Some (n - 87)
         else if 65 \<le> n \<and> n \<le> 70 then Some (n - 55)
         else None)"

fun buffer_from_hex :: "string \<Rightarrow> nat list" where
  "buffer_from_hex (a # b # rest) =
     (case (hex_val a, hex_val b) of
        (Some x, Some y) \<Rightarrow> (16 * x + y) # buffer_from_hex rest
      | _ \<Rightarrow> [])"
| "buffer_from_hex _ = []"

definition timingSafeEqualHex :: "string \<Rightarrow> string \<Rightarrow> bool" where
  "timingSafeEqualHex a b =
     (let ab = buffer_from_hex a; bb = buffer_from_hex b
      in if length ab \<noteq> length bb then False else ab = bb)"

definition canonicalString :: "request \<Rightarrow> string \<Rightarrow> string \<Rightarrow> string" where
  "canonicalString req timestamp nonce =
     (let method = js_toUpperCase (if truthy (rq_method req) then or_empty (rq_method req) else ''GET'');
          path = (if truthy (rq_originalUrl req) then or_empty (rq_originalUrl req)
                  else if truthy (rq_url req) then or_empty (rq_url req) else ''/'');
          body = (case rq_rawBody req of Some b \<Rightarrow> b | None \<Rightarrow> [])
      in method @ [CHR 0x0A] @ path @ [CHR 0x0A] @ timestamp @ [CHR 0x0A] @ nonce
           @ [CHR 0x0A] @ body)"

definition makeHmac :: "externals \<Rightarrow> string \<Rightarrow> string \<Rightarrow> string" where
  "makeHmac ext secret data = hmac_sha256_hex ext secret data"

record signing_opts =
  windowSeconds :: "int option"
  nonceTtlSeconds :: "int option"

text \<open>
  \<^verbatim>\<open>requireSignedRequest(opts)\<close>; the defaults 60 and 120 are those of
  \<^verbatim>\<open>SIGN_WINDOW_SECONDS\<close> and \<^verbatim>\<open>NONCE_TTL_SECONDS\<close>.
\<close>

definition window_of :: "signing_opts \<Rightarrow> int" where
  "window_of opts = (case windowSeconds opts of Some w \<Rightarrow> w | None \<Rightarrow> 60)"

definition nonce_ttl_of :: "signing_opts \<Rightarrow> int" where
  "nonce_ttl_of opts = (case nonceTtlSeconds opts of Some t \<Rightarrow> t | None \<Rightarrow> 120)"

definition requireSignedRequest ::
  "signing_opts \<Rightarrow> externals \<Rightarrow> int \<Rightarrow> request \<Rightarrow> db \<Rightarrow> mw_result \<times> db" where
  "requireSignedRequest opts ext now req s =
     (let window = window_of opts;
          nonceTtl = nonce_ttl_of opts
      in if \<not> truthy (rq_merchantId req) then (Reject 401 ''UNAUTHENTICATED'', s)
         else
          (let merchantId = or_empty (rq_merchantId req);
               tsStr = js_trim (or_empty (rq_header req ''x-timestamp''));
               nonce = js_trim (or_empty (rq_header req ''x-nonce''));
               sig = js_trim (or_empty (rq_header req ''x-signature''))
           in if tsStr = [] \<or> nonce = [] \<or> sig = []
              then (Reject 400 ''MISSING_SIGNATURE_HEADERS'', s)
              else
               (case to_number ext tsStr of
                  None \<Rightarrow> (Reject 400 ''INVALID_TIMESTAMP'', s)
                | Some ts \<Rightarrow>
                    if ts \<le> 0 then (Reject 400 ''INVALID_TIMESTAMP'', s)
                    else if \<bar>of_int now - ts\<bar> > of_int window
                    then (Reject 401 ''REQUEST_EXPIRED'', s)
                    else
                     (case isNonceUsed now merchantId nonce s of
                        (used, s1) \<Rightarrow>
                          if used then (Reject 409 ''REPLAY_DETECTED'', s1)
                          else
                           (case getMerchantSecretForSigning merchantId
                                   (case rq_gwEnv req of Some e \<Rightarrow> e | None \<Rightarrow> Production) s1 of
                              None \<Rightarrow> (Reject 401 ''NO_SIGNING_SECRET'', s1)
                            | Some secret \<Rightarrow>
                                (let data = canonicalString req tsStr nonce;
                                     expected = makeHmac ext secret data
                                 in if \<not> timingSafeEqualHex expected sig
                                    then (Reject 401 ''INVALID_SIGNATURE'', s1)
                                    else (Next, markNonceUsed merchantId nonce
                                                  (now + nonceTtl) s1)))))))"

text \<open>
  The middleware is an async function. It awaits \<^verbatim>\<open>isNonceUsed\<close>,
  \<^verbatim>\<open>getMerchantSecretForSigning\<close> and \<^verbatim>\<open>markNonceUsed\<close>, each a query of the store, and
  between these calls the event loop runs the steps of other requests. \<open>rsr_step\<close> is the
  part of the middleware up to and including its next awaited call: from \<open>Arrived\<close> the
  header and timestamp checks and the nonce lookup, from \<open>Looked\<close> the secret and the
  signature check, from \<open>Verified\<close> the recording of the nonce and \<^verbatim>\<open>next()\<close>.
\<close>

datatype rsr_progress = Arrived | Looked | Verified | Answered mw_result

definition rsr_step ::
  "signing_opts \<Rightarrow> externals \<Rightarrow> int \<Rightarrow> request \<Rightarrow> rsr_progress \<Rightarrow> db \<Rightarrow> rsr_progress \<times> db" where
  "rsr_step opts ext now req pc s =
     (let merchantId = or_empty (rq_merchantId req);
          tsStr = js_trim (or_empty (rq_header req ''x-timestamp''));
          nonce = js_trim (or_empty (rq_header req ''x-nonce''));
          sig = js_trim (or_empty (rq_header req ''x-signature''))
      in case pc of
           Arrived \<Rightarrow>
             (if \<not> truthy (rq_merchantId req) then (Answered (Reject 401 ''UNAUTHENTICATED''), s)
              else if tsStr = [] \<or> nonce = [] \<or> sig = []
              then (Answered (Reject 400 ''MISSING_SIGNATURE_HEADERS''), s)
              else
               (case to_number ext tsStr of
                  None \<Rightarrow> (Answered (Reject 400 ''INVALID_TIMESTAMP''), s)
                | Some ts \<Rightarrow>
                    if ts \<le> 0 then (Answered (Reject 400 ''INVALID_TIMESTAMP''), s)
                    else if \<bar>of_int now - ts\<bar> > of_int (window_of opts)
                    then (Answered (Reject 401 ''REQUEST_EXPIRED''), s)
                    else
                     (case isNonceUsed now merchantId nonce s of
                        (used, s1) \<Rightarrow>
                          if used then (Answered (Reject 409 ''REPLAY_DETECTED''), s1)
                          else (Looked, s1))))
         | Looked \<Rightarrow>
             (case getMerchantSecretForSigning merchantId
                     (case rq_gwEnv req of Some e \<Rightarrow> e | None \<Rightarrow> Production) s of
                None \<Rightarrow> (Answered (Reject 401 ''NO_SIGNING_SECRET''), s)
              | Some secret \<Rightarrow>
                  if \<not> timingSafeEqualHex (makeHmac ext secret (canonicalString req tsStr nonce)) sig
                  then (Answered (Reject 401 ''INVALID_SIGNATURE''), s)
                  else (Verified, s))
         | Verified \<Rightarrow>
             (Answered Next, markNonceUsed merchantId nonce (now + nonce_ttl_of opts) s)
         | Answered r \<Rightarrow> (Answered r, s))"

text \<open>The three steps of one request with no other request in between.\<close>

definition rsr_alone ::
  "signing_opts \<Rightarrow> externals \<Rightarrow> int \<Rightarrow> request \<Rightarrow> db \<Rightarrow> rsr_progress \<times> db" where
  "rsr_alone opts ext now req s =
     (case rsr_step opts ext now req Arrived s of
        (p1, s1) \<Rightarrow>
          (case rsr_step opts ext now req p1 s1 of
             (p2, s2) \<Rightarrow> rsr_step opts ext now req p2 s2))"

text \<open>
  Requests in flight together: each has its externals, its clock reading and its progress,
  and any request that is not yet answered may take the next step.
\<close>

inductive concurrent_run ::
  "signing_opts \<Rightarrow> (externals \<times> int \<times> request) list \<Rightarrow> db \<times> rsr_progress list
     \<Rightarrow> db \<times> rsr_progress list \<Rightarrow> bool"
  for opts :: signing_opts and reqs :: "(externals \<times> int \<times> request) list"
    and c0 :: "db \<times> rsr_progress list" where
  idle: "concurrent_run opts reqs c0 c0"
| step: "concurrent_run opts reqs c0 (s, ps) \<Longrightarrow> k < length ps \<Longrightarrow> k < length reqs \<Longrightarrow>
     reqs ! k = (ext, now, req) \<Longrightarrow> rsr_step opts ext now req (ps ! k) s = (p', s') \<Longrightarrow>
     concurrent_run opts reqs c0 (s', ps[k := p'])"

text \<open>
  The timestamp the window check is applied to: defined for a request that passed the
  checks before it (merchant bound, the three headers present, a finite positive number).
\<close>

definition request_timestamp :: "externals \<Rightarrow> request \<Rightarrow> rat option" where
  "request_timestamp ext req =
     (if truthy (rq_merchantId req)
         \<and> js_trim (or_empty (rq_header req ''x-timestamp'')) \<noteq> []
         \<and> js_trim (or_empty (rq_header req ''x-nonce'')) \<noteq> []
         \<and> js_trim (or_empty (rq_header req ''x-signature'')) \<noteq> []
      then (case to_number ext (js_trim (or_empty (rq_header req ''x-timestamp''))) of
              None \<Rightarrow> None
            | Some ts \<Rightarrow> if ts \<le> 0 then None else Some ts)
      else None)"

text \<open>
  A correctly signed sample request of merchant \<open>m1\<close>, as the client helper builds it:
  the signature is the digest of the canonical string under the merchant's secret.
\<close>

definition unsigned_request :: request where
  "unsigned_request =
     \<lparr> rq_merchantId = Some ''m1'', rq_gwEnv = Some Production, rq_method = Some ''post'',
       rq_originalUrl = Some ''/invoices'', rq_url = Some ''/invoices'',
       rq_rawBody = Some ''{}'', rq_header = Map.empty, rq_ip = Some ''10.0.0.7'' \<rparr>"

definition signed_request :: "externals \<Rightarrow> string \<Rightarrow> string \<Rightarrow> string \<Rightarrow> request" where
  "signed_request ext secret timestamp nonce =
     unsigned_request\<lparr> rq_header :=
       [''x-timestamp'' \<mapsto> timestamp, ''x-nonce'' \<mapsto> nonce,
        ''x-signature'' \<mapsto> makeHmac ext secret (canonicalString unsigned_request timestamp nonce)] \<rparr>"

definition default_opts :: signing_opts where
  "default_opts = \<lparr> windowSeconds = None, nonceTtlSeconds = None \<rparr>"

definition gateway_db :: db where
  "gateway_db = empty_db
     \<lparr> merchants := [''m1'' \<mapsto> sample_merchant 0],
       merchant_credentials := [''m1'' \<mapsto> sample_credentials] \<rparr>"

definition stale_db :: db where
  "stale_db = gateway_db
     \<lparr> used_nonces := [\<lparr> un_merchant_id = ''m1'', un_nonce = ''old'', un_expires_at = 10 \<rparr>] \<rparr>"

text \<open>
  The stores reached from \<open>s\<close> by any number of requests through the signed-request
  middleware, each at a time not after \<open>now\<close>.
\<close>

inductive gateway_run :: "signing_opts \<Rightarrow> int \<Rightarrow> db \<Rightarrow> db \<Rightarrow> bool"
  for opts :: signing_opts and now :: int and s :: db where
  idle: "gateway_run opts now s s"
| request: "gateway_run opts now s s' \<Longrightarrow> t \<le> now \<Longrightarrow>
     gateway_run opts now s (snd (requireSignedRequest opts ext t req s'))"

section \<open>Invoice service (api/gw/invoices)\<close>

subsection \<open>Invoice rows, events and the paid cache (lib/db)\<close>

text \<open>
  \<^verbatim>\<open>getInvoiceById(invoiceId, merchantId?)\<close> selects by id and merchant when a merchant is
  given, and by id alone when \<^verbatim>\<open>merchantId\<close> is missing or empty.
\<close>

definition getInvoiceById :: "string \<Rightarrow> string option \<Rightarrow> db \<Rightarrow> invoice option" where
  "getInvoiceById invoiceId merchantId s =
     (if truthy merchantId
      then find (\<lambda>i. inv_id i = invoiceId \<and> inv_merchant_id i = or_empty merchantId) (invoices s)
      else find (\<lambda>i. inv_id i = invoiceId) (invoices s))"

text \<open>
  \<^verbatim>\<open>updateInvoiceStatus\<close>: \<^verbatim>\<open>UPDATE invoices SET status = ?[, paid_at = ?] WHERE id = ? AND merchant_id = ?\<close>;
  the \<^verbatim>\<open>WHERE\<close> clause does not mention the current status.
\<close>

definition updateInvoiceStatus ::
  "string \<Rightarrow> string \<Rightarrow> InvoiceStatus \<Rightarrow> int option \<Rightarrow> int \<Rightarrow> db \<Rightarrow> db" where
  "updateInvoiceStatus invoiceId merchantId status paidAt now s =
     (if status = Paid
      then s\<lparr> invoices := map (\<lambda>i. if inv_id i = invoiceId \<and> inv_merchant_id i = merchantId
                 then i\<lparr> inv_status := status,
                        inv_paid_at := Some (case paidAt of Some p \<Rightarrow> p | None \<Rightarrow> now) \<rparr>
                 else i) (invoices s) \<rparr>
      else s\<lparr> invoices := map (\<lambda>i. if inv_id i = invoiceId \<and> inv_merchant_id i = merchantId
                 then i\<lparr> inv_status := status \<rparr> else i) (invoices s) \<rparr>)"

definition createInvoiceEvent :: "invoice_event \<Rightarrow> db \<Rightarrow> db" where
  "createInvoiceEvent ev s = s\<lparr> invoice_events := invoice_events s @ [ev] \<rparr>"

definition getPendingTransaction :: "string \<Rightarrow> db \<Rightarrow> pending_transaction option" where
  "getPendingTransaction i s = find (\<lambda>r. pt_id r = i) (pending_transactions s)"

definition deletePendingTransaction :: "string \<Rightarrow> db \<Rightarrow> db" where
  "deletePendingTransaction i s =
     s\<lparr> pending_transactions := filter (\<lambda>r. pt_id r \<noteq> i) (pending_transactions s) \<rparr>"

text \<open>
  \<^verbatim>\<open>createPaidTransaction\<close> inserts a row; its key is new wherever the handler calls it
  (the handler has just found no row of that id).
\<close>

definition createPaidTransaction :: "paid_transaction \<Rightarrow> db \<Rightarrow> db" where
  "createPaidTransaction tx s = s\<lparr> paid_transactions := paid_transactions s @ [tx] \<rparr>"

definition getPaidTransaction :: "string \<Rightarrow> db \<Rightarrow> paid_transaction option" where
  "getPaidTransaction i s = find (\<lambda>r. pd_id r = i) (paid_transactions s)"

subsection \<open>The check handler\<close>

record invoice_config =
  EXPIRY_SECONDS :: int
  PAID_EXPIRY_SECONDS :: int

definition default_invoice_config :: invoice_config where
  "default_invoice_config = \<lparr> EXPIRY_SECONDS = 600, PAID_EXPIRY_SECONDS = 3600 \<rparr>"

record check_request =
  cr_method :: string
  cr_merchantId :: "string option"
  cr_gwEnv :: "gw_env option"
  cr_params_id :: "string option"
  cr_username :: "string option"
  cr_token :: "string option"

text \<open>
  What a handler answers: an error envelope with its HTTP status and code, a success
  envelope with its data object, or nothing because an awaited call threw.
\<close>

datatype reply = Fail int string | Success payload | Raised error

text \<open>
  One record of the upstream credit history, as far as the handler reads it. The upstream
  module (lib/orderkuota) is not part of the sources at hand: it is the parameter
  \<open>getQrisHistory\<close> of the handler, giving the list the handler extracts from the response
  (\<^verbatim>\<open>qris_ajaib_history.results\<close>, else \<^verbatim>\<open>qris_history.results\<close>, else empty) or the error
  it throws. The amount of a record is
  \<^verbatim>\<open>parseInt(String(h.kredit || '').replace(/\./g, ''), 10) || 0\<close>, a JavaScript number:
  \<^verbatim>\<open>NaN\<close> and zero give 0, every other number is kept. The handler compares it with
  \<^verbatim>\<open>pending.final_amount\<close> by \<^verbatim>\<open>===\<close>.
\<close>

record history_entry =
  he_kredit :: string
  he_status :: string

definition credit_amount :: "history_entry \<Rightarrow> js_number" where
  "credit_amount h =
     (let kreditStr = filter (\<lambda>c. c \<noteq> CHR ''.'') (he_kredit h)
      in case js_parseInt10 kreditStr of NaN \<Rightarrow> Finite 0 | amt \<Rightarrow> amt)"

text \<open>
  The block \<^verbatim>\<open>// Enqueue webhook (if enabled)\<close> that each branch of the handler repeats;
  the result is the error of the enqueue, if it threw.
\<close>

definition enqueue_if_enabled ::
  "externals \<Rightarrow> int \<Rightarrow> string \<Rightarrow> string \<Rightarrow> gw_env \<Rightarrow> string \<Rightarrow> string \<Rightarrow> payload \<Rightarrow> db
     \<Rightarrow> error option \<times> db" where
  "enqueue_if_enabled ext now newid merchantId env invoiceId event_type pl s =
     (let whCfg = getMerchantWebhookConfigEnv merchantId env s
      in if wc_webhook_enabled whCfg \<and> truthy (wc_webhook_url whCfg)
         then (case enqueueWebhookDelivery ext now newid
                      \<lparr> eq_merchant_id = merchantId, eq_env = Some env,
                        eq_invoice_id = Some invoiceId, eq_event_type = event_type,
                        eq_payload = pl, eq_run_at = Some now \<rparr> s of
                 (Inl e, s') \<Rightarrow> (Some e, s')
               | (Inr i, s') \<Rightarrow> (None, s'))
         else (None, s))"

definition paid_reply :: "int \<Rightarrow> int \<Rightarrow> reply" where
  "paid_reply final_amount paid_at =
     Success [(''status'', JStr ''paid''), (''final_amount'', JNum final_amount),
              (''paid_at'', JNum paid_at)]"

definition checkInvoice ::
  "invoice_config \<Rightarrow> externals \<Rightarrow> (string \<Rightarrow> string \<Rightarrow> error + history_entry list) \<Rightarrow> int
     \<Rightarrow> string \<Rightarrow> check_request \<Rightarrow> db \<Rightarrow> reply \<times> db" where
  "checkInvoice cfg ext getQrisHistory now newid req s =
     (if cr_method req \<noteq> ''POST'' then (Fail 405 ''METHOD_NOT_ALLOWED'', s)
      else if \<not> truthy (cr_merchantId req) then (Fail 401 ''UNAUTH'', s)
      else
       (let merchantId = or_empty (cr_merchantId req);
            env = (case cr_gwEnv req of Some e \<Rightarrow> e | None \<Rightarrow> Production);
            invoiceId = js_trim (or_empty (cr_params_id req))
        in if \<not> truthy (cr_username req) \<or> \<not> truthy (cr_token req)
           then (Fail 400 ''MISSING_PARAMS'', s)
           else
            (case getInvoiceById invoiceId (cr_merchantId req) s of
               None \<Rightarrow> (Fail 404 ''NOT_FOUND'', s)
             | Some invc \<Rightarrow>
                (case getPaidTransaction invoiceId s of
                   Some paidTx \<Rightarrow>
                     (if inv_status invc \<noteq> Paid
                      then
                       (let s1 = updateInvoiceStatus invoiceId merchantId Paid
                                   (Some (pd_paid_at paidTx)) now s;
                            s2 = createInvoiceEvent
                                   \<lparr> ev_invoice_id = invoiceId, ev_merchant_id = merchantId,
                                     ev_event_type = ''payment.paid'',
                                     ev_payload = [(''invoice_id'', JStr invoiceId),
                                        (''final_amount'', JNum (pd_final_amount paidTx)),
                                        (''paid_at'', JNum (pd_paid_at paidTx))],
                                     ev_created_at = now \<rparr> s1
                        in case enqueue_if_enabled ext now newid merchantId env invoiceId
                                  ''payment.paid''
                                  [(''event_type'', JStr ''payment.paid''),
                                   (''invoice_id'', JStr invoiceId),
                                   (''final_amount'', JNum (pd_final_amount paidTx)),
                                   (''paid_at'', JNum (pd_paid_at paidTx)),
                                   (''created_at'', JNum now)] s2 of
                             (Some e, s3) \<Rightarrow> (Raised e, s3)
                           | (None, s3) \<Rightarrow>
                               (paid_reply (pd_final_amount paidTx) (pd_paid_at paidTx), s3))
                      else (paid_reply (pd_final_amount paidTx) (pd_paid_at paidTx), s))
                 | None \<Rightarrow>
                    (case getPendingTransaction invoiceId s of
                       None \<Rightarrow>
                         (Success [(''status'', JStr (if inv_status invc = Expired
                                                       then ''expired'' else ''not_found''))], s)
                     | Some pending \<Rightarrow>
                        (if now > pt_expires_at pending
                         then
                          (let s0 = deletePendingTransaction invoiceId s
                           in if inv_status invc \<noteq> Expired
                              then
                               (let s1 = updateInvoiceStatus invoiceId merchantId Expired None now s0;
                                    s2 = createInvoiceEvent
                                           \<lparr> ev_invoice_id = invoiceId, ev_merchant_id = merchantId,
                                             ev_event_type = ''payment.expired'',
                                             ev_payload = [(''invoice_id'', JStr invoiceId)],
                                             ev_created_at = now \<rparr> s1
                                in case enqueue_if_enabled ext now newid merchantId env invoiceId
                                          ''payment.expired''
                                          [(''event_type'', JStr ''payment.expired''),
                                           (''invoice_id'', JStr invoiceId),
                                           (''created_at'', JNum now)] s2 of
                                     (Some e, s3) \<Rightarrow> (Raised e, s3)
                                   | (None, s3) \<Rightarrow>
                                       (Success [(''status'', JStr ''expired'')], s3))
                              else (Success [(''status'', JStr ''expired'')], s0))
                         else
                          (case getQrisHistory (or_empty (cr_username req)) (or_empty (cr_token req)) of
                             Inl e \<Rightarrow> (Raised e, s)
                           | Inr history \<Rightarrow>
                              (case find (\<lambda>h. credit_amount h = Finite (pt_final_amount pending)
                                               \<and> he_status h = ''IN'') history of
                                 Some found \<Rightarrow>
                                  (let s0 = deletePendingTransaction invoiceId s;
                                       s1 = createPaidTransaction
                                              \<lparr> pd_id = invoiceId,
                                                pd_username = or_empty (cr_username req),
                                                pd_final_amount = pt_final_amount pending,
                                                pd_paid_at = now,
                                                pd_expires_at = now + PAID_EXPIRY_SECONDS cfg \<rparr> s0;
                                       s2 = updateInvoiceStatus invoiceId merchantId Paid (Some now) now s1;
                                       s3 = createInvoiceEvent
                                              \<lparr> ev_invoice_id = invoiceId, ev_merchant_id = merchantId,
                                                ev_event_type = ''payment.paid'',
                                                ev_payload = [(''invoice_id'', JStr invoiceId),
                                                   (''final_amount'', JNum (pt_final_amount pending)),
                                                   (''paid_at'', JNum now)],
                                                ev_created_at = now \<rparr> s2
                                   in case enqueue_if_enabled ext now newid merchantId env invoiceId
                                             ''payment.paid''
                                             [(''event_type'', JStr ''payment.paid''),
                                              (''invoice_id'', JStr invoiceId),
                                              (''final_amount'', JNum (pt_final_amount pending)),
                                              (''paid_at'', JNum now),
                                              (''created_at'', JNum now)] s3 of
                                        (Some e, s4) \<Rightarrow> (Raised e, s4)
                                      | (None, s4) \<Rightarrow>
                                          (paid_reply (pt_final_amount pending) now, s4))
                               | None \<Rightarrow>
                                  (Success [(''status'', JStr ''pending''),
                                            (''final_amount'', JNum (pt_final_amount pending)),
                                            (''expires_in'', JNum (pt_expires_at pending - now))],
                                   s)))))))))"

text \<open>
  The pending transaction a check call polls the upstream for: defined when the call is a
  well-formed POST of the owning merchant, the invoice has no paid-cache entry, and its
  pending transaction exists and has not expired (\<open>now \<le> expires_at\<close>).
\<close>

definition pending_check :: "check_request \<Rightarrow> int \<Rightarrow> db \<Rightarrow> pending_transaction option" where
  "pending_check req now s =
     (if cr_method req = ''POST'' \<and> truthy (cr_merchantId req)
         \<and> truthy (cr_username req) \<and> truthy (cr_token req)
      then (case getInvoiceById (js_trim (or_empty (cr_params_id req))) (cr_merchantId req) s of
              None \<Rightarrow> None
            | Some invc \<Rightarrow>
               (case getPaidTransaction (js_trim (or_empty (cr_params_id req))) s of
                  Some paidTx \<Rightarrow> None
                | None \<Rightarrow>
                   (case getPendingTransaction (js_trim (or_empty (cr_params_id req))) s of
                      None \<Rightarrow> None
                    | Some pending \<Rightarrow> if now > pt_expires_at pending then None else Some pending)))
      else None)"

definition credit_matches :: "pending_transaction \<Rightarrow> history_entry list \<Rightarrow> bool" where
  "credit_matches pending history =
     list_ex (\<lambda>h. credit_amount h = Finite (pt_final_amount pending) \<and> he_status h = ''IN'')
       history"

definition webhook_on :: "check_request \<Rightarrow> db \<Rightarrow> bool" where
  "webhook_on req s =
     (let whCfg = getMerchantWebhookConfigEnv (or_empty (cr_merchantId req))
                    (case cr_gwEnv req of Some e \<Rightarrow> e | None \<Rightarrow> Production) s
      in wc_webhook_enabled whCfg \<and> truthy (wc_webhook_url whCfg))"

definition sample_invoice :: "InvoiceStatus \<Rightarrow> invoice" where
  "sample_invoice st =
     \<lparr> inv_id = ''inv1'', inv_merchant_id = ''m1'', inv_env = Production,
       inv_username = ''merchantA'', inv_reference_id = None, inv_base_amount = 10000,
       inv_unique_suffix = 1, inv_final_amount = 10001, inv_status = st,
       inv_qris_string = '''', inv_created_at = 900, inv_expires_at = 1500,
       inv_paid_at = None \<rparr>"

definition invoice_db :: db where
  "invoice_db = gateway_db
     \<lparr> invoices := [sample_invoice Pending],
       pending_transactions := [sample_pending ''inv1'' ''merchantA'' 1 1500] \<rparr>"

definition invoice_webhook_db :: db where
  "invoice_webhook_db = invoice_db\<lparr> merchants := [''m1'' \<mapsto> sample_merchant 1] \<rparr>"

definition check_inv1 :: check_request where
  "check_inv1 =
     \<lparr> cr_method = ''POST'', cr_merchantId = Some ''m1'', cr_gwEnv = Some Production,
       cr_params_id = Some ''inv1'', cr_username = Some ''merchantA'',
       cr_token = Some ''tok'' \<rparr>"

definition credit_history :: "string \<Rightarrow> string \<Rightarrow> error + history_entry list" where
  "credit_history username token =
     Inr [\<lparr> he_kredit = ''5.000'', he_status = ''IN'' \<rparr>,
          \<lparr> he_kredit = ''10.001'', he_status = ''IN'' \<rparr>]"



section \<open>IP allow-list (api/gw/router)\<close>

text \<open>
  The middleware parses and matches addresses with the library ipaddr.js, which is not code
  of this repository: its four functions are parameters of the model. \<open>None\<close> stands for
  a call that throws.
\<close>

record 'a ipaddr_lib =
  ip_parse :: "string \<Rightarrow> 'a option"
  ip_parseCIDR :: "string \<Rightarrow> ('a \<times> nat) option"
  ip_match :: "'a \<Rightarrow> 'a \<Rightarrow> nat \<Rightarrow> bool option"
  ip_toNormalizedString :: "'a \<Rightarrow> string"

definition isIpWhitelistEnabled :: "string \<Rightarrow> db \<Rightarrow> bool" where
  "isIpWhitelistEnabled merchantId s =
     (case merchants s merchantId of None \<Rightarrow> False | Some row \<Rightarrow> ip_whitelist_enabled row = 1)"

text \<open>
  \<^verbatim>\<open>listIpWhitelist\<close> orders the entries by their text; the middleware only tests the list
  for emptiness and for the existence of a matching entry, so the order is not kept here.
\<close>

definition listIpWhitelist :: "string \<Rightarrow> db \<Rightarrow> string list" where
  "listIpWhitelist merchantId s =
     map iw_cidr (filter (\<lambda>r. iw_merchant_id r = merchantId) (merchant_ip_whitelist s))"

text \<open>
  The client address: the first value of \<^verbatim>\<open>X-Forwarded-For\<close>, trimmed, if it is not empty,
  else \<^verbatim>\<open>req.ip\<close>; a leading \<^verbatim>\<open>::ffff:\<close> is cut off.
\<close>

definition unmap_ipv4 :: "string \<Rightarrow> string" where
  "unmap_ipv4 ip = (if take 7 ip = ''::ffff:'' then drop 7 ip else ip)"

definition client_ip :: "request \<Rightarrow> string" where
  "client_ip req =
     (let xff = js_trim (takeWhile (\<lambda>c. c \<noteq> CHR '','') (or_empty (rq_header req ''x-forwarded-for'')));
          ipRaw = (if xff \<noteq> [] then xff else or_empty (rq_ip req))
      in unmap_ipv4 ipRaw)"

text \<open>The callback of \<^verbatim>\<open>cidrs.some(...)\<close>: a throwing library call makes the entry fail.\<close>

definition entry_matches :: "'a ipaddr_lib \<Rightarrow> 'a \<Rightarrow> string \<Rightarrow> bool" where
  "entry_matches lib parsed c =
     (let e = js_trim c
      in if CHR ''/'' \<in> set e
         then (case ip_parseCIDR lib e of
                 None \<Rightarrow> False
               | Some (rng, bits) \<Rightarrow>
                   (case ip_match lib parsed rng bits of None \<Rightarrow> False | Some b \<Rightarrow> b))
         else (case ip_parse lib e of
                 None \<Rightarrow> False
               | Some target \<Rightarrow>
                   ip_toNormalizedString lib parsed = ip_toNormalizedString lib target))"

definition ipWhitelist :: "'a ipaddr_lib \<Rightarrow> request \<Rightarrow> db \<Rightarrow> mw_result" where
  "ipWhitelist lib req s =
     (if \<not> truthy (rq_merchantId req) then Next
      else if \<not> isIpWhitelistEnabled (or_empty (rq_merchantId req)) s then Next
      else
       (let cidrs = listIpWhitelist (or_empty (rq_merchantId req)) s
        in if cidrs = [] then Reject 403 ''IP_NOT_ALLOWED''
           else (case ip_parse lib (client_ip req) of
                   None \<Rightarrow> Reject 403 ''IP_NOT_ALLOWED''
                 | Some parsed \<Rightarrow>
                     if list_ex (entry_matches lib parsed) cidrs then Next
                     else Reject 403 ''IP_NOT_ALLOWED'')))"

text \<open>
  A small stand-in for the library, for dotted-quad IPv4 addresses and prefixes only, used
  to run the middleware on concrete requests.
\<close>

fun split_on :: "char \<Rightarrow> string \<Rightarrow> string list" where
  "split_on d [] = [[]]"
| "split_on d (c # cs) =
     (if c = d then [] # split_on d cs
      else (case split_on d cs of w # ws \<Rightarrow> (c # w) # ws | [] \<Rightarrow> [[c]]))"

definition bounded_number :: "nat \<Rightarrow> string \<Rightarrow> nat option" where
  "bounded_number bound p =
     (if p \<noteq> [] \<and> list_all is_digit p \<and> nat_of_digits p \<le> bound
      then Some (nat_of_digits p) else None)"

definition ipv4_parse :: "string \<Rightarrow> int option" where
  "ipv4_parse a =
     (case map (bounded_number 255) (split_on CHR ''.'' a) of
        [Some a, Some b, Some c, Some d] \<Rightarrow>
          Some (((int a * 256 + int b) * 256 + int c) * 256 + int d)
      | _ \<Rightarrow> None)"

definition ipv4_parseCIDR :: "string \<Rightarrow> (int \<times> nat) option" where
  "ipv4_parseCIDR e =
     (case split_on CHR ''/'' e of
        [a, b] \<Rightarrow>
          (case (ipv4_parse a, bounded_number 32 b) of
             (Some x, Some n) \<Rightarrow> Some (x, n)
           | _ \<Rightarrow> None)
      | _ \<Rightarrow> None)"

definition ipv4_lib :: "int ipaddr_lib" where
  "ipv4_lib =
     \<lparr> ip_parse = ipv4_parse, ip_parseCIDR = ipv4_parseCIDR,
       ip_match = (\<lambda>a rng bits. Some (a div 2 ^ (32 - bits) = rng div 2 ^ (32 - bits))),
       ip_toNormalizedString = (\<lambda>a. js_string_of_int a) \<rparr>"

text \<open>
  A store in which merchant \<open>m1\<close> has the allow-list enabled with the given entries, next
  to an entry of another merchant.
\<close>

definition allowlist_db :: "string list \<Rightarrow> db" where
  "allowlist_db entries = empty_db
     \<lparr> merchants := [''m1'' \<mapsto> (sample_merchant 0)\<lparr> ip_whitelist_enabled := 1 \<rparr>],
       merchant_ip_whitelist :=
         \<lparr> iw_merchant_id = ''m2'', iw_cidr = ''11.0.0.0/8'' \<rparr>
         # map (\<lambda>c. \<lparr> iw_merchant_id = ''m1'', iw_cidr = c \<rparr>) entries \<rparr>"

definition request_from :: "string option \<Rightarrow> string \<Rightarrow> request" where
  "request_from xff peer =
     unsigned_request\<lparr> rq_header := (\<lambda>h. if h = ''x-forwarded-for'' then xff else None),
                        rq_ip := Some peer \<rparr>"

section \<open>QRIS codec (lib/qris)\<close>

text \<open>
  Modelled from the spec: lib/qris, which exports \<^verbatim>\<open>validateQris\<close> and
  \<^verbatim>\<open>generateDynamicQris\<close>, is imported by the handlers but is not among the sources at
  hand. The definitions of this section follow section 4.1 of the specification: a payload
  is a sequence of records of a two-digit tag, a two-digit decimal length and a value of
  that length.
\<close>

type_synonym tlv = "string \<times> string"

text \<open>
  Modelled from the spec: parsing into ordered records, \<open>None\<close> for a malformed payload
  (a tag or length that is not two digits, or a value shorter than its length).
\<close>

function parse_tlv :: "string \<Rightarrow> tlv list option" where
  "parse_tlv s =
     (if s = [] then Some []
      else if length s < 4 then None
      else
       (let tag = take 2 s; len = take 2 (drop 2 s); rest = drop 4 s
        in if \<not> list_all is_digit tag \<or> \<not> list_all is_digit len then None
           else if length rest < nat_of_digits len then None
           else map_option (Cons (tag, take (nat_of_digits len) rest))
                  (parse_tlv (drop (nat_of_digits len) rest))))"
  by pat_completeness auto
termination
  by (relation "measure length") auto

declare parse_tlv.simps [simp del]

text \<open>Modelled from the spec: the two-digit decimal length of a record.\<close>

definition two_digits :: "nat \<Rightarrow> string" where
  "two_digits n = [digit_char (n div 10 mod 10), digit_char (n mod 10)]"

text \<open>Modelled from the spec: rendering records back to the payload text.\<close>

definition render_tlv :: "tlv list \<Rightarrow> string" where
  "render_tlv recs = concat (map (\<lambda>(t, v). t @ two_digits (length v) @ v) recs)"

text \<open>
  Modelled from the spec: CRC-16/X.25, polynomial \<open>0x1021\<close> with input and output
  reflected (so the register shifts right and the polynomial appears as \<open>0x8408\<close>),
  initial value \<open>0xFFFF\<close>, XOR-out \<open>0xFFFF\<close>.
\<close>

definition crc_shift :: "16 word \<Rightarrow> 16 word" where
  "crc_shift c = (if c AND 1 = 1 then drop_bit 1 c XOR 0x8408 else drop_bit 1 c)"

definition crc_byte :: "16 word \<Rightarrow> char \<Rightarrow> 16 word" where
  "crc_byte c b = (crc_shift ^^ 8) (c XOR of_nat (of_char b))"

definition crc16_x25 :: "string \<Rightarrow> 16 word" where
  "crc16_x25 s = foldl crc_byte 0xFFFF s XOR 0xFFFF"

text \<open>Modelled from the spec: the checksum as four uppercase hexadecimal digits.\<close>

definition upper_hex_digit :: "nat \<Rightarrow> char" where
  "upper_hex_digit k = (if k < 10 then char_of (48 + k) else char_of (55 + k))"

definition hex4_upper :: "16 word \<Rightarrow> string" where
  "hex4_upper w = map (\<lambda>k. upper_hex_digit (unat (drop_bit (4 * k) w AND 0xF))) [3, 2, 1, 0]"

text \<open>
  Modelled from the spec: the three edits of amount injection. The amount goes to tag 54,
  replacing its value or, when the tag is absent, as a new record immediately before
  tag 58 (at the end when there is no tag 58, a case the specification leaves open); tag 01
  changes from \<open>11\<close> to \<open>12\<close>; the records of tag 63 are dropped.
\<close>

fun insert_before_58 :: "tlv \<Rightarrow> tlv list \<Rightarrow> tlv list" where
  "insert_before_58 r [] = [r]"
| "insert_before_58 r ((t, v) # recs) =
     (if t = ''58'' then r # (t, v) # recs else (t, v) # insert_before_58 r recs)"

definition set_amount :: "string \<Rightarrow> tlv list \<Rightarrow> tlv list" where
  "set_amount amount recs =
     (if ''54'' \<in> set (map fst recs)
      then map (\<lambda>(t, v). if t = ''54'' then (t, amount) else (t, v)) recs
      else insert_before_58 (''54'', amount) recs)"

definition set_dynamic :: "tlv list \<Rightarrow> tlv list" where
  "set_dynamic recs = map (\<lambda>(t, v). if t = ''01'' \<and> v = ''11'' then (t, ''12'') else (t, v)) recs"

definition strip_crc :: "tlv list \<Rightarrow> tlv list" where
  "strip_crc recs = filter (\<lambda>(t, v). t \<noteq> ''63'') recs"

text \<open>
  Modelled from the spec: \<^verbatim>\<open>generateDynamicQris(static, amount)\<close>; a static payload that
  does not parse is \<^verbatim>\<open>InvalidQris\<close>.
\<close>

definition generateDynamicQris :: "string \<Rightarrow> int \<Rightarrow> error + string" where
  "generateDynamicQris static amount =
     (case parse_tlv static of
        None \<Rightarrow> Inl (Error ''InvalidQris'')
      | Some recs \<Rightarrow>
          (let body = render_tlv (strip_crc (set_amount (js_string_of_int amount) (set_dynamic recs)))
                        @ ''6304''
           in Inr (body @ hex4_upper (crc16_x25 body))))"

text \<open>
  Modelled from the spec: \<^verbatim>\<open>validateQris\<close> accepts a payload that parses, ends with a
  record of tag 63 and length 4, and whose last four characters equal, without regard to
  case, the checksum of everything before them (up to and including \<open>6304\<close>).
\<close>

definition validateQris :: "string \<Rightarrow> bool" where
  "validateQris s =
     (case parse_tlv s of
        None \<Rightarrow> False
      | Some recs \<Rightarrow>
          recs \<noteq> [] \<and> fst (last recs) = ''63'' \<and> length (snd (last recs)) = 4
          \<and> js_toUpperCase (snd (last recs)) = hex4_upper (crc16_x25 (take (length s - 4) s)))"

text \<open>A record that can be rendered: a two-digit tag and a value of at most 99 characters.\<close>

definition wf_tlv :: "tlv \<Rightarrow> bool" where
  "wf_tlv r \<longleftrightarrow> length (fst r) = 2 \<and> list_all is_digit (fst r) \<and> length (snd r) \<le> 99"

definition sample_static :: string where
  "sample_static = ''0002010102115802ID630462A4''"

section \<open>Properties: suffix allocation\<close>

lemma suffix_scan_Some:
  "suffix_scan i hi U = Some k \<longleftrightarrow> i \<le> k \<and> k \<le> hi \<and> k \<notin> U \<and> (\<forall>j. i \<le> j \<and> j < k \<longrightarrow> j \<in> U)"
proof (induction i hi U rule: suffix_scan.induct)
  case (1 i hi U)
  show ?case
  proof (cases "i \<le> hi")
    case False
    then show ?thesis by (subst suffix_scan.simps) auto
  next
    case le: True
    show ?thesis
    proof (cases "i \<in> U")
      case False
      with le show ?thesis
        by (subst suffix_scan.simps) (auto simp: not_less)
    next
      case True
      have step: "suffix_scan i hi U = suffix_scan (i + 1) hi U"
        using le True by (subst suffix_scan.simps) simp
      have "(\<forall>j. i \<le> j \<and> j < k \<longrightarrow> j \<in> U) \<longleftrightarrow> (\<forall>j. i + 1 \<le> j \<and> j < k \<longrightarrow> j \<in> U)"
        using True by (metis add1_zle_eq order_le_less)
      moreover have "k \<notin> U \<Longrightarrow> i \<le> k \<longleftrightarrow> i + 1 \<le> k"
        using True by (cases "i = k") auto
      ultimately show ?thesis
        unfolding step using "1.IH" [OF le] True by auto
    qed
  qed
qed

lemma suffix_scan_None:
  "suffix_scan i hi U = None \<longleftrightarrow> (\<forall>j. i \<le> j \<and> j \<le> hi \<longrightarrow> j \<in> U)"
proof (induction i hi U rule: suffix_scan.induct)
  case (1 i hi U)
  show ?case
  proof (cases "i \<le> hi \<and> i \<in> U")
    case False
    then show ?thesis by (subst suffix_scan.simps) auto
  next
    case True
    then have step: "suffix_scan i hi U = suffix_scan (i + 1) hi U"
      by (subst suffix_scan.simps) simp
    have "(\<forall>j. i \<le> j \<and> j \<le> hi \<longrightarrow> j \<in> U) \<longleftrightarrow> (\<forall>j. i + 1 \<le> j \<and> j \<le> hi \<longrightarrow> j \<in> U)"
      using True by (metis add1_zle_eq order_le_less)
    then show ?thesis
      unfolding step using "1.IH" True by auto
  qed
qed

lemma used_set_claimed:
  "set (map pt_unique_suffix (filter (\<lambda>r. pt_username r = u)
      (pending_transactions (cleanupExpired now s)))) = claimed_suffixes now u s"
  by (auto simp: cleanupExpired_def claimed_suffixes_def)

lemma gas_fst:
  "fst (getAvailableSuffix now u s) =
     (case suffix_scan 1 500 (claimed_suffixes now u s) of
        Some i \<Rightarrow> Inr i
      | None \<Rightarrow> (case suffix_scan 501 999 (claimed_suffixes now u s) of
                  Some i \<Rightarrow> Inr i
                | None \<Rightarrow> Inl (Error ''No suffix available'')))"
  unfolding getAvailableSuffix_def Let_def used_set_claimed
  by (simp split: option.splits)

lemma least_unclaimed_unique:
  fixes k m :: int
  assumes "k \<notin> C" "\<forall>j. 1 \<le> j \<and> j < k \<longrightarrow> j \<in> C" "1 \<le> k"
    and "m \<notin> C" "\<forall>j. 1 \<le> j \<and> j < m \<longrightarrow> j \<in> C" "1 \<le> m"
  shows "k = m"
proof (rule ccontr)
  assume "k \<noteq> m"
  then consider "k < m" | "m < k" by linarith
  then show False
  proof cases
    case 1 with assms(1,3,5) show False by blast
  next
    case 2 with assms(2,4,6) show False by blast
  qed
qed

lemma two_ranges:
  fixes C :: "int set"
  assumes "\<forall>j. 1 \<le> j \<and> j \<le> 500 \<longrightarrow> j \<in> C" "\<forall>j. 501 \<le> j \<and> j < m \<longrightarrow> j \<in> C"
  shows "\<forall>j. 1 \<le> j \<and> j < m \<longrightarrow> j \<in> C"
proof (intro allI impI)
  fix j :: int assume j: "1 \<le> j \<and> j < m"
  show "j \<in> C"
  proof (cases "j \<le> 500")
    case True with j assms(1) show ?thesis by blast
  next
    case False
    then have "501 \<le> j" by linarith
    with j assms(2) show ?thesis by blast
  qed
qed

lemma gas_cases:
  obtains (found) m where "fst (getAvailableSuffix now u s) = Inr m" "1 \<le> m" "m \<le> 999"
      "m \<notin> claimed_suffixes now u s" "\<forall>j. 1 \<le> j \<and> j < m \<longrightarrow> j \<in> claimed_suffixes now u s"
      "m \<le> 500 \<or> (\<forall>j. 1 \<le> j \<and> j \<le> 500 \<longrightarrow> j \<in> claimed_suffixes now u s)"
    | (full) "fst (getAvailableSuffix now u s) = Inl (Error ''No suffix available'')"
      "\<forall>j. 1 \<le> j \<and> j \<le> 999 \<longrightarrow> j \<in> claimed_suffixes now u s"
proof (cases "suffix_scan 1 500 (claimed_suffixes now u s)")
  case (Some m)
  then have m: "1 \<le> m" "m \<le> 500" "m \<notin> claimed_suffixes now u s"
      "\<forall>j. 1 \<le> j \<and> j < m \<longrightarrow> j \<in> claimed_suffixes now u s"
    by (simp_all add: suffix_scan_Some)
  have "fst (getAvailableSuffix now u s) = Inr m"
    unfolding gas_fst using Some by simp
  with m show ?thesis by (intro found [of m]) auto
next
  case None
  then have all: "\<forall>j. 1 \<le> j \<and> j \<le> 500 \<longrightarrow> j \<in> claimed_suffixes now u s"
    by (simp add: suffix_scan_None)
  show ?thesis
  proof (cases "suffix_scan 501 999 (claimed_suffixes now u s)")
    case (Some m)
    then have m: "501 \<le> m" "m \<le> 999" "m \<notin> claimed_suffixes now u s"
      "\<forall>j. 501 \<le> j \<and> j < m \<longrightarrow> j \<in> claimed_suffixes now u s"
      by (simp_all add: suffix_scan_Some)
    have r: "fst (getAvailableSuffix now u s) = Inr m"
      unfolding gas_fst using None Some by simp
    have "1 \<le> m" using m(1) by linarith
    with r m all two_ranges [OF all m(4)] show ?thesis by (intro found [of m]) auto
  next
    case None2: None
    then have hi: "\<forall>j. 501 \<le> j \<and> j < 1000 \<longrightarrow> j \<in> claimed_suffixes now u s"
      by (simp add: suffix_scan_None)
    have "\<forall>j. 1 \<le> j \<and> j < 1000 \<longrightarrow> j \<in> claimed_suffixes now u s"
      by (rule two_ranges [OF all hi])
    then have "\<forall>j. 1 \<le> j \<and> j \<le> 999 \<longrightarrow> j \<in> claimed_suffixes now u s" by auto
    moreover have "fst (getAvailableSuffix now u s) = Inl (Error ''No suffix available'')"
      unfolding gas_fst using None None2 by simp
    ultimately show ?thesis by (intro full)
  qed
qed

lemma claimed_suffixes_list:
  "claimed_suffixes now u s = set (map pt_unique_suffix
     (filter (\<lambda>r. pt_username r = u \<and> \<not> pt_expires_at r < now) (pending_transactions s)))"
  by (auto simp: claimed_suffixes_def)

text \<open>
  Claim C1. \<^verbatim>\<open>getAvailableSuffix\<close> returns \<open>k\<close> exactly when \<open>k\<close> is the smallest integer
  of \<open>[1, 999]\<close> that no unexpired pending transaction of the principal claims; hence the
  result lies in \<open>[1, 500]\<close> whenever that range has a free suffix and in \<open>[501, 999]\<close>
  only when the first range is full, it is 1 for a principal without pending claims, and the
  call fails exactly when all 999 suffixes are claimed.
\<close>

theorem getAvailableSuffix_smallest_unclaimed:
  "(fst (getAvailableSuffix now u s) = Inr k \<longleftrightarrow>
      k \<in> {1..999} \<and> k \<notin> claimed_suffixes now u s \<and>
      (\<forall>j\<in>{1..<k}. j \<in> claimed_suffixes now u s))
   \<and> ((\<exists>i\<in>{1..500}. i \<notin> claimed_suffixes now u s) \<longrightarrow>
        (\<exists>m\<in>{1..500}. fst (getAvailableSuffix now u s) = Inr m))
   \<and> (claimed_suffixes now u s = {} \<longrightarrow> fst (getAvailableSuffix now u s) = Inr 1)
   \<and> ((\<exists>e. fst (getAvailableSuffix now u s) = Inl e) \<longleftrightarrow>
        {1..999} \<subseteq> claimed_suffixes now u s)"
proof (cases rule: gas_cases [of now u s])
  case (found m)
  have uniq: "k \<in> {1..999} \<and> k \<notin> claimed_suffixes now u s \<and>
      (\<forall>j\<in>{1..<k}. j \<in> claimed_suffixes now u s) \<longleftrightarrow> k = m"
  proof
    assume k: "k \<in> {1..999} \<and> k \<notin> claimed_suffixes now u s \<and>
      (\<forall>j\<in>{1..<k}. j \<in> claimed_suffixes now u s)"
    then have "\<forall>j. 1 \<le> j \<and> j < k \<longrightarrow> j \<in> claimed_suffixes now u s" by auto
    with k found show "k = m"
      by (intro least_unclaimed_unique [of k "claimed_suffixes now u s" m]) auto
  next
    assume "k = m"
    with found show "k \<in> {1..999} \<and> k \<notin> claimed_suffixes now u s \<and>
      (\<forall>j\<in>{1..<k}. j \<in> claimed_suffixes now u s)" by auto
  qed
  have c1: "fst (getAvailableSuffix now u s) = Inr k \<longleftrightarrow>
      k \<in> {1..999} \<and> k \<notin> claimed_suffixes now u s \<and>
      (\<forall>j\<in>{1..<k}. j \<in> claimed_suffixes now u s)"
    unfolding uniq using found(1) by auto
  have c2: "(\<exists>i\<in>{1..500}. i \<notin> claimed_suffixes now u s) \<longrightarrow>
        (\<exists>m\<in>{1..500}. fst (getAvailableSuffix now u s) = Inr m)"
    using found by auto
  have c3: "claimed_suffixes now u s = {} \<longrightarrow> fst (getAvailableSuffix now u s) = Inr 1"
  proof
    assume e: "claimed_suffixes now u s = {}"
    have "m = 1"
    proof (rule ccontr)
      assume "m \<noteq> 1"
      with found(2) have "1 \<le> (1::int) \<and> 1 < m" by linarith
      with found(5) have "1 \<in> claimed_suffixes now u s" by blast
      with e show False by simp
    qed
    with found(1) show "fst (getAvailableSuffix now u s) = Inr 1" by simp
  qed
  have "m \<in> {1..999}" using found by simp
  with found(4) have "\<not> {1..999} \<subseteq> claimed_suffixes now u s" by blast
  with found(1) have c4: "(\<exists>e. fst (getAvailableSuffix now u s) = Inl e) \<longleftrightarrow>
        {1..999} \<subseteq> claimed_suffixes now u s"
    by simp
  from c1 c2 c3 c4 show ?thesis by blast
next
  case full
  have c1: "fst (getAvailableSuffix now u s) = Inr k \<longleftrightarrow>
      k \<in> {1..999} \<and> k \<notin> claimed_suffixes now u s \<and>
      (\<forall>j\<in>{1..<k}. j \<in> claimed_suffixes now u s)"
    using full by auto
  have c2: "(\<exists>i\<in>{1..500}. i \<notin> claimed_suffixes now u s) \<longrightarrow>
        (\<exists>m\<in>{1..500}. fst (getAvailableSuffix now u s) = Inr m)"
    using full(2) by auto
  have c3: "claimed_suffixes now u s = {} \<longrightarrow> fst (getAvailableSuffix now u s) = Inr 1"
    using full(2) by auto
  have c4: "(\<exists>e. fst (getAvailableSuffix now u s) = Inl e) \<longleftrightarrow>
        {1..999} \<subseteq> claimed_suffixes now u s"
    using full by auto
  from c1 c2 c3 c4 show ?thesis by blast
qed

theorem getAvailableSuffix_smallest_unclaimed_witness:
  "claimed_suffixes 100 ''merchantA'' suffix_db = {1, 2}
   \<and> fst (getAvailableSuffix 100 ''merchantA'' suffix_db) = Inr 3
   \<and> fst (getAvailableSuffix 100 ''merchantC'' suffix_db) = Inr 1"
proof -
  have C: "claimed_suffixes 100 ''merchantA'' suffix_db = {1, 2}"
    by (simp add: claimed_suffixes_list suffix_db_def sample_pending_def empty_db_def)
  have E: "claimed_suffixes 100 ''merchantC'' suffix_db = {}"
    by (simp add: claimed_suffixes_list suffix_db_def sample_pending_def empty_db_def)
  have below: "\<forall>j\<in>{1..<3::int}. j \<in> {1, 2}" by auto
  have "fst (getAvailableSuffix 100 ''merchantA'' suffix_db) = Inr 3"
    using getAvailableSuffix_smallest_unclaimed [of 100 "''merchantA''" suffix_db 3] below
    unfolding C by simp
  moreover have "fst (getAvailableSuffix 100 ''merchantC'' suffix_db) = Inr 1"
    using getAvailableSuffix_smallest_unclaimed [of 100 "''merchantC''" suffix_db 1] E
    by blast
  ultimately show ?thesis using C by simp
qed

section \<open>Properties: webhook worker\<close>

lemmas sample_defs = sample_merchant_def sample_credentials_def stub_externals_def empty_db_def

lemmas worker_defs = webhook_db_def sample_delivery_def default_worker_config_def



lemma find_map_upd_same:
  "find (\<lambda>r. wd_id r = i) rows = Some d \<Longrightarrow> (\<And>r. wd_id (f r) = wd_id r) \<Longrightarrow>
   find (\<lambda>r. wd_id r = i) (map (\<lambda>r. if wd_id r = i then f r else r) rows) = Some (f d)"
  by (induction rows) (auto split: if_splits)





lemma mark_table:
  "webhook_deliveries (markWebhookDeliveryResult now inp s) =
     map (\<lambda>r. if wd_id r = mi_id inp
       then r\<lparr> wd_status := (if mi_delivered inp then Delivered
                               else if mi_next_retry_at inp = Null then Failed else Queued),
              wd_attempt_count :=
                (case find (\<lambda>r. wd_id r = mi_id inp) (webhook_deliveries s) of
                   None \<Rightarrow> 0 | Some r \<Rightarrow> wd_attempt_count r) + 1,
              wd_next_retry_at := (if mi_delivered inp then now
                 else (case mi_next_retry_at inp of Val v \<Rightarrow> v | _ \<Rightarrow> now + 60)),
              wd_last_status_code := mi_status_code inp,
              wd_last_error := mi_error inp,
              wd_response_snippet := mi_response_snippet inp,
              wd_updated_at := now \<rparr>
       else r) (webhook_deliveries s)"
  by (cases "mi_next_retry_at inp")
     (auto simp: markWebhookDeliveryResult_def Let_def)

lemma createAlert_table:
  "webhook_deliveries (createAlert now m t msg s) = webhook_deliveries s"
  by (simp add: createAlert_def)

text \<open>What a call of \<open>deliverOne\<close> passes to \<open>markWebhookDeliveryResult\<close>.\<close>

lemma deliverOne_marks:
  obtains inp where "mi_id inp = wd_id d"
    and "webhook_deliveries (deliverOne cfg ext now d s) =
         webhook_deliveries (markWebhookDeliveryResult now inp s)"
    and "mi_delivered inp \<Longrightarrow>
          (case mi_status_code inp of None \<Rightarrow> False | Some k \<Rightarrow> 200 \<le> k \<and> k \<le> 299)"
    and "\<not> mi_delivered inp \<Longrightarrow> mi_next_retry_at inp = Null \<Longrightarrow>
          wd_attempt_count d + 1 \<ge> MAX_ATTEMPTS cfg
          \<or> mi_error inp = Some ''WEBHOOK_DISABLED''
          \<or> mi_error inp = Some ''MISSING_CREDENTIALS''"
    and "\<not> mi_delivered inp \<Longrightarrow> mi_next_retry_at inp \<noteq> Null \<Longrightarrow>
          wd_attempt_count d + 1 < MAX_ATTEMPTS cfg"
proof (cases "delivery_attempt ext now d s")
  case None
  let ?wcfg = "getMerchantWebhookConfigEnv (wd_merchant_id d) (wd_env d) s"
  show ?thesis
  proof (cases "\<not> wc_webhook_enabled ?wcfg \<or> \<not> truthy (wc_webhook_url ?wcfg)")
    case True
    let ?inp = "\<lparr> mi_id = wd_id d, mi_delivered = False, mi_status_code = None,
                  mi_error = Some ''WEBHOOK_DISABLED'', mi_response_snippet = None,
                  mi_next_retry_at = Null \<rparr>"
    from True show ?thesis
      by (intro that [of ?inp]) (simp_all add: deliverOne_def Let_def)
  next
    case False
    with None have nosec: "getMerchantWebhookSecret (wd_merchant_id d) (wd_env d) s = None"
      by (simp add: delivery_attempt_def Let_def split: option.splits)
    let ?inp = "\<lparr> mi_id = wd_id d, mi_delivered = False, mi_status_code = None,
                  mi_error = Some ''MISSING_CREDENTIALS'', mi_response_snippet = None,
                  mi_next_retry_at = Null \<rparr>"
    from False nosec show ?thesis
      by (intro that [of ?inp]) (simp_all add: deliverOne_def Let_def)
  qed
next
  case (Some r)
  let ?wcfg = "getMerchantWebhookConfigEnv (wd_merchant_id d) (wd_env d) s"
  from Some have en: "\<not> (\<not> wc_webhook_enabled ?wcfg \<or> \<not> truthy (wc_webhook_url ?wcfg))"
    by (simp add: delivery_attempt_def Let_def split: if_splits)
  from Some en obtain whsec where
    sec: "getMerchantWebhookSecret (wd_merchant_id d) (wd_env d) s = Some whsec"
    and r: "fetch ext (webhook_post ?wcfg d now
             (signWebhook ext whsec now (wd_payload_json d)) (wd_payload_json d)) = r"
    by (auto simp: delivery_attempt_def Let_def split: option.splits if_splits)
  show ?thesis
  proof (cases r)
    case (Response status body)
    let ?sn = "if body \<noteq> [] then Some (js_slice0 500 body) else None"
    consider (ok) "status \<ge> 200 \<and> status < 300"
      | (dead) "\<not> (status \<ge> 200 \<and> status < 300)" "wd_attempt_count d + 1 \<ge> MAX_ATTEMPTS cfg"
      | (retry) "\<not> (status \<ge> 200 \<and> status < 300)" "\<not> wd_attempt_count d + 1 \<ge> MAX_ATTEMPTS cfg"
      by blast
    then show ?thesis
    proof cases
      case ok
      let ?inp = "\<lparr> mi_id = wd_id d, mi_delivered = True,
           mi_status_code = Some status, mi_error = None, mi_response_snippet = ?sn,
           mi_next_retry_at = Undefined \<rparr>"
      from ok en sec r Response show ?thesis
        by (intro that [of ?inp]) (simp_all add: deliverOne_def Let_def)
    next
      case dead
      then have ns: "(200 \<le> status \<and> status < 300) = False" by simp
      let ?inp = "\<lparr> mi_id = wd_id d, mi_delivered = False,
           mi_status_code = Some status,
           mi_error = Some (''HTTP_'' @ js_string_of_int status),
           mi_response_snippet = ?sn, mi_next_retry_at = Null \<rparr>"
      from dead(2) en sec r Response show ?thesis
        by (intro that [of ?inp]) (simp_all add: deliverOne_def Let_def createAlert_table ns)
    next
      case retry
      then have ns: "(200 \<le> status \<and> status < 300) = False" by simp
      let ?inp = "\<lparr> mi_id = wd_id d, mi_delivered = False,
           mi_status_code = Some status,
           mi_error = Some (''HTTP_'' @ js_string_of_int status),
           mi_response_snippet = ?sn,
           mi_next_retry_at = Val (now + backoffSeconds cfg (wd_attempt_count d + 1)) \<rparr>"
      from retry(2) en sec r Response show ?thesis
        by (intro that [of ?inp]) (simp_all add: deliverOne_def Let_def ns)
    qed
  next
    case (Thrown name message)
    show ?thesis
    proof (cases "wd_attempt_count d + 1 \<ge> MAX_ATTEMPTS cfg")
      case True
      let ?inp = "\<lparr> mi_id = wd_id d, mi_delivered = False,
           mi_status_code = None, mi_error = Some (thrown_reason name message),
           mi_response_snippet = None, mi_next_retry_at = Null \<rparr>"
      from True en sec r Thrown show ?thesis
        by (intro that [of ?inp]) (simp_all add: deliverOne_def Let_def createAlert_table)
    next
      case False
      let ?inp = "\<lparr> mi_id = wd_id d, mi_delivered = False,
           mi_status_code = None, mi_error = Some (thrown_reason name message),
           mi_response_snippet = None,
           mi_next_retry_at = Val (now + backoffSeconds cfg (wd_attempt_count d + 1)) \<rparr>"
      from False en sec r Thrown show ?thesis
        by (intro that [of ?inp]) (simp_all add: deliverOne_def Let_def)
    qed
  qed
qed


lemma find_by_id:
  "distinct (map wd_id rows) \<Longrightarrow> d \<in> set rows \<Longrightarrow> find (\<lambda>r. wd_id r = wd_id d) rows = Some d"
  by (induction rows) (auto simp: image_iff)

lemma same_id_same_row:
  "distinct (map wd_id rows) \<Longrightarrow> d \<in> set rows \<Longrightarrow> r \<in> set rows \<Longrightarrow> wd_id r = wd_id d \<Longrightarrow> r = d"
  by (induction rows) (auto simp: image_iff)

lemma deliverOne_ids:
  "map wd_id (webhook_deliveries (deliverOne cfg ext now d s)) = map wd_id (webhook_deliveries s)"
proof -
  obtain inp where "webhook_deliveries (deliverOne cfg ext now d s) =
         webhook_deliveries (markWebhookDeliveryResult now inp s)"
    by (rule deliverOne_marks)
  then show ?thesis by (simp add: mark_table o_def)
qed

lemma deliverOne_other_rows:
  assumes "wd_id r \<noteq> wd_id d"
  shows "r \<in> set (webhook_deliveries (deliverOne cfg ext now d s)) \<longleftrightarrow> r \<in> set (webhook_deliveries s)"
proof -
  obtain inp where "mi_id inp = wd_id d" "webhook_deliveries (deliverOne cfg ext now d s) =
         webhook_deliveries (markWebhookDeliveryResult now inp s)"
    by (rule deliverOne_marks)
  with assms show ?thesis by (auto simp: mark_table)
qed

lemma deliverOne_same_row:
  assumes row: "find (\<lambda>r. wd_id r = wd_id d) (webhook_deliveries s) = Some d"
    and ok: "delivery_ok cfg d" "wd_status d = Queued"
    and r': "r' \<in> set (webhook_deliveries (deliverOne cfg ext now d s))" "wd_id r' = wd_id d"
  shows "delivery_ok cfg r'"
proof -
  obtain inp where inp: "mi_id inp = wd_id d"
    "webhook_deliveries (deliverOne cfg ext now d s) =
         webhook_deliveries (markWebhookDeliveryResult now inp s)"
    "mi_delivered inp \<Longrightarrow>
          (case mi_status_code inp of None \<Rightarrow> False | Some k \<Rightarrow> 200 \<le> k \<and> k \<le> 299)"
    "\<not> mi_delivered inp \<Longrightarrow> mi_next_retry_at inp = Null \<Longrightarrow>
          wd_attempt_count d + 1 \<ge> MAX_ATTEMPTS cfg
          \<or> mi_error inp = Some ''WEBHOOK_DISABLED''
          \<or> mi_error inp = Some ''MISSING_CREDENTIALS''"
    "\<not> mi_delivered inp \<Longrightarrow> mi_next_retry_at inp \<noteq> Null \<Longrightarrow>
          wd_attempt_count d + 1 < MAX_ATTEMPTS cfg"
    by (rule deliverOne_marks [of d cfg ext now s]) blast
  from ok have cnt: "0 \<le> wd_attempt_count d" "wd_attempt_count d < MAX_ATTEMPTS cfg"
    by (simp_all add: delivery_ok_def)
  from r' inp(1,2) row obtain r where r: "r \<in> set (webhook_deliveries s)" "wd_id r = wd_id d"
    and r'_eq: "r' = r\<lparr> wd_status := (if mi_delivered inp then Delivered
                               else if mi_next_retry_at inp = Null then Failed else Queued),
              wd_attempt_count := wd_attempt_count d + 1,
              wd_next_retry_at := (if mi_delivered inp then now
                 else (case mi_next_retry_at inp of Val v \<Rightarrow> v | _ \<Rightarrow> now + 60)),
              wd_last_status_code := mi_status_code inp,
              wd_last_error := mi_error inp,
              wd_response_snippet := mi_response_snippet inp,
              wd_updated_at := now \<rparr>"
    by (auto simp: mark_table split: if_splits)
  show ?thesis
  proof (cases "mi_delivered inp")
    case True
    with inp(3) cnt show ?thesis by (simp add: r'_eq delivery_ok_def)
  next
    case nd: False
    show ?thesis
    proof (cases "mi_next_retry_at inp = Null")
      case True
      with nd inp(4) cnt show ?thesis by (auto simp: r'_eq delivery_ok_def)
    next
      case False
      with nd inp(5) cnt show ?thesis by (auto simp: r'_eq delivery_ok_def)
    qed
  qed
qed

lemma deliverOne_preserves:
  assumes inv: "deliveries_ok cfg s"
    and d: "d \<in> set (webhook_deliveries s)" "wd_status d = Queued"
  shows "deliveries_ok cfg (deliverOne cfg ext now d s)"
proof -
  from inv have dist: "distinct (map wd_id (webhook_deliveries s))"
    and all: "\<forall>r \<in> set (webhook_deliveries s). delivery_ok cfg r"
    by (simp_all add: deliveries_ok_def)
  have row: "find (\<lambda>r. wd_id r = wd_id d) (webhook_deliveries s) = Some d"
    using dist d(1) by (rule find_by_id)
  have "delivery_ok cfg r'" if "r' \<in> set (webhook_deliveries (deliverOne cfg ext now d s))" for r'
  proof (cases "wd_id r' = wd_id d")
    case True
    with row all d that show ?thesis by (intro deliverOne_same_row [of d s cfg r' ext now]) auto
  next
    case False
    with that have "r' \<in> set (webhook_deliveries s)" by (simp add: deliverOne_other_rows)
    with all show ?thesis by blast
  qed
  with dist show ?thesis by (simp add: deliveries_ok_def deliverOne_ids)
qed

lemma deliver_batch:
  assumes "deliveries_ok cfg s"
    and "\<forall>d \<in> set batch. d \<in> set (webhook_deliveries s) \<and> wd_status d = Queued"
    and "distinct (map wd_id batch)"
    and "t \<in> set (webhook_deliveries s)" "wd_status t \<noteq> Queued"
  shows "deliveries_ok cfg (foldl (\<lambda>st d. deliverOne cfg ext now d st) s batch)
     \<and> t \<in> set (webhook_deliveries (foldl (\<lambda>st d. deliverOne cfg ext now d st) s batch))"
  using assms
proof (induction batch arbitrary: s)
  case Nil
  then show ?case by simp
next
  case (Cons d batch)
  let ?s' = "deliverOne cfg ext now d s"
  from Cons.prems have d: "d \<in> set (webhook_deliveries s)" "wd_status d = Queued" by simp_all
  from Cons.prems(1) have dist: "distinct (map wd_id (webhook_deliveries s))"
    by (simp add: deliveries_ok_def)
  have inv': "deliveries_ok cfg ?s'"
    using Cons.prems(1) d by (rule deliverOne_preserves)
  have rest: "\<forall>e \<in> set batch. e \<in> set (webhook_deliveries ?s') \<and> wd_status e = Queued"
  proof
    fix e assume e: "e \<in> set batch"
    with Cons.prems(3) have "wd_id e \<noteq> wd_id d" by (auto simp: image_iff)
    with e Cons.prems(2) show "e \<in> set (webhook_deliveries ?s') \<and> wd_status e = Queued"
      by (simp add: deliverOne_other_rows)
  qed
  have "wd_id t \<noteq> wd_id d"
  proof
    assume "wd_id t = wd_id d"
    with dist d(1) Cons.prems(4) have "t = d" by (intro same_id_same_row)
    with d(2) Cons.prems(5) show False by simp
  qed
  with Cons.prems(4) have t': "t \<in> set (webhook_deliveries ?s')"
    by (simp add: deliverOne_other_rows)
  from Cons.prems(3) have "distinct (map wd_id batch)" by simp
  from Cons.IH [OF inv' rest this t' Cons.prems(5)] show ?case by simp
qed


lemma due_batch_props:
  assumes "distinct (map wd_id (webhook_deliveries s))"
  shows "distinct (map wd_id (getDueWebhookDeliveries now limit s))"
    and "\<forall>d \<in> set (getDueWebhookDeliveries now limit s).
           d \<in> set (webhook_deliveries s) \<and> wd_status d = Queued"
proof -
  let ?f = "filter (\<lambda>r. wd_status r = Queued \<and> wd_next_retry_at r \<le> now) (webhook_deliveries s)"
  from assms have "distinct (map wd_id ?f)" by (rule distinct_map_filter)
  then have "distinct (map wd_id (sort_key wd_next_retry_at ?f))"
    by (simp add: distinct_map)
  then have "distinct (take limit (map wd_id (sort_key wd_next_retry_at ?f)))"
    by (rule distinct_take)
  then show "distinct (map wd_id (getDueWebhookDeliveries now limit s))"
    by (simp add: getDueWebhookDeliveries_def take_map)
  show "\<forall>d \<in> set (getDueWebhookDeliveries now limit s).
           d \<in> set (webhook_deliveries s) \<and> wd_status d = Queued"
    by (auto simp: getDueWebhookDeliveries_def dest!: in_set_takeD)
qed

lemma worker_once:
  assumes "deliveries_ok cfg s" "t \<in> set (webhook_deliveries s)" "wd_status t \<noteq> Queued"
  shows "deliveries_ok cfg (snd (runWebhookWorkerOnce cfg ext now s))
     \<and> t \<in> set (webhook_deliveries (snd (runWebhookWorkerOnce cfg ext now s)))"
proof -
  from assms(1) have dist: "distinct (map wd_id (webhook_deliveries s))"
    by (simp add: deliveries_ok_def)
  show ?thesis
    unfolding runWebhookWorkerOnce_def Let_def snd_conv
    using assms(1) due_batch_props(2) [OF dist] due_batch_props(1) [OF dist] assms(2,3)
    by (rule deliver_batch)
qed

lemma worker_once_inv:
  assumes "deliveries_ok cfg s"
  shows "deliveries_ok cfg (snd (runWebhookWorkerOnce cfg ext now s))"
proof -
  from assms have dist: "distinct (map wd_id (webhook_deliveries s))"
    by (simp add: deliveries_ok_def)
  have "deliveries_ok cfg (foldl (\<lambda>st d. deliverOne cfg ext now d st) s batch)"
    if "\<forall>d \<in> set batch. d \<in> set (webhook_deliveries s) \<and> wd_status d = Queued"
      "distinct (map wd_id batch)" for batch
    using assms that
  proof (induction batch arbitrary: s)
    case Nil
    then show ?case by simp
  next
    case (Cons d batch)
    let ?s' = "deliverOne cfg ext now d s"
    from Cons.prems have d: "d \<in> set (webhook_deliveries s)" "wd_status d = Queued" by simp_all
    have inv': "deliveries_ok cfg ?s'"
      using Cons.prems(1) d by (rule deliverOne_preserves)
    have rest: "\<forall>e \<in> set batch. e \<in> set (webhook_deliveries ?s') \<and> wd_status e = Queued"
    proof
      fix e assume e: "e \<in> set batch"
      with Cons.prems(3) have "wd_id e \<noteq> wd_id d" by (auto simp: image_iff)
      with e Cons.prems(2) show "e \<in> set (webhook_deliveries ?s') \<and> wd_status e = Queued"
        by (simp add: deliverOne_other_rows)
    qed
    from Cons.prems(3) have "distinct (map wd_id batch)" by simp
    from Cons.IH [OF inv' rest this] show ?case by simp
  qed
  from this [OF due_batch_props(2) [OF dist] due_batch_props(1) [OF dist]]
  show ?thesis by (simp add: runWebhookWorkerOnce_def Let_def)
qed

text \<open>
  Batches that run one after another keep the row invariant. Starting from a store whose
  delivery rows have distinct ids and satisfy the invariant (as a row inserted queued with
  zero attempts does), after any number of such batches every row has \<open>attempt_count \<le> MAX_ATTEMPTS\<close>, a delivered row records a status
  in \<open>[200, 299]\<close>, a failed row has \<open>attempt_count = MAX_ATTEMPTS\<close> or the reason
  \<^verbatim>\<open>WEBHOOK_DISABLED\<close> or \<^verbatim>\<open>MISSING_CREDENTIALS\<close>, and a delivered or failed row is terminal: the
  due-work scan never selects it and later batches leave it as it is. \<open>MAX_ATTEMPTS\<close>
  defaults to 8.
\<close>

lemma webhook_delivery_invariant:
  assumes "1 \<le> MAX_ATTEMPTS cfg" "deliveries_ok cfg s0" "worker_run cfg s0 s"
  shows "(\<forall>d \<in> set (webhook_deliveries s).
            wd_attempt_count d \<le> MAX_ATTEMPTS cfg
          \<and> (wd_status d = Delivered \<longrightarrow>
               (\<exists>c. wd_last_status_code d = Some c \<and> 200 \<le> c \<and> c \<le> 299))
          \<and> (wd_status d = Failed \<longrightarrow>
               wd_attempt_count d = MAX_ATTEMPTS cfg
               \<or> wd_last_error d = Some ''WEBHOOK_DISABLED''
               \<or> wd_last_error d = Some ''MISSING_CREDENTIALS'')
          \<and> (wd_status d \<in> {Delivered, Failed} \<longrightarrow>
               d \<notin> set (getDueWebhookDeliveries now limit s)))
       \<and> (\<forall>t \<in> set (webhook_deliveries s0).
            wd_status t \<in> {Delivered, Failed} \<longrightarrow> t \<in> set (webhook_deliveries s))
       \<and> deliveries_ok cfg s
       \<and> (\<forall>d. wd_status d = Queued \<and> wd_attempt_count d = 0 \<longrightarrow> delivery_ok cfg d)
       \<and> MAX_ATTEMPTS default_worker_config = 8"
proof -
  have fresh: "\<forall>d. wd_status d = Queued \<and> wd_attempt_count d = 0 \<longrightarrow> delivery_ok cfg d"
    using assms(1) by (simp add: delivery_ok_def)
  from assms(3) assms(2) have inv: "deliveries_ok cfg s"
    by (induction rule: worker_run.induct) (simp_all add: worker_once_inv)
  have keep: "t \<in> set (webhook_deliveries s)"
    if "t \<in> set (webhook_deliveries s0)" "wd_status t \<noteq> Queued" for t
    using assms(3) assms(2) that
  proof (induction rule: worker_run.induct)
    case start
    then show ?case by simp
  next
    case (batch s ext now)
    then have "t \<in> set (webhook_deliveries s)" by simp
    moreover from batch(1) batch(3) have "deliveries_ok cfg s"
      by (induction rule: worker_run.induct) (simp_all add: worker_once_inv)
    ultimately show ?case using batch(5) worker_once by blast
  qed
  have rows: "wd_attempt_count d \<le> MAX_ATTEMPTS cfg
          \<and> (wd_status d = Delivered \<longrightarrow>
               (\<exists>c. wd_last_status_code d = Some c \<and> 200 \<le> c \<and> c \<le> 299))
          \<and> (wd_status d = Failed \<longrightarrow>
               wd_attempt_count d = MAX_ATTEMPTS cfg
               \<or> wd_last_error d = Some ''WEBHOOK_DISABLED''
               \<or> wd_last_error d = Some ''MISSING_CREDENTIALS'')
          \<and> (wd_status d \<in> {Delivered, Failed} \<longrightarrow>
               d \<notin> set (getDueWebhookDeliveries now limit s))"
    if "d \<in> set (webhook_deliveries s)" for d
  proof -
    from inv that have ok: "delivery_ok cfg d" by (simp add: deliveries_ok_def)
    from inv have dist: "distinct (map wd_id (webhook_deliveries s))"
      by (simp add: deliveries_ok_def)
    have "wd_status d \<noteq> Queued \<Longrightarrow> d \<notin> set (getDueWebhookDeliveries now limit s)"
      using due_batch_props(2) [OF dist] by blast
    with ok show ?thesis
      by (auto simp: delivery_ok_def split: option.splits)
  qed
  from rows keep inv fresh show ?thesis
    by (simp add: default_worker_config_def)
qed

lemma webhook_delivery_invariant_sample:
  "deliveries_ok default_worker_config (webhook_db 7)
   \<and> map wd_status (webhook_deliveries
         (snd (runWebhookWorkerOnce default_worker_config
                (stub_externals (Response 500 ''down'')) 1000 (webhook_db 7)))) = [Failed]
   \<and> deliveries_ok default_worker_config
         (snd (runWebhookWorkerOnce default_worker_config
                (stub_externals (Response 500 ''down'')) 1000 (webhook_db 7)))"
proof -
  let ?s = "snd (runWebhookWorkerOnce default_worker_config
                (stub_externals (Response 500 ''down'')) 1000 (webhook_db 7))"
  have h1: "1 \<le> MAX_ATTEMPTS default_worker_config"
    by (simp add: default_worker_config_def)
  have h2: "deliveries_ok default_worker_config (webhook_db 7)"
    by (simp add: deliveries_ok_def delivery_ok_def worker_defs sample_defs)
  have h3: "worker_run default_worker_config (webhook_db 7) ?s"
    by (rule worker_run.batch [OF worker_run.start])
  have st: "map wd_status (webhook_deliveries ?s) = [Failed]"
    by (simp add: runWebhookWorkerOnce_def getDueWebhookDeliveries_def deliverOne_def
        getMerchantWebhookConfigEnv_def getMerchantWebhookSecret_def truthy_def or_empty_def
        markWebhookDeliveryResult_def createAlert_def Let_def worker_defs sample_defs)
  from webhook_delivery_invariant [OF h1 h2 h3] have "deliveries_ok default_worker_config ?s"
    by blast
  with h2 st show ?thesis by simp
qed

lemma mark_failed_row:
  assumes "find (\<lambda>r. wd_id r = i) (webhook_deliveries s) = Some cur" "mi_id inp = i"
    and "\<not> mi_delivered inp"
  shows "find (\<lambda>r. wd_id r = i) (webhook_deliveries (markWebhookDeliveryResult now inp s))
     = Some (cur\<lparr> wd_status := (if mi_next_retry_at inp = Null then Failed else Queued),
                wd_attempt_count := wd_attempt_count cur + 1,
                wd_next_retry_at := (case mi_next_retry_at inp of Val v \<Rightarrow> v | _ \<Rightarrow> now + 60),
                wd_last_status_code := mi_status_code inp,
                wd_last_error := mi_error inp, wd_response_snippet := mi_response_snippet inp,
                wd_updated_at := now \<rparr>)"
  using assms by (simp add: mark_table find_map_upd_same)

text \<open>
  Claim C4. The claim asks that at all times every delivery row has
  \<open>attempt_count \<le> MAX_ATTEMPTS\<close> and that a delivered or failed row is terminal. The
  worker does not maintain this when ticks overlap. \<^verbatim>\<open>deliverOne\<close> decides from the row as
  its batch read it, and \<^verbatim>\<open>markWebhookDeliveryResult\<close> increments the stored counter and
  overwrites the stored status without looking at either: after a failed attempt on a
  snapshot \<open>d\<close> of a stored row \<open>cur\<close>, the row has \<open>attempt_count cur + 1\<close> attempts and is
  failed or queued according to the count of the snapshot alone. A row that another tick has
  brought to \<open>MAX_ATTEMPTS\<close> in the meantime thus exceeds it, and a row that another tick
  has delivered is queued again.
\<close>

theorem deliverOne_ignores_stored_row:
  assumes row: "find (\<lambda>r. wd_id r = wd_id d) (webhook_deliveries s) = Some cur"
    and att: "delivery_attempt ext now d s = Some r" "attempt_failed r"
  shows "\<exists>d'. find (\<lambda>r. wd_id r = wd_id d) (webhook_deliveries (deliverOne cfg ext now d s)) = Some d'
          \<and> wd_attempt_count d' = wd_attempt_count cur + 1
          \<and> wd_status d' = (if wd_attempt_count d + 1 \<ge> MAX_ATTEMPTS cfg then Failed else Queued)"
proof (cases r)
  case (Response status body)
  with att row show ?thesis
    by (auto simp: deliverOne_def delivery_attempt_def Let_def mark_failed_row createAlert_table
             split: option.splits if_splits)
next
  case (Thrown name message)
  with att row show ?thesis
    by (auto simp: deliverOne_def delivery_attempt_def Let_def mark_failed_row createAlert_table
             split: option.splits if_splits)
qed

text \<open>Batches run one after another are runs of the scheduler.\<close>

lemma batch_run:
  "scheduler_run cfg c0 (s, bs @ [b]) \<Longrightarrow>
   scheduler_run cfg c0 (foldl (\<lambda>st d. deliverOne cfg ext now d st) s b, bs @ [[]])"
proof (induction b arbitrary: s)
  case Nil
  then show ?case by simp
next
  case (Cons d b)
  have "scheduler_run cfg c0 (deliverOne cfg ext now d s, (bs @ [d # b])[length bs := b])"
    by (rule scheduler_run.deliver [OF Cons.prems]) simp_all
  then have "scheduler_run cfg c0 (deliverOne cfg ext now d s, bs @ [b])" by simp
  from Cons.IH [OF this] show ?case by simp
qed

lemma worker_run_scheduler_run:
  "worker_run cfg s0 s \<Longrightarrow> \<exists>bs. scheduler_run cfg (s0, []) (s, bs)"
proof (induction rule: worker_run.induct)
  case start
  show ?case by (blast intro: scheduler_run.idle)
next
  case (batch s ext now)
  then obtain bs where "scheduler_run cfg (s0, []) (s, bs)" by blast
  then have "scheduler_run cfg (s0, []) (s, bs @ [getDueWebhookDeliveries now 20 s])"
    by (rule scheduler_run.tick)
  then have "scheduler_run cfg (s0, [])
      (foldl (\<lambda>st d. deliverOne cfg ext now d st) s (getDueWebhookDeliveries now 20 s), bs @ [[]])"
    by (rule batch_run)
  then show ?case by (auto simp: runWebhookWorkerOnce_def Let_def)
qed


lemmas deliver_defs = deliverOne_def delivery_attempt_def getMerchantWebhookConfigEnv_def
  getMerchantWebhookSecret_def truthy_def or_empty_def markWebhookDeliveryResult_def
  createAlert_def Let_def

theorem deliverOne_ignores_stored_row_witness:
  "deliveries_ok default_worker_config overlap_db
   \<and> MAX_ATTEMPTS default_worker_config = 8
   \<and> scheduler_run default_worker_config (overlap_db, [])
        (deliverOne default_worker_config (stub_externals (Response 500 ''down'')) 1015
           (sample_delivery Queued 7)
           (deliverOne default_worker_config (stub_externals (Response 500 ''down'')) 1008
              (sample_delivery Queued 7)
              (deliverOne default_worker_config (stub_externals (Response 500 ''down'')) 1000
                 ((sample_delivery Queued 0)\<lparr> wd_id := ''d0'' \<rparr>) overlap_db)),
         [[], []])
   \<and> map (\<lambda>r. (wd_id r, wd_status r, wd_attempt_count r))
        (webhook_deliveries
          (deliverOne default_worker_config (stub_externals (Response 500 ''down'')) 1015
             (sample_delivery Queued 7)
             (deliverOne default_worker_config (stub_externals (Response 500 ''down'')) 1008
                (sample_delivery Queued 7)
                (deliverOne default_worker_config (stub_externals (Response 500 ''down'')) 1000
                   ((sample_delivery Queued 0)\<lparr> wd_id := ''d0'' \<rparr>) overlap_db))))
       = [(''d0'', Queued, 1), (''d1'', Failed, 9)]
   \<and> (\<exists>d'. find (\<lambda>r. wd_id r = ''d1'')
          (webhook_deliveries
            (deliverOne default_worker_config (stub_externals (Response 500 ''down'')) 1015
               (sample_delivery Queued 7)
               (deliverOne default_worker_config (stub_externals (Response 500 ''down'')) 1008
                  (sample_delivery Queued 7)
                  (deliverOne default_worker_config (stub_externals (Response 500 ''down'')) 1000
                     ((sample_delivery Queued 0)\<lparr> wd_id := ''d0'' \<rparr>) overlap_db)))) = Some d'
          \<and> wd_attempt_count d' = 9 \<and> wd_status d' = Failed)"
proof -
  let ?cfg = default_worker_config
  let ?e = "stub_externals (Response 500 ''down'')"
  let ?d0 = "(sample_delivery Queued 0)\<lparr> wd_id := ''d0'' \<rparr>"
  let ?d1 = "sample_delivery Queued 7"
  let ?s1 = "deliverOne ?cfg ?e 1000 ?d0 overlap_db"
  let ?s2 = "deliverOne ?cfg ?e 1008 ?d1 ?s1"
  let ?s3 = "deliverOne ?cfg ?e 1015 ?d1 ?s2"
  have ok0: "deliveries_ok ?cfg overlap_db"
    by (simp add: deliveries_ok_def delivery_ok_def overlap_db_def worker_defs sample_defs)
  have b1: "getDueWebhookDeliveries 1000 20 overlap_db = [?d0, ?d1]"
    by (simp add: getDueWebhookDeliveries_def overlap_db_def worker_defs sample_defs)
  have b2: "getDueWebhookDeliveries 1015 20 ?s1 = [?d1]"
    by (simp add: getDueWebhookDeliveries_def overlap_db_def deliver_defs backoffSeconds_def
        worker_defs sample_defs)
  have r1: "scheduler_run ?cfg (overlap_db, []) (overlap_db, [[?d0, ?d1]])"
    using scheduler_run.tick [OF scheduler_run.idle, of ?cfg overlap_db "[]" 1000]
    unfolding b1 by simp
  have r2: "scheduler_run ?cfg (overlap_db, []) (?s1, [[?d1]])"
    using scheduler_run.deliver [OF r1, of 0 ?d0 "[?d1]" ?e 1000] by simp
  have r3: "scheduler_run ?cfg (overlap_db, []) (?s1, [[?d1], [?d1]])"
    using scheduler_run.tick [OF r2, of 1015] unfolding b2 by simp
  have r4: "scheduler_run ?cfg (overlap_db, []) (?s2, [[], [?d1]])"
    using scheduler_run.deliver [OF r3, of 0 ?d1 "[]" ?e 1008] by simp
  have r5: "scheduler_run ?cfg (overlap_db, []) (?s3, [[], []])"
    using scheduler_run.deliver [OF r4, of 1 ?d1 "[]" ?e 1015] by simp
  have rows: "map (\<lambda>r. (wd_id r, wd_status r, wd_attempt_count r)) (webhook_deliveries ?s3)
       = [(''d0'', Queued, 1), (''d1'', Failed, 9)]"
    by (simp add: overlap_db_def deliver_defs backoffSeconds_def worker_defs sample_defs)
  have "\<exists>cur. find (\<lambda>r. wd_id r = wd_id ?d1) (webhook_deliveries ?s2) = Some cur
          \<and> wd_attempt_count cur = 8"
    by (simp add: overlap_db_def deliver_defs backoffSeconds_def worker_defs sample_defs)
  then obtain cur where cur: "find (\<lambda>r. wd_id r = wd_id ?d1) (webhook_deliveries ?s2) = Some cur"
    "wd_attempt_count cur = 8" by blast
  have att: "delivery_attempt ?e 1015 ?d1 ?s2 = Some (Response 500 ''down'')"
    by (simp add: overlap_db_def deliver_defs backoffSeconds_def worker_defs sample_defs)
  have f: "attempt_failed (Response 500 ''down'')" by simp
  from deliverOne_ignores_stored_row [OF cur(1) att f, of ?cfg] cur(2)
  have last: "\<exists>d'. find (\<lambda>r. wd_id r = ''d1'') (webhook_deliveries ?s3) = Some d'
          \<and> wd_attempt_count d' = 9 \<and> wd_status d' = Failed"
    by (simp add: worker_defs)
  have mx: "MAX_ATTEMPTS ?cfg = 8" by (simp add: default_worker_config_def)
  from ok0 mx r5 rows last show ?thesis by blast
qed

text \<open>
  In the same way a row delivered by one tick is queued again by the failed attempt of an
  overlapping tick, and the due-work scan selects it once more.
\<close>

lemma overlapping_ticks_requeue_delivered:
  "map (\<lambda>r. (wd_status r, wd_attempt_count r))
     (webhook_deliveries
       (deliverOne default_worker_config (stub_externals (Response 200 ''ok'')) 1000
          (sample_delivery Queued 0) (webhook_db 0))) = [(Delivered, 1)]
   \<and> map (\<lambda>r. (wd_status r, wd_attempt_count r, wd_next_retry_at r))
     (webhook_deliveries
       (deliverOne default_worker_config (stub_externals (Response 500 ''down'')) 1001
          (sample_delivery Queued 0)
          (deliverOne default_worker_config (stub_externals (Response 200 ''ok'')) 1000
             (sample_delivery Queued 0) (webhook_db 0)))) = [(Queued, 2, 1061)]
   \<and> map wd_id (getDueWebhookDeliveries 1061 20
       (deliverOne default_worker_config (stub_externals (Response 500 ''down'')) 1001
          (sample_delivery Queued 0)
          (deliverOne default_worker_config (stub_externals (Response 200 ''ok'')) 1000
             (sample_delivery Queued 0) (webhook_db 0)))) = [''d1'']"
  by (simp add: getDueWebhookDeliveries_def deliver_defs backoffSeconds_def js_slice0_def
      worker_defs sample_defs)

section \<open>Properties: signed-request pipeline\<close>

lemmas request_defs = signed_request_def unsigned_request_def gateway_db_def default_opts_def
  makeHmac_def canonicalString_def

lemmas js_defs = truthy_def or_empty_def js_trim_def is_js_space_def decimal_number_def
  is_digit_def nat_of_digits_def digit_val_def js_toUpperCase_def hex_byte_def hex_digit_def
  hex_val_def

lemmas rsr_defs = requireSignedRequest_def window_of_def nonce_ttl_of_def isNonceUsed_def
  markNonceUsed_def getMerchantSecretForSigning_def getMerchantSigningSecret_def
  timingSafeEqualHex_def Let_def

lemma rsr_cases:
  fixes opts ext now req s
  defines "s1 \<equiv> s\<lparr> used_nonces := filter (\<lambda>r. \<not> un_expires_at r \<le> now) (used_nonces s) \<rparr>"
    and "live \<equiv> list_ex (\<lambda>r. un_merchant_id r = or_empty (rq_merchantId req)
            \<and> un_nonce r = js_trim (or_empty (rq_header req ''x-nonce''))
            \<and> un_expires_at r > now)
            (filter (\<lambda>r. \<not> un_expires_at r \<le> now) (used_nonces s))"
  obtains
    (unauth) "requireSignedRequest opts ext now req s = (Reject 401 ''UNAUTHENTICATED'', s)"
      "\<not> truthy (rq_merchantId req)"
  | (early) c e where "requireSignedRequest opts ext now req s = (Reject c e, s)"
      "(c, e) \<in> {(400, ''MISSING_SIGNATURE_HEADERS''),
                 (400, ''INVALID_TIMESTAMP''), (401, ''REQUEST_EXPIRED'')}"
      "\<forall>ts. request_timestamp ext req = Some ts \<longrightarrow> \<bar>of_int now - ts\<bar> > of_int (window_of opts)"
  | (replay) "requireSignedRequest opts ext now req s = (Reject 409 ''REPLAY_DETECTED'', s1)" "live"
  | (late) c e where "requireSignedRequest opts ext now req s = (Reject c e, s1)"
      "(c, e) \<in> {(401, ''NO_SIGNING_SECRET''), (401, ''INVALID_SIGNATURE'')}" "\<not> live"
  | (accepted) "requireSignedRequest opts ext now req s =
      (Next, markNonceUsed (or_empty (rq_merchantId req))
               (js_trim (or_empty (rq_header req ''x-nonce''))) (now + nonce_ttl_of opts) s1)"
      "\<not> live" "truthy (rq_merchantId req)"
proof -
  have used: "fst (isNonceUsed now (or_empty (rq_merchantId req)) n s) =
      list_ex (\<lambda>r. un_merchant_id r = or_empty (rq_merchantId req) \<and> un_nonce r = n
            \<and> un_expires_at r > now)
            (filter (\<lambda>r. \<not> un_expires_at r \<le> now) (used_nonces s))"
    if "truthy (rq_merchantId req)" "n \<noteq> []" for n
    using that by (auto simp: isNonceUsed_def Let_def s1_def truthy_def or_empty_def split: option.splits)
  have s1: "snd (isNonceUsed now (or_empty (rq_merchantId req)) n s) = s1"
    if "truthy (rq_merchantId req)" "n \<noteq> []" for n
    using that by (auto simp: isNonceUsed_def Let_def s1_def truthy_def or_empty_def split: option.splits)
  show ?thesis
  proof (cases "truthy (rq_merchantId req)")
    case False
    then show ?thesis by (intro unauth) (simp_all add: requireSignedRequest_def Let_def)
  next
    case m: True
    let ?ts = "js_trim (or_empty (rq_header req ''x-timestamp''))"
    let ?n = "js_trim (or_empty (rq_header req ''x-nonce''))"
    let ?sig = "js_trim (or_empty (rq_header req ''x-signature''))"
    show ?thesis
    proof (cases "?ts = [] \<or> ?n = [] \<or> ?sig = []")
      case True
      with m show ?thesis
        by (intro early [of 400 "''MISSING_SIGNATURE_HEADERS''"]) (auto simp: requireSignedRequest_def request_timestamp_def Let_def)
    next
      case h: False
      show ?thesis
      proof (cases "request_timestamp ext req")
        case None
        with m h show ?thesis
          by (intro early [of 400 "''INVALID_TIMESTAMP''"])
             (auto simp: requireSignedRequest_def request_timestamp_def Let_def split: option.splits if_splits)
      next
        case (Some ts)
        with m h have ts: "to_number ext ?ts = Some ts" "\<not> ts \<le> 0"
          by (auto simp: request_timestamp_def split: option.splits if_splits)
        show ?thesis
        proof (cases "\<bar>of_int now - ts\<bar> > of_int (window_of opts)")
          case True
          with m h ts Some show ?thesis
            by (intro early [of 401 "''REQUEST_EXPIRED''"]) (simp_all add: requireSignedRequest_def Let_def)
        next
          case w: False
          from h have n: "?n \<noteq> []" by simp
          obtain used where u: "isNonceUsed now (or_empty (rq_merchantId req)) ?n s = (used, s1)"
            using s1 [OF m n] by (cases "isNonceUsed now (or_empty (rq_merchantId req)) ?n s") auto
          with used [OF m n] have ul: "used = live" by (simp add: live_def)
          show ?thesis
          proof (cases used)
            case True
            with m h ts w u ul show ?thesis
              by (intro replay) (simp_all add: requireSignedRequest_def Let_def)
          next
            case nu: False
            show ?thesis
            proof (cases "getMerchantSecretForSigning (or_empty (rq_merchantId req))
                     (case rq_gwEnv req of Some e \<Rightarrow> e | None \<Rightarrow> Production) s1")
              case None
              with m h ts w u nu ul show ?thesis
                by (intro late [of 401 "''NO_SIGNING_SECRET''"]) (simp_all add: requireSignedRequest_def Let_def)
            next
              case (Some secret)
              show ?thesis
              proof (cases "timingSafeEqualHex (makeHmac ext secret (canonicalString req ?ts ?n)) ?sig")
                case False
                with m h ts w u nu ul Some show ?thesis
                  by (intro late [of 401 "''INVALID_SIGNATURE''"]) (simp_all add: requireSignedRequest_def Let_def)
              next
                case True
                with m h ts w u nu ul Some show ?thesis
                  by (intro accepted) (simp_all add: requireSignedRequest_def Let_def)
              qed
            qed
          qed
        qed
      qed
    qed
  qed
qed

lemma rsr_failed_state:
  assumes "fst (requireSignedRequest opts ext now req s) \<noteq> Next"
  shows "snd (requireSignedRequest opts ext now req s) = s
     \<or> snd (requireSignedRequest opts ext now req s) =
         s\<lparr> used_nonces := filter (\<lambda>r. \<not> un_expires_at r \<le> now) (used_nonces s) \<rparr>"
  using assms by (cases rule: rsr_cases [of opts ext now req s]) simp_all

lemma rsr_early_state:
  assumes "fst (requireSignedRequest opts ext now req s) \<in>
     {Reject 401 ''UNAUTHENTICATED'', Reject 400 ''MISSING_SIGNATURE_HEADERS'',
      Reject 400 ''INVALID_TIMESTAMP'', Reject 401 ''REQUEST_EXPIRED''}"
  shows "snd (requireSignedRequest opts ext now req s) = s"
  using assms by (cases rule: rsr_cases [of opts ext now req s]) auto

lemma rsr_expired_iff:
  assumes "request_timestamp ext req = Some ts"
  shows "fst (requireSignedRequest opts ext now req s) = Reject 401 ''REQUEST_EXPIRED''
     \<longleftrightarrow> \<bar>of_int now - ts\<bar> > of_int (window_of opts)"
  using assms
  by (auto simp: requireSignedRequest_def request_timestamp_def Let_def
       split: option.splits if_splits prod.splits)

text \<open>
  Claim C7. A request that reaches the timestamp check (merchant bound, headers present,
  timestamp a finite positive number \<open>ts\<close>) is answered \<^verbatim>\<open>REQUEST_EXPIRED\<close> exactly when
  \<open>\<bar>ts - now\<bar>\<close> exceeds the window \<open>W\<close>: a skew of exactly \<open>W\<close> passes the check and a skew
  of \<open>W + 1\<close> is rejected. \<open>W\<close> defaults to 60 seconds.
\<close>

theorem timestamp_window_inclusive:
  assumes "request_timestamp ext req = Some ts"
  shows "(fst (requireSignedRequest opts ext now req s) \<noteq> Reject 401 ''REQUEST_EXPIRED''
            \<longleftrightarrow> \<bar>ts - of_int now\<bar> \<le> of_int (window_of opts))
       \<and> (\<bar>ts - of_int now\<bar> = of_int (window_of opts) \<longrightarrow>
            fst (requireSignedRequest opts ext now req s) \<noteq> Reject 401 ''REQUEST_EXPIRED'')
       \<and> (\<bar>ts - of_int now\<bar> = of_int (window_of opts + 1) \<longrightarrow>
            fst (requireSignedRequest opts ext now req s) = Reject 401 ''REQUEST_EXPIRED'')
       \<and> window_of default_opts = 60"
proof -
  have sym: "\<bar>of_int now - ts\<bar> = \<bar>ts - of_int now\<bar>" by (rule abs_minus_commute)
  show ?thesis
    unfolding rsr_expired_iff [OF assms] sym
    by (auto simp: window_of_def default_opts_def)
qed

lemma ts1060: "request_timestamp (stub_externals (Response 200 []))
       (signed_request (stub_externals (Response 200 [])) ''sksec_1'' ''1060'' ''n1'') = Some 1060"
  by (simp add: request_timestamp_def request_defs sample_defs js_defs)

lemma ts1061: "request_timestamp (stub_externals (Response 200 []))
       (signed_request (stub_externals (Response 200 [])) ''sksec_1'' ''1061'' ''n1'') = Some 1061"
  by (simp add: request_timestamp_def request_defs sample_defs js_defs)

lemma acc1060: "fst (requireSignedRequest default_opts (stub_externals (Response 200 [])) 1000
       (signed_request (stub_externals (Response 200 [])) ''sksec_1'' ''1060'' ''n1'') gateway_db) = Next"
  by (simp add: rsr_defs request_defs sample_defs js_defs)

theorem timestamp_window_inclusive_witness:
  "request_timestamp (stub_externals (Response 200 []))
       (signed_request (stub_externals (Response 200 [])) ''sksec_1'' ''1061'' ''n1'') = Some 1061
   \<and> fst (requireSignedRequest default_opts (stub_externals (Response 200 [])) 1000
       (signed_request (stub_externals (Response 200 [])) ''sksec_1'' ''1061'' ''n1'') gateway_db)
       = Reject 401 ''REQUEST_EXPIRED''
   \<and> request_timestamp (stub_externals (Response 200 []))
       (signed_request (stub_externals (Response 200 [])) ''sksec_1'' ''1060'' ''n1'') = Some 1060
   \<and> fst (requireSignedRequest default_opts (stub_externals (Response 200 [])) 1000
       (signed_request (stub_externals (Response 200 [])) ''sksec_1'' ''1060'' ''n1'') gateway_db)
       = Next"
proof -
  have w: "window_of default_opts = 60" by (simp add: window_of_def default_opts_def)
  have "fst (requireSignedRequest default_opts (stub_externals (Response 200 [])) 1000
       (signed_request (stub_externals (Response 200 [])) ''sksec_1'' ''1061'' ''n1'') gateway_db)
       = Reject 401 ''REQUEST_EXPIRED''"
    using timestamp_window_inclusive [OF ts1061, of default_opts 1000 gateway_db]
    by (simp add: w)
  with ts1060 ts1061 acc1060 show ?thesis by simp
qed

lemma request_keeps_live_entry:
  assumes "e \<in> set (used_nonces s)" "un_expires_at e > t"
  shows "e \<in> set (used_nonces (snd (requireSignedRequest opts ext t req s)))"
proof (cases rule: rsr_cases [of opts ext t req s])
  case unauth
  with assms show ?thesis by simp
next
  case (early c e)
  with assms show ?thesis by simp
next
  case replay
  with assms show ?thesis by simp
next
  case (late c e)
  with assms show ?thesis by simp
next
  case accepted
  from accepted(2) assms have "\<not> (un_merchant_id e = or_empty (rq_merchantId req)
      \<and> un_nonce e = js_trim (or_empty (rq_header req ''x-nonce'')))"
    by (auto simp: list_ex_iff)
  with assms show ?thesis
    unfolding accepted(1) by (auto simp: markNonceUsed_def)
qed

lemma run_keeps_live_entry:
  assumes "gateway_run opts now s s'" "e \<in> set (used_nonces s)" "un_expires_at e > now"
  shows "e \<in> set (used_nonces s')"
  using assms
proof (induction rule: gateway_run.induct)
  case idle
  then show ?case by simp
next
  case (request s' t ext req)
  then have "e \<in> set (used_nonces s')" "un_expires_at e > t" by simp_all
  then show ?case by (rule request_keeps_live_entry)
qed

lemma accepted_marks_nonce:
  assumes "requireSignedRequest opts ext t0 req s0 = (Next, s1)"
  shows "\<lparr> un_merchant_id = or_empty (rq_merchantId req),
           un_nonce = js_trim (or_empty (rq_header req ''x-nonce'')),
           un_expires_at = t0 + nonce_ttl_of opts \<rparr> \<in> set (used_nonces s1)"
  using assms
  by (cases rule: rsr_cases [of opts ext t0 req s0]) (auto simp: markNonceUsed_def)

text \<open>
  Requests handled one after the other. Once a request was accepted for a merchant and nonce
  at \<open>t0\<close>, every
  request of that merchant with that nonce at a time \<open>now < t0 + NONCE_TTL\<close> (whatever other
  requests the middleware served in between, none later than \<open>now\<close>) is rejected before
  the handler runs: with 409 \<^verbatim>\<open>REPLAY_DETECTED\<close> when it passes the header and timestamp
  checks, and otherwise with the error of the check it fails first (400
  \<^verbatim>\<open>MISSING_SIGNATURE_HEADERS\<close>, 400 \<^verbatim>\<open>INVALID_TIMESTAMP\<close> or 401
  \<^verbatim>\<open>REQUEST_EXPIRED\<close>). So of two requests with the same merchant and nonce served one
  after the other within the TTL, only the first succeeds. \<open>NONCE_TTL\<close> defaults to 120.
\<close>

lemma replayed_nonce_rejected:
  assumes first: "requireSignedRequest opts ext t0 r1 s0 = (Next, s1)"
    and between: "gateway_run opts now s1 s"
    and same: "rq_merchantId r2 = rq_merchantId r1"
      "js_trim (or_empty (rq_header r2 ''x-nonce'')) = js_trim (or_empty (rq_header r1 ''x-nonce''))"
    and within: "now < t0 + nonce_ttl_of opts"
  shows "fst (requireSignedRequest opts ext' now r2 s) \<in>
           {Reject 400 ''MISSING_SIGNATURE_HEADERS'', Reject 400 ''INVALID_TIMESTAMP'',
            Reject 401 ''REQUEST_EXPIRED'', Reject 409 ''REPLAY_DETECTED''}
       \<and> fst (requireSignedRequest opts ext' now r2 s) \<noteq> Next
       \<and> (request_timestamp ext' r2 = Some ts \<and> \<bar>ts - of_int now\<bar> \<le> of_int (window_of opts)
            \<longrightarrow> fst (requireSignedRequest opts ext' now r2 s) = Reject 409 ''REPLAY_DETECTED'')
       \<and> nonce_ttl_of default_opts = 120"
proof -
  let ?e = "\<lparr> un_merchant_id = or_empty (rq_merchantId r1),
           un_nonce = js_trim (or_empty (rq_header r1 ''x-nonce'')),
           un_expires_at = t0 + nonce_ttl_of opts \<rparr>"
  have "?e \<in> set (used_nonces s1)" using first by (rule accepted_marks_nonce)
  with between within have e: "?e \<in> set (used_nonces s)"
    by (intro run_keeps_live_entry [of opts now s1 s ?e]) simp_all
  have m1: "truthy (rq_merchantId r1)"
    using first by (cases rule: rsr_cases [of opts ext t0 r1 s0]) auto
  have live: "list_ex (\<lambda>r. un_merchant_id r = or_empty (rq_merchantId r2)
            \<and> un_nonce r = js_trim (or_empty (rq_header r2 ''x-nonce''))
            \<and> un_expires_at r > now)
            (filter (\<lambda>r. \<not> un_expires_at r \<le> now) (used_nonces s))"
    unfolding list_ex_iff using e within same by (intro bexI [of _ ?e]) simp_all
  have sym: "\<bar>of_int now - ts\<bar> = \<bar>ts - of_int now\<bar>" by (rule abs_minus_commute)
  have ttl: "nonce_ttl_of default_opts = 120" by (simp add: nonce_ttl_of_def default_opts_def)
  show ?thesis
  proof (cases rule: rsr_cases [of opts ext' now r2 s])
    case unauth
    with m1 same show ?thesis by simp
  next
    case (early c e)
    from early(3) have nw: "\<not> (request_timestamp ext' r2 = Some ts \<and> \<bar>ts - of_int now\<bar> \<le> of_int (window_of opts))"
      unfolding sym [symmetric] by auto
    from early(2) have "Reject c e \<in> {Reject 400 ''MISSING_SIGNATURE_HEADERS'',
        Reject 400 ''INVALID_TIMESTAMP'', Reject 401 ''REQUEST_EXPIRED'', Reject 409 ''REPLAY_DETECTED''}"
      by auto
    with early(1) nw ttl show ?thesis by auto
  next
    case replay
    with ttl show ?thesis by simp
  next
    case (late c e)
    with live show ?thesis by simp
  next
    case accepted
    with live show ?thesis by simp
  qed
qed

lemma replayed_nonce_rejected_sample:
  "fst (requireSignedRequest default_opts (stub_externals (Response 200 [])) 1000
       (signed_request (stub_externals (Response 200 [])) ''sksec_1'' ''1000'' ''n1'') gateway_db)
     = Next
   \<and> fst (requireSignedRequest default_opts (stub_externals (Response 200 [])) 1001
       (signed_request (stub_externals (Response 200 [])) ''sksec_1'' ''1000'' ''n1'')
       (snd (requireSignedRequest default_opts (stub_externals (Response 200 [])) 1000
         (signed_request (stub_externals (Response 200 [])) ''sksec_1'' ''1000'' ''n1'') gateway_db)))
     = Reject 409 ''REPLAY_DETECTED''"
proof -
  let ?ext = "stub_externals (Response 200 [])"
  let ?r = "signed_request ?ext ''sksec_1'' ''1000'' ''n1''"
  let ?s1 = "snd (requireSignedRequest default_opts ?ext 1000 ?r gateway_db)"
  have acc: "fst (requireSignedRequest default_opts ?ext 1000 ?r gateway_db) = Next"
    by (simp add: rsr_defs request_defs sample_defs js_defs)
  then have first: "requireSignedRequest default_opts ?ext 1000 ?r gateway_db = (Next, ?s1)"
    by (metis prod.collapse)
  have ts: "request_timestamp ?ext ?r = Some 1000"
    by (simp add: request_timestamp_def request_defs sample_defs js_defs)
  have within: "1001 < 1000 + nonce_ttl_of default_opts"
    by (simp add: nonce_ttl_of_def default_opts_def)
  have win: "\<bar>1000 - of_int 1001\<bar> \<le> (of_int (window_of default_opts) :: rat)"
    by (simp add: window_of_def default_opts_def)
  from replayed_nonce_rejected [OF first gateway_run.idle refl refl within, of ?ext 1000] ts win
  have "fst (requireSignedRequest default_opts ?ext 1001 ?r ?s1) = Reject 409 ''REPLAY_DETECTED''"
    by blast
  with acc show ?thesis by simp
qed

text \<open>
  The order of the checks: a request accepted at time 1000 with timestamp 940 (skew 60) and
  replayed unchanged one second later, well within the nonce TTL, is answered 401
  \<^verbatim>\<open>REQUEST_EXPIRED\<close>, not 409 \<^verbatim>\<open>REPLAY_DETECTED\<close>: the timestamp window is checked
  before the nonce.
\<close>

lemma replay_answered_request_expired:
  "fst (requireSignedRequest default_opts (stub_externals (Response 200 [])) 1000
       (signed_request (stub_externals (Response 200 [])) ''sksec_1'' ''940'' ''n1'') gateway_db)
     = Next
   \<and> 1001 < 1000 + nonce_ttl_of default_opts
   \<and> fst (requireSignedRequest default_opts (stub_externals (Response 200 [])) 1001
       (signed_request (stub_externals (Response 200 [])) ''sksec_1'' ''940'' ''n1'')
       (snd (requireSignedRequest default_opts (stub_externals (Response 200 [])) 1000
         (signed_request (stub_externals (Response 200 [])) ''sksec_1'' ''940'' ''n1'') gateway_db)))
     = Reject 401 ''REQUEST_EXPIRED''"
  by (simp add: rsr_defs request_defs sample_defs js_defs)

lemma purge_twice:
  "now \<le> now' \<Longrightarrow>
   filter (\<lambda>r. \<not> un_expires_at r \<le> now \<and> \<not> un_expires_at r \<le> now') xs
     = filter (\<lambda>r. \<not> un_expires_at r \<le> now') xs"
  by (induction xs) auto

lemma isNonceUsed_purged:
  assumes "now \<le> now'" "m \<noteq> []" "n \<noteq> []"
  shows "isNonceUsed now' m n (s\<lparr> used_nonces := filter (\<lambda>r. \<not> un_expires_at r \<le> now) (used_nonces s) \<rparr>)
     = isNonceUsed now' m n s"
  using assms by (simp add: isNonceUsed_def Let_def purge_twice)

lemma rsr_purged:
  assumes "now \<le> now'"
  shows "fst (requireSignedRequest opts ext now' req
            (s\<lparr> used_nonces := filter (\<lambda>r. \<not> un_expires_at r \<le> now) (used_nonces s) \<rparr>))
     = fst (requireSignedRequest opts ext now' req s)"
proof (cases "truthy (rq_merchantId req) \<and> js_trim (or_empty (rq_header req ''x-nonce'')) \<noteq> []")
  case False
  then show ?thesis
    by (auto simp: requireSignedRequest_def Let_def split: option.splits)
next
  case True
  then have ne: "or_empty (rq_merchantId req) \<noteq> []"
    by (auto simp: truthy_def or_empty_def split: option.splits)
  have cred: "getMerchantSecretForSigning m e (snd (isNonceUsed now' m' n' s)) =
      getMerchantSecretForSigning m e s" for m e m' n'
    by (simp add: isNonceUsed_def getMerchantSecretForSigning_def getMerchantSigningSecret_def Let_def)
  from True ne show ?thesis
    unfolding requireSignedRequest_def Let_def
    by (simp add: isNonceUsed_purged [OF assms] split: option.splits prod.splits)
qed

text \<open>
  Claim C10, as amended. A request that the middleware rejects adds no nonce and leaves
  every unexpired nonce entry as it is: a failure before the replay check leaves the store
  untouched, a failure at or after it (replay, missing secret, signature mismatch) only
  deletes the entries with \<open>expires_at \<le> now\<close>, which \<^verbatim>\<open>isNonceUsed\<close> purges. Every later
  request is therefore decided as if the rejected one had not been made; in particular its
  nonce can still be accepted.
\<close>

theorem failed_request_keeps_live_nonces:
  assumes "fst (requireSignedRequest opts ext now req s) \<noteq> Next"
  shows "(snd (requireSignedRequest opts ext now req s) = s
          \<or> snd (requireSignedRequest opts ext now req s) =
               s\<lparr> used_nonces := filter (\<lambda>r. un_expires_at r > now) (used_nonces s) \<rparr>)
       \<and> (fst (requireSignedRequest opts ext now req s) \<in>
             {Reject 401 ''UNAUTHENTICATED'', Reject 400 ''MISSING_SIGNATURE_HEADERS'',
              Reject 400 ''INVALID_TIMESTAMP'', Reject 401 ''REQUEST_EXPIRED''}
            \<longrightarrow> snd (requireSignedRequest opts ext now req s) = s)
       \<and> filter (\<lambda>r. un_expires_at r > now)
            (used_nonces (snd (requireSignedRequest opts ext now req s)))
          = filter (\<lambda>r. un_expires_at r > now) (used_nonces s)
       \<and> (\<forall>now' req' ext'. now \<le> now' \<longrightarrow>
            fst (requireSignedRequest opts ext' now' req'
                   (snd (requireSignedRequest opts ext now req s)))
            = fst (requireSignedRequest opts ext' now' req' s))"
proof -
  have gt: "(\<lambda>r. un_expires_at r > now) = (\<lambda>r. \<not> un_expires_at r \<le> now)"
    by (auto simp: fun_eq_iff)
  from rsr_failed_state [OF assms] show ?thesis
  proof
    assume same: "snd (requireSignedRequest opts ext now req s) = s"
    then show ?thesis by simp
  next
    assume purged: "snd (requireSignedRequest opts ext now req s) =
         s\<lparr> used_nonces := filter (\<lambda>r. \<not> un_expires_at r \<le> now) (used_nonces s) \<rparr>"
    have early: "fst (requireSignedRequest opts ext now req s) \<in>
             {Reject 401 ''UNAUTHENTICATED'', Reject 400 ''MISSING_SIGNATURE_HEADERS'',
              Reject 400 ''INVALID_TIMESTAMP'', Reject 401 ''REQUEST_EXPIRED''}
            \<longrightarrow> snd (requireSignedRequest opts ext now req s) = s"
      using rsr_early_state by blast
    have later: "\<forall>now' req' ext'. now \<le> now' \<longrightarrow>
            fst (requireSignedRequest opts ext' now' req'
                   (snd (requireSignedRequest opts ext now req s)))
            = fst (requireSignedRequest opts ext' now' req' s)"
      unfolding purged by (simp add: rsr_purged)
    from early later show ?thesis
      unfolding gt by (simp add: purged)
  qed
qed

theorem failed_request_keeps_live_nonces_witness:
  "fst (requireSignedRequest default_opts (stub_externals (Response 200 [])) 1000
       (signed_request (stub_externals (Response 200 [])) ''sksec_22'' ''1000'' ''n1'') stale_db)
     = Reject 401 ''INVALID_SIGNATURE''
   \<and> fst (requireSignedRequest default_opts (stub_externals (Response 200 [])) 1001
       (signed_request (stub_externals (Response 200 [])) ''sksec_1'' ''1001'' ''n1'')
       (snd (requireSignedRequest default_opts (stub_externals (Response 200 [])) 1000
         (signed_request (stub_externals (Response 200 [])) ''sksec_22'' ''1000'' ''n1'') stale_db)))
     = Next"
proof -
  let ?ext = "stub_externals (Response 200 [])"
  let ?bad = "signed_request ?ext ''sksec_22'' ''1000'' ''n1''"
  let ?good = "signed_request ?ext ''sksec_1'' ''1001'' ''n1''"
  have bad: "fst (requireSignedRequest default_opts ?ext 1000 ?bad stale_db)
      = Reject 401 ''INVALID_SIGNATURE''"
    by (simp add: rsr_defs stale_db_def request_defs sample_defs js_defs)
  then have nn: "fst (requireSignedRequest default_opts ?ext 1000 ?bad stale_db) \<noteq> Next"
    by simp
  have good: "fst (requireSignedRequest default_opts ?ext 1001 ?good stale_db) = Next"
    by (simp add: rsr_defs stale_db_def request_defs sample_defs js_defs)
  have "fst (requireSignedRequest default_opts ?ext 1001 ?good
           (snd (requireSignedRequest default_opts ?ext 1000 ?bad stale_db)))
      = fst (requireSignedRequest default_opts ?ext 1001 ?good stale_db)"
    using failed_request_keeps_live_nonces [OF nn] by simp
  with bad good show ?thesis by simp
qed

text \<open>
  Claim C10 as stated fails: a request rejected for its signature has already run the purge
  of \<^verbatim>\<open>isNonceUsed\<close>, so a store holding an expired entry is changed by it.
\<close>

theorem failed_request_changes_store:
  "fst (requireSignedRequest default_opts (stub_externals (Response 200 [])) 1000
       (signed_request (stub_externals (Response 200 [])) ''sksec_22'' ''1000'' ''n1'') stale_db)
     = Reject 401 ''INVALID_SIGNATURE''
   \<and> used_nonces stale_db =
       [\<lparr> un_merchant_id = ''m1'', un_nonce = ''old'', un_expires_at = 10 \<rparr>]
   \<and> used_nonces (snd (requireSignedRequest default_opts (stub_externals (Response 200 [])) 1000
       (signed_request (stub_externals (Response 200 [])) ''sksec_22'' ''1000'' ''n1'') stale_db))
     = []"
  by (simp add: rsr_defs stale_db_def request_defs sample_defs js_defs)

text \<open>Taken without interruption, the three steps are the middleware.\<close>

lemma rsr_alone_eq:
  "rsr_alone opts ext now req s =
     (Answered (fst (requireSignedRequest opts ext now req s)),
      snd (requireSignedRequest opts ext now req s))"
proof (cases "truthy (rq_merchantId req)")
  case False
  then show ?thesis
    by (simp add: rsr_alone_def rsr_step_def requireSignedRequest_def Let_def)
next
  case m: True
  let ?m = "or_empty (rq_merchantId req)"
  let ?ts = "js_trim (or_empty (rq_header req ''x-timestamp''))"
  let ?n = "js_trim (or_empty (rq_header req ''x-nonce''))"
  let ?sig = "js_trim (or_empty (rq_header req ''x-signature''))"
  show ?thesis
  proof (cases "?ts = [] \<or> ?n = [] \<or> ?sig = []")
    case True
    with m show ?thesis
      by (simp add: rsr_alone_def rsr_step_def requireSignedRequest_def Let_def)
  next
    case h: False
    show ?thesis
    proof (cases "to_number ext ?ts")
      case None
      with m h show ?thesis
        by (simp add: rsr_alone_def rsr_step_def requireSignedRequest_def Let_def)
    next
      case (Some ts)
      show ?thesis
      proof (cases "ts \<le> 0 \<or> \<bar>of_int now - ts\<bar> > of_int (window_of opts)")
        case True
        with m h Some show ?thesis
          by (auto simp: rsr_alone_def rsr_step_def requireSignedRequest_def Let_def)
      next
        case w: False
        obtain used s1 where u: "isNonceUsed now ?m ?n s = (used, s1)"
          by (cases "isNonceUsed now ?m ?n s")
        show ?thesis
        proof (cases used)
          case True
          with m h Some w u show ?thesis
            by (simp add: rsr_alone_def rsr_step_def requireSignedRequest_def Let_def)
        next
          case nu: False
          show ?thesis
          proof (cases "getMerchantSecretForSigning ?m
                   (case rq_gwEnv req of Some e \<Rightarrow> e | None \<Rightarrow> Production) s1")
            case None
            with m h Some w u nu show ?thesis
              by (simp add: rsr_alone_def rsr_step_def requireSignedRequest_def Let_def)
          next
            case sec: (Some secret)
            show ?thesis
            proof (cases "timingSafeEqualHex (makeHmac ext secret (canonicalString req ?ts ?n)) ?sig")
              case False
              with m h Some w u nu sec show ?thesis
                by (simp add: rsr_alone_def rsr_step_def requireSignedRequest_def Let_def)
            next
              case True
              with m h Some w u nu sec show ?thesis
                by (simp add: rsr_alone_def rsr_step_def requireSignedRequest_def Let_def)
            qed
          qed
        qed
      qed
    qed
  qed
qed


lemma accepted_facts:
  assumes acc: "fst (requireSignedRequest opts ext now req s) = Next"
  obtains ts secret where "truthy (rq_merchantId req)"
    "js_trim (or_empty (rq_header req ''x-timestamp'')) \<noteq> []"
    "js_trim (or_empty (rq_header req ''x-nonce'')) \<noteq> []"
    "js_trim (or_empty (rq_header req ''x-signature'')) \<noteq> []"
    "to_number ext (js_trim (or_empty (rq_header req ''x-timestamp''))) = Some ts"
    "\<not> ts \<le> 0" "\<not> \<bar>of_int now - ts\<bar> > of_int (window_of opts)"
    "isNonceUsed now (or_empty (rq_merchantId req)) (js_trim (or_empty (rq_header req ''x-nonce''))) s
       = (False, s\<lparr> used_nonces := filter (\<lambda>r. \<not> un_expires_at r \<le> now) (used_nonces s) \<rparr>)"
    "getMerchantSecretForSigning (or_empty (rq_merchantId req))
       (case rq_gwEnv req of Some e \<Rightarrow> e | None \<Rightarrow> Production)
       (s\<lparr> used_nonces := filter (\<lambda>r. \<not> un_expires_at r \<le> now) (used_nonces s) \<rparr>) = Some secret"
    "timingSafeEqualHex
       (makeHmac ext secret (canonicalString req (js_trim (or_empty (rq_header req ''x-timestamp'')))
          (js_trim (or_empty (rq_header req ''x-nonce'')))))
       (js_trim (or_empty (rq_header req ''x-signature'')))"
proof (cases "truthy (rq_merchantId req)")
  case False
  with acc show ?thesis by (simp add: requireSignedRequest_def Let_def)
next
  case m: True
  let ?m = "or_empty (rq_merchantId req)"
  let ?ts = "js_trim (or_empty (rq_header req ''x-timestamp''))"
  let ?n = "js_trim (or_empty (rq_header req ''x-nonce''))"
  let ?sig = "js_trim (or_empty (rq_header req ''x-signature''))"
  let ?s1 = "s\<lparr> used_nonces := filter (\<lambda>r. \<not> un_expires_at r \<le> now) (used_nonces s) \<rparr>"
  from m have mne: "?m \<noteq> []" by (simp add: truthy_def or_empty_def split: option.splits)
  show ?thesis
  proof (cases "?ts = [] \<or> ?n = [] \<or> ?sig = []")
    case True
    with m acc show ?thesis by (simp add: requireSignedRequest_def Let_def)
  next
    case h: False
    show ?thesis
    proof (cases "to_number ext ?ts")
      case None
      with m h acc show ?thesis by (simp add: requireSignedRequest_def Let_def)
    next
      case (Some ts)
      show ?thesis
      proof (cases "ts \<le> 0 \<or> \<bar>of_int now - ts\<bar> > of_int (window_of opts)")
        case True
        then have "fst (requireSignedRequest opts ext now req s) \<noteq> Next"
          using m h Some by (cases "ts \<le> 0") (simp_all add: requireSignedRequest_def Let_def)
        with acc show ?thesis by simp
      next
        case w: False
        obtain used where u: "isNonceUsed now ?m ?n s = (used, ?s1)"
          using mne h by (simp add: isNonceUsed_def Let_def)
        show ?thesis
        proof (cases used)
          case True
          with m h Some w u acc show ?thesis by (simp add: requireSignedRequest_def Let_def)
        next
          case nu: False
          show ?thesis
          proof (cases "getMerchantSecretForSigning ?m
                   (case rq_gwEnv req of Some e \<Rightarrow> e | None \<Rightarrow> Production) ?s1")
            case None
            with m h Some w u nu acc show ?thesis by (simp add: requireSignedRequest_def Let_def)
          next
            case sec: (Some secret)
            show ?thesis
            proof (cases "timingSafeEqualHex (makeHmac ext secret (canonicalString req ?ts ?n)) ?sig")
              case False
              with m h Some w u nu sec acc show ?thesis
                by (simp add: requireSignedRequest_def Let_def)
            next
              case True
              with m h Some w u nu sec show ?thesis
                by (intro that [of ts secret]) simp_all
            qed
          qed
        qed
      qed
    qed
  qed
qed

text \<open>
  Claim C2. The claim asks that of two requests with the same merchant and nonce exactly one
  succeeds, also when the two are in flight together. The middleware looks the nonce up and
  records it in separate awaited calls, and it records it with \<^verbatim>\<open>INSERT OR REPLACE\<close>,
  which never conflicts with the row of the other request. So whenever a request is accepted
  on its own, two copies of it in flight together are both accepted: in the run where both
  are looked up before either is recorded, each finds the nonce unused, each passes the
  signature check, and each records the nonce and calls \<^verbatim>\<open>next()\<close>; the handler runs
  twice.
\<close>

theorem concurrent_replay_both_accepted:
  assumes acc: "fst (requireSignedRequest opts ext now req s) = Next"
  shows "concurrent_run opts [(ext, now, req), (ext, now, req)] (s, [Arrived, Arrived])
     (markNonceUsed (or_empty (rq_merchantId req)) (js_trim (or_empty (rq_header req ''x-nonce'')))
        (now + nonce_ttl_of opts)
        (markNonceUsed (or_empty (rq_merchantId req)) (js_trim (or_empty (rq_header req ''x-nonce'')))
           (now + nonce_ttl_of opts)
           (s\<lparr> used_nonces := filter (\<lambda>r. \<not> un_expires_at r \<le> now) (used_nonces s) \<rparr>)),
      [Answered Next, Answered Next])"
proof -
  let ?m = "or_empty (rq_merchantId req)"
  let ?n = "js_trim (or_empty (rq_header req ''x-nonce''))"
  let ?s1 = "s\<lparr> used_nonces := filter (\<lambda>r. \<not> un_expires_at r \<le> now) (used_nonces s) \<rparr>"
  let ?s2 = "markNonceUsed ?m ?n (now + nonce_ttl_of opts) ?s1"
  let ?s3 = "markNonceUsed ?m ?n (now + nonce_ttl_of opts) ?s2"
  let ?reqs = "[(ext, now, req), (ext, now, req)]"
  let ?c0 = "(s, [Arrived, Arrived])"
  from acc obtain ts secret where f: "truthy (rq_merchantId req)"
    "js_trim (or_empty (rq_header req ''x-timestamp'')) \<noteq> []"
    "?n \<noteq> []"
    "js_trim (or_empty (rq_header req ''x-signature'')) \<noteq> []"
    "to_number ext (js_trim (or_empty (rq_header req ''x-timestamp''))) = Some ts"
    "\<not> ts \<le> 0" "\<not> \<bar>of_int now - ts\<bar> > of_int (window_of opts)"
    "isNonceUsed now ?m ?n s = (False, ?s1)"
    "getMerchantSecretForSigning ?m
       (case rq_gwEnv req of Some e \<Rightarrow> e | None \<Rightarrow> Production) ?s1 = Some secret"
    "timingSafeEqualHex
       (makeHmac ext secret (canonicalString req (js_trim (or_empty (rq_header req ''x-timestamp''))) ?n))
       (js_trim (or_empty (rq_header req ''x-signature'')))"
    by (rule accepted_facts)
  from f(1) have mne: "?m \<noteq> []" by (simp add: truthy_def or_empty_def split: option.splits)
  have again: "isNonceUsed now ?m ?n ?s1 = (False, ?s1)"
    using isNonceUsed_purged [of now now ?m ?n s] mne f(3,8) by simp
  have a1: "rsr_step opts ext now req Arrived s = (Looked, ?s1)"
    using f by (simp add: rsr_step_def Let_def)
  have b1: "rsr_step opts ext now req Arrived ?s1 = (Looked, ?s1)"
    using f(1-7) again by (simp add: rsr_step_def Let_def)
  have a2: "rsr_step opts ext now req Looked ?s1 = (Verified, ?s1)"
    using f(9,10) by (simp add: rsr_step_def Let_def)
  have a3: "rsr_step opts ext now req Verified x =
      (Answered Next, markNonceUsed ?m ?n (now + nonce_ttl_of opts) x)" for x
    by (simp add: rsr_step_def Let_def)
  have r1: "concurrent_run opts ?reqs ?c0 (?s1, [Looked, Arrived])"
    using concurrent_run.step [OF concurrent_run.idle, of 0 "[Arrived, Arrived]" ?reqs ext now req
        opts s Looked ?s1] a1 by simp
  have r2: "concurrent_run opts ?reqs ?c0 (?s1, [Looked, Looked])"
    using concurrent_run.step [OF r1, of 1 ext now req Looked ?s1] b1 by simp
  have r3: "concurrent_run opts ?reqs ?c0 (?s1, [Verified, Looked])"
    using concurrent_run.step [OF r2, of 0 ext now req Verified ?s1] a2 by simp
  have r4: "concurrent_run opts ?reqs ?c0 (?s1, [Verified, Verified])"
    using concurrent_run.step [OF r3, of 1 ext now req Verified ?s1] a2 by simp
  have r5: "concurrent_run opts ?reqs ?c0 (?s2, [Answered Next, Verified])"
    using concurrent_run.step [OF r4, of 0 ext now req "Answered Next" ?s2] a3 [of ?s1] by simp
  show "concurrent_run opts ?reqs ?c0 (?s3, [Answered Next, Answered Next])"
    using concurrent_run.step [OF r5, of 1 ext now req "Answered Next" ?s3] a3 [of ?s2] by simp
qed


theorem concurrent_replay_both_accepted_witness:
  "fst (requireSignedRequest default_opts (stub_externals (Response 200 [])) 1000
       (signed_request (stub_externals (Response 200 [])) ''sksec_1'' ''1000'' ''n1'') gateway_db)
     = Next
   \<and> concurrent_run default_opts
       [(stub_externals (Response 200 []), 1000,
         signed_request (stub_externals (Response 200 [])) ''sksec_1'' ''1000'' ''n1''),
        (stub_externals (Response 200 []), 1000,
         signed_request (stub_externals (Response 200 [])) ''sksec_1'' ''1000'' ''n1'')]
       (gateway_db, [Arrived, Arrived])
       (gateway_db\<lparr> used_nonces :=
          [\<lparr> un_merchant_id = ''m1'', un_nonce = ''n1'', un_expires_at = 1120 \<rparr>] \<rparr>,
        [Answered Next, Answered Next])"
proof -
  let ?ext = "stub_externals (Response 200 [])"
  let ?r = "signed_request ?ext ''sksec_1'' ''1000'' ''n1''"
  have acc: "fst (requireSignedRequest default_opts ?ext 1000 ?r gateway_db) = Next"
    by (simp add: rsr_defs request_defs sample_defs js_defs)
  have fin: "markNonceUsed (or_empty (rq_merchantId ?r)) (js_trim (or_empty (rq_header ?r ''x-nonce'')))
        (1000 + nonce_ttl_of default_opts)
        (markNonceUsed (or_empty (rq_merchantId ?r)) (js_trim (or_empty (rq_header ?r ''x-nonce'')))
           (1000 + nonce_ttl_of default_opts)
           (gateway_db\<lparr> used_nonces := filter (\<lambda>r. \<not> un_expires_at r \<le> 1000) (used_nonces gateway_db) \<rparr>))
      = gateway_db\<lparr> used_nonces :=
          [\<lparr> un_merchant_id = ''m1'', un_nonce = ''n1'', un_expires_at = 1120 \<rparr>] \<rparr>"
    by (simp add: markNonceUsed_def nonce_ttl_of_def request_defs sample_defs js_defs)
  from concurrent_replay_both_accepted [OF acc] show ?thesis
    unfolding fin using acc by simp
qed

section \<open>Properties: invoice check\<close>

lemma bit_length_le: "n < 2 ^ k \<Longrightarrow> bit_length n \<le> k"
proof (induction k arbitrary: n)
  case 0
  then show ?case by (simp add: bit_length.simps [of 0])
next
  case (Suc k)
  show ?case
  proof (cases "n = 0")
    case True
    then show ?thesis by (simp add: bit_length.simps [of 0])
  next
    case False
    from Suc.prems have "n div 2 < 2 ^ k" by simp
    then have "bit_length (n div 2) \<le> k" by (rule Suc.IH)
    with False show ?thesis by (simp add: bit_length.simps [of n])
  qed
qed

lemma bit_length_eq: "2 ^ k \<le> n \<Longrightarrow> n < 2 ^ Suc k \<Longrightarrow> bit_length n = Suc k"
proof (induction k arbitrary: n)
  case 0
  then have "n = 1" by simp
  then show ?case by (simp add: bit_length.simps [of "Suc 0"] bit_length.simps [of 0])
next
  case (Suc k)
  from Suc.prems have "2 ^ k \<le> n div 2" "n div 2 < 2 ^ Suc k" by simp_all
  then have "bit_length (n div 2) = Suc k" by (rule Suc.IH)
  moreover from Suc.prems have "n \<noteq> 0" by auto
  ultimately show ?case by (simp add: bit_length.simps [of n])
qed

text \<open>Integers below \<open>2 ^ 53\<close> are doubles; the first one that is not rounds to its even neighbour.\<close>

lemma round_to_double_exact: "n < 2 ^ 53 \<Longrightarrow> round_to_double n = Some n"
proof -
  assume n: "n < 2 ^ 53"
  then have "bit_length n - 53 = 0" using bit_length_le [of n 53] by simp
  moreover from n have "\<not> (2::nat) ^ 1024 \<le> n"
    using power_strict_increasing [of 53 1024 "2::nat"] by simp
  ultimately show ?thesis by (simp add: round_to_double_def Let_def)
qed

lemma round_to_double_first_inexact:
  "round_to_double 9007199254740993 = Some 9007199254740992"
proof -
  have "bit_length 9007199254740993 = Suc 53" by (rule bit_length_eq) simp_all
  then show ?thesis by (simp add: round_to_double_def Let_def)
qed

lemma enqueue_if_enabled_tables:
  "pending_transactions (snd (enqueue_if_enabled ext now newid m env i t pl s)) = pending_transactions s"
  "paid_transactions (snd (enqueue_if_enabled ext now newid m env i t pl s)) = paid_transactions s"
  "invoices (snd (enqueue_if_enabled ext now newid m env i t pl s)) = invoices s"
  "invoice_events (snd (enqueue_if_enabled ext now newid m env i t pl s)) = invoice_events s"
  by (simp_all add: enqueue_if_enabled_def enqueueWebhookDelivery_def Let_def split: prod.splits sum.splits)

lemma enqueue_if_enabled_off:
  "\<not> (wc_webhook_enabled (getMerchantWebhookConfigEnv m env s)
       \<and> truthy (wc_webhook_url (getMerchantWebhookConfigEnv m env s)))
   \<Longrightarrow> enqueue_if_enabled ext now newid m env i t pl s = (None, s)"
  by (auto simp: enqueue_if_enabled_def Let_def)

lemma enqueue_if_enabled_on:
  "wc_webhook_enabled (getMerchantWebhookConfigEnv m env s)
   \<Longrightarrow> truthy (wc_webhook_url (getMerchantWebhookConfigEnv m env s))
   \<Longrightarrow> enqueue_if_enabled ext now newid m env i t pl s = (Some (Error ''SQLITE_ERROR''), s)"
  by (simp add: enqueue_if_enabled_def enqueueWebhookDelivery_def enqueue_values_def
      enqueue_columns_def Let_def)

lemma webhook_cfg_frame:
  "getMerchantWebhookConfigEnv m env (createInvoiceEvent ev s) = getMerchantWebhookConfigEnv m env s"
  "getMerchantWebhookConfigEnv m env (updateInvoiceStatus i m' st pa now s) = getMerchantWebhookConfigEnv m env s"
  "getMerchantWebhookConfigEnv m env (createPaidTransaction tx s) = getMerchantWebhookConfigEnv m env s"
  "getMerchantWebhookConfigEnv m env (deletePendingTransaction i s) = getMerchantWebhookConfigEnv m env s"
  by (simp_all add: getMerchantWebhookConfigEnv_def createInvoiceEvent_def updateInvoiceStatus_def
      createPaidTransaction_def deletePendingTransaction_def)

lemma pending_checkD:
  assumes "pending_check req now s = Some p"
  obtains invc where "cr_method req = ''POST''" "truthy (cr_merchantId req)"
    "truthy (cr_username req)" "truthy (cr_token req)"
    "getInvoiceById (js_trim (or_empty (cr_params_id req))) (cr_merchantId req) s = Some invc"
    "getPaidTransaction (js_trim (or_empty (cr_params_id req))) s = None"
    "getPendingTransaction (js_trim (or_empty (cr_params_id req))) s = Some p"
    "\<not> now > pt_expires_at p"
  using assms
  by (auto simp: pending_check_def split: if_splits option.splits)

lemma check_no_match:
  assumes "pending_check req now s = Some p" "getQrisHistory (or_empty (cr_username req)) (or_empty (cr_token req)) = Inr history"
    "\<not> credit_matches p history"
  shows "checkInvoice cfg ext getQrisHistory now newid req s =
     (Success [(''status'', JStr ''pending''), (''final_amount'', JNum (pt_final_amount p)),
               (''expires_in'', JNum (pt_expires_at p - now))], s)"
proof -
  from assms(3) have nf: "find (\<lambda>h. credit_amount h = Finite (pt_final_amount p) \<and> he_status h = ''IN'') history = None"
    by (simp add: credit_matches_def find_None_iff list_ex_iff)
  from assms(1) show ?thesis
  proof (rule pending_checkD)
    fix invc
    assume "cr_method req = ''POST''" "truthy (cr_merchantId req)"
    "truthy (cr_username req)" "truthy (cr_token req)"
    "getInvoiceById (js_trim (or_empty (cr_params_id req))) (cr_merchantId req) s = Some invc"
    "getPaidTransaction (js_trim (or_empty (cr_params_id req))) s = None"
    "getPendingTransaction (js_trim (or_empty (cr_params_id req))) s = Some p"
    "\<not> now > pt_expires_at p"
    with assms(2) nf show ?thesis
      by (simp add: checkInvoice_def Let_def)
  qed
qed


lemma check_match:
  fixes cfg :: invoice_config and ext :: externals and newid :: string
  assumes pc: "pending_check req now s = Some p"
    and up: "getQrisHistory (or_empty (cr_username req)) (or_empty (cr_token req)) = Inr history"
    and mt: "credit_matches p history"
  defines "i \<equiv> js_trim (or_empty (cr_params_id req))"
    and "m \<equiv> or_empty (cr_merchantId req)"
    and "env \<equiv> (case cr_gwEnv req of Some e \<Rightarrow> e | None \<Rightarrow> Production)"
  defines "s3 \<equiv> createInvoiceEvent
              \<lparr> ev_invoice_id = i, ev_merchant_id = m, ev_event_type = ''payment.paid'',
                ev_payload = [(''invoice_id'', JStr i),
                   (''final_amount'', JNum (pt_final_amount p)), (''paid_at'', JNum now)],
                ev_created_at = now \<rparr>
              (updateInvoiceStatus i m Paid (Some now) now
                (createPaidTransaction
                  \<lparr> pd_id = i, pd_username = or_empty (cr_username req),
                    pd_final_amount = pt_final_amount p, pd_paid_at = now,
                    pd_expires_at = now + PAID_EXPIRY_SECONDS cfg \<rparr>
                  (deletePendingTransaction i s)))"
  defines "enq \<equiv> enqueue_if_enabled ext now newid m env i ''payment.paid''
              [(''event_type'', JStr ''payment.paid''), (''invoice_id'', JStr i),
               (''final_amount'', JNum (pt_final_amount p)), (''paid_at'', JNum now),
               (''created_at'', JNum now)] s3"
  shows "checkInvoice cfg ext getQrisHistory now newid req s =
     (case fst enq of Some e \<Rightarrow> Raised e | None \<Rightarrow> paid_reply (pt_final_amount p) now, snd enq)"
proof -
  from mt obtain h where
    f: "find (\<lambda>h. credit_amount h = Finite (pt_final_amount p) \<and> he_status h = ''IN'') history = Some h"
    by (cases "find (\<lambda>h. credit_amount h = Finite (pt_final_amount p) \<and> he_status h = ''IN'') history")
       (auto simp: credit_matches_def find_None_iff list_ex_iff)
  from pc show ?thesis
  proof (rule pending_checkD)
    fix invc
    assume "cr_method req = ''POST''" "truthy (cr_merchantId req)"
    "truthy (cr_username req)" "truthy (cr_token req)"
    "getInvoiceById (js_trim (or_empty (cr_params_id req))) (cr_merchantId req) s = Some invc"
    "getPaidTransaction (js_trim (or_empty (cr_params_id req))) s = None"
    "getPendingTransaction (js_trim (or_empty (cr_params_id req))) s = Some p"
    "\<not> now > pt_expires_at p"
    with up f show ?thesis
      unfolding enq_def s3_def i_def m_def env_def checkInvoice_def Let_def
      by (simp split: prod.splits option.splits)
  qed
qed

text \<open>
  The check call that reaches the upstream poll (the invoice has no paid-cache entry and its
  pending transaction exists and has not expired) and whose upstream fetch returns a
  history: the reply is \<open>paid\<close> only if the history holds an
  entry with status \<^verbatim>\<open>IN\<close> whose amount equals the final amount. On such a match the
  pending row is deleted, a paid transaction expiring at \<open>now + PAID_EXPIRY_SECONDS\<close> (3600
  by default) is created, the invoice becomes paid with \<open>paid_at = now\<close> and a
  \<^verbatim>\<open>payment.paid\<close> event is appended; when the merchant's webhook for the environment is
  disabled or has no URL the call replies \<open>paid\<close> and enqueues no delivery. Without a match
  the call replies \<open>pending\<close> with \<open>expires_in = expires_at - now\<close> and the store is
  unchanged.
\<close>

lemma check_pending_invoice:
  assumes pc: "pending_check req now s = Some p"
    and up: "getQrisHistory (or_empty (cr_username req)) (or_empty (cr_token req)) = Inr history"
  shows
   "(\<not> credit_matches p history \<longrightarrow>
       checkInvoice cfg ext getQrisHistory now newid req s =
         (Success [(''status'', JStr ''pending''), (''final_amount'', JNum (pt_final_amount p)),
                   (''expires_in'', JNum (pt_expires_at p - now))], s))
    \<and> (credit_matches p history \<longrightarrow>
         pending_transactions (snd (checkInvoice cfg ext getQrisHistory now newid req s)) =
           filter (\<lambda>r. pt_id r \<noteq> js_trim (or_empty (cr_params_id req))) (pending_transactions s)
       \<and> paid_transactions (snd (checkInvoice cfg ext getQrisHistory now newid req s)) =
           paid_transactions s @
             [\<lparr> pd_id = js_trim (or_empty (cr_params_id req)),
                pd_username = or_empty (cr_username req),
                pd_final_amount = pt_final_amount p, pd_paid_at = now,
                pd_expires_at = now + PAID_EXPIRY_SECONDS cfg \<rparr>]
       \<and> invoices (snd (checkInvoice cfg ext getQrisHistory now newid req s)) =
           map (\<lambda>v. if inv_id v = js_trim (or_empty (cr_params_id req))
                        \<and> inv_merchant_id v = or_empty (cr_merchantId req)
                     then v\<lparr> inv_status := Paid, inv_paid_at := Some now \<rparr> else v) (invoices s)
       \<and> invoice_events (snd (checkInvoice cfg ext getQrisHistory now newid req s)) =
           invoice_events s @
             [\<lparr> ev_invoice_id = js_trim (or_empty (cr_params_id req)),
                ev_merchant_id = or_empty (cr_merchantId req),
                ev_event_type = ''payment.paid'',
                ev_payload = [(''invoice_id'', JStr (js_trim (or_empty (cr_params_id req)))),
                   (''final_amount'', JNum (pt_final_amount p)), (''paid_at'', JNum now)],
                ev_created_at = now \<rparr>]
       \<and> (\<not> webhook_on req s \<longrightarrow>
            fst (checkInvoice cfg ext getQrisHistory now newid req s) =
              paid_reply (pt_final_amount p) now
          \<and> webhook_deliveries (snd (checkInvoice cfg ext getQrisHistory now newid req s)) =
              webhook_deliveries s))
    \<and> ((\<exists>a t. fst (checkInvoice cfg ext getQrisHistory now newid req s) = paid_reply a t)
         \<longrightarrow> credit_matches p history)
    \<and> PAID_EXPIRY_SECONDS default_invoice_config = 3600"
proof (cases "credit_matches p history")
  case False
  from check_no_match [where getQrisHistory = getQrisHistory and cfg = cfg and ext = ext
      and newid = newid, OF pc up False] False show ?thesis
    by (simp add: paid_reply_def default_invoice_config_def)
next
  case True
  note cm = check_match [where getQrisHistory = getQrisHistory and cfg = cfg and ext = ext
      and newid = newid, OF pc up True]
  have tabs: "pending_transactions (snd (checkInvoice cfg ext getQrisHistory now newid req s)) =
           filter (\<lambda>r. pt_id r \<noteq> js_trim (or_empty (cr_params_id req))) (pending_transactions s)"
    "paid_transactions (snd (checkInvoice cfg ext getQrisHistory now newid req s)) =
           paid_transactions s @
             [\<lparr> pd_id = js_trim (or_empty (cr_params_id req)),
                pd_username = or_empty (cr_username req),
                pd_final_amount = pt_final_amount p, pd_paid_at = now,
                pd_expires_at = now + PAID_EXPIRY_SECONDS cfg \<rparr>]"
    "invoices (snd (checkInvoice cfg ext getQrisHistory now newid req s)) =
           map (\<lambda>v. if inv_id v = js_trim (or_empty (cr_params_id req))
                        \<and> inv_merchant_id v = or_empty (cr_merchantId req)
                     then v\<lparr> inv_status := Paid, inv_paid_at := Some now \<rparr> else v) (invoices s)"
    "invoice_events (snd (checkInvoice cfg ext getQrisHistory now newid req s)) =
           invoice_events s @
             [\<lparr> ev_invoice_id = js_trim (or_empty (cr_params_id req)),
                ev_merchant_id = or_empty (cr_merchantId req),
                ev_event_type = ''payment.paid'',
                ev_payload = [(''invoice_id'', JStr (js_trim (or_empty (cr_params_id req)))),
                   (''final_amount'', JNum (pt_final_amount p)), (''paid_at'', JNum now)],
                ev_created_at = now \<rparr>]"
    unfolding cm
    by (simp_all add: enqueue_if_enabled_tables createInvoiceEvent_def updateInvoiceStatus_def
        createPaidTransaction_def deletePendingTransaction_def)
  have off: "fst (checkInvoice cfg ext getQrisHistory now newid req s) =
              paid_reply (pt_final_amount p) now
          \<and> webhook_deliveries (snd (checkInvoice cfg ext getQrisHistory now newid req s)) =
              webhook_deliveries s" if "\<not> webhook_on req s"
  proof -
    let ?m = "or_empty (cr_merchantId req)"
    let ?env = "case cr_gwEnv req of Some e \<Rightarrow> e | None \<Rightarrow> Production"
    let ?i = "js_trim (or_empty (cr_params_id req))"
    let ?s3 = "createInvoiceEvent
              \<lparr> ev_invoice_id = ?i, ev_merchant_id = ?m, ev_event_type = ''payment.paid'',
                ev_payload = [(''invoice_id'', JStr ?i),
                   (''final_amount'', JNum (pt_final_amount p)), (''paid_at'', JNum now)],
                ev_created_at = now \<rparr>
              (updateInvoiceStatus ?i ?m Paid (Some now) now
                (createPaidTransaction
                  \<lparr> pd_id = ?i, pd_username = or_empty (cr_username req),
                    pd_final_amount = pt_final_amount p, pd_paid_at = now,
                    pd_expires_at = now + PAID_EXPIRY_SECONDS cfg \<rparr>
                  (deletePendingTransaction ?i s)))"
    have "getMerchantWebhookConfigEnv ?m ?env ?s3 = getMerchantWebhookConfigEnv ?m ?env s"
      by (simp only: webhook_cfg_frame)
    with that have "\<not> (wc_webhook_enabled (getMerchantWebhookConfigEnv ?m ?env ?s3)
       \<and> truthy (wc_webhook_url (getMerchantWebhookConfigEnv ?m ?env ?s3)))"
      by (simp add: webhook_on_def Let_def)
    then have "enqueue_if_enabled ext now newid ?m ?env ?i ''payment.paid''
              [(''event_type'', JStr ''payment.paid''), (''invoice_id'', JStr ?i),
               (''final_amount'', JNum (pt_final_amount p)), (''paid_at'', JNum now),
               (''created_at'', JNum now)] ?s3 = (None, ?s3)"
      by (rule enqueue_if_enabled_off)
    then show ?thesis
      unfolding cm
      by (simp add: createInvoiceEvent_def updateInvoiceStatus_def
        createPaidTransaction_def deletePendingTransaction_def)
  qed
  from tabs off True show ?thesis
    by (simp add: default_invoice_config_def)
qed


lemmas invoice_defs = invoice_db_def sample_invoice_def sample_pending_def check_inv1_def
  credit_history_def default_invoice_config_def

lemmas check_defs = checkInvoice_def getInvoiceById_def getPaidTransaction_def
  getPendingTransaction_def deletePendingTransaction_def createPaidTransaction_def
  updateInvoiceStatus_def createInvoiceEvent_def enqueue_if_enabled_def
  getMerchantWebhookConfigEnv_def credit_amount_def js_parseInt10_def round_to_double_exact
  paid_reply_def Let_def

lemma sample_pending_check:
  "pending_check check_inv1 1000 invoice_db = Some (sample_pending ''inv1'' ''merchantA'' 1 1500)"
  by (simp add: pending_check_def check_defs invoice_defs request_defs sample_defs js_defs)

lemma sample_match:
  "credit_matches (sample_pending ''inv1'' ''merchantA'' 1 1500)
     [\<lparr> he_kredit = ''5.000'', he_status = ''IN'' \<rparr>, \<lparr> he_kredit = ''10.001'', he_status = ''IN'' \<rparr>]"
  by (simp add: credit_matches_def check_defs invoice_defs js_defs)

lemma sample_webhook_off: "\<not> webhook_on check_inv1 invoice_db"
  by (simp add: webhook_on_def check_defs invoice_defs request_defs sample_defs js_defs)

lemma check_pending_invoice_sample:
  "pending_check check_inv1 1000 invoice_db = Some (sample_pending ''inv1'' ''merchantA'' 1 1500)
   \<and> fst (checkInvoice default_invoice_config (stub_externals (Response 200 [])) credit_history
        1000 ''wh1'' check_inv1 invoice_db) = paid_reply 10001 1000
   \<and> map inv_status (invoices (snd (checkInvoice default_invoice_config
        (stub_externals (Response 200 [])) credit_history 1000 ''wh1'' check_inv1 invoice_db)))
       = [Paid]
   \<and> map pd_expires_at (paid_transactions (snd (checkInvoice default_invoice_config
        (stub_externals (Response 200 [])) credit_history 1000 ''wh1'' check_inv1 invoice_db)))
       = [4600]"
proof -
  have up: "credit_history (or_empty (cr_username check_inv1)) (or_empty (cr_token check_inv1)) =
      Inr [\<lparr> he_kredit = ''5.000'', he_status = ''IN'' \<rparr>, \<lparr> he_kredit = ''10.001'', he_status = ''IN'' \<rparr>]"
    by (simp add: credit_history_def)
  note T = check_pending_invoice [where getQrisHistory = credit_history
      and cfg = default_invoice_config and ext = "stub_externals (Response 200 [])"
      and newid = "''wh1''", OF sample_pending_check up]
  let ?r = "checkInvoice default_invoice_config (stub_externals (Response 200 [])) credit_history
        1000 ''wh1'' check_inv1 invoice_db"
  from T sample_match sample_webhook_off have
    rep: "fst ?r = paid_reply (pt_final_amount (sample_pending ''inv1'' ''merchantA'' 1 1500)) 1000"
    by blast
  from T sample_match have
    invs: "invoices (snd ?r) =
           map (\<lambda>v. if inv_id v = js_trim (or_empty (cr_params_id check_inv1))
                        \<and> inv_merchant_id v = or_empty (cr_merchantId check_inv1)
                     then v\<lparr> inv_status := Paid, inv_paid_at := Some 1000 \<rparr> else v)
             (invoices invoice_db)"
    by blast
  from T sample_match have
    paid: "paid_transactions (snd ?r) =
           paid_transactions invoice_db @
             [\<lparr> pd_id = js_trim (or_empty (cr_params_id check_inv1)),
                pd_username = or_empty (cr_username check_inv1),
                pd_final_amount = pt_final_amount (sample_pending ''inv1'' ''merchantA'' 1 1500),
                pd_paid_at = 1000,
                pd_expires_at = 1000 + PAID_EXPIRY_SECONDS default_invoice_config \<rparr>]"
    by blast
  have "fst ?r = paid_reply 10001 1000"
    unfolding rep by (simp add: sample_pending_def)
  moreover have "map inv_status (invoices (snd ?r)) = [Paid]"
    unfolding invs by (simp add: invoice_defs request_defs sample_defs js_defs)
  moreover have "map pd_expires_at (paid_transactions (snd ?r)) = [4600]"
    unfolding paid by (simp add: invoice_defs request_defs sample_defs js_defs)
  ultimately show ?thesis using sample_pending_check by simp
qed

text \<open>
  Claim C6. The claim asks, for a check call on a non-expired pending invoice whose upstream
  history holds a credit of exactly the final amount with status \<^verbatim>\<open>IN\<close>, for the result
  \<open>paid\<close>, the pending row deleted, a paid transaction, the invoice paid, an event and a
  webhook. The handler does not deliver this for a merchant whose webhook is enabled with a
  URL: it deletes the pending row, creates the paid transaction (expiring at
  \<open>now + PAID_EXPIRY_SECONDS\<close>), marks the invoice paid with \<open>paid_at = now\<close> and appends
  the \<^verbatim>\<open>payment.paid\<close> event, and then \<^verbatim>\<open>enqueueWebhookDelivery\<close> throws, because its
  \<^verbatim>\<open>INSERT\<close> names eleven columns and gives ten values. The call ends without the \<open>paid\<close>
  reply and no webhook delivery is stored.
\<close>

theorem check_match_enqueue_raises:
  assumes pc: "pending_check req now s = Some p"
    and up: "getQrisHistory (or_empty (cr_username req)) (or_empty (cr_token req)) = Inr history"
    and mt: "credit_matches p history"
    and on: "webhook_on req s"
  shows "fst (checkInvoice cfg ext getQrisHistory now newid req s) = Raised (Error ''SQLITE_ERROR'')
    \<and> webhook_deliveries (snd (checkInvoice cfg ext getQrisHistory now newid req s)) =
         webhook_deliveries s
    \<and> pending_transactions (snd (checkInvoice cfg ext getQrisHistory now newid req s)) =
         filter (\<lambda>r. pt_id r \<noteq> js_trim (or_empty (cr_params_id req))) (pending_transactions s)
    \<and> paid_transactions (snd (checkInvoice cfg ext getQrisHistory now newid req s)) =
         paid_transactions s @
           [\<lparr> pd_id = js_trim (or_empty (cr_params_id req)),
              pd_username = or_empty (cr_username req),
              pd_final_amount = pt_final_amount p, pd_paid_at = now,
              pd_expires_at = now + PAID_EXPIRY_SECONDS cfg \<rparr>]
    \<and> invoices (snd (checkInvoice cfg ext getQrisHistory now newid req s)) =
         map (\<lambda>v. if inv_id v = js_trim (or_empty (cr_params_id req))
                      \<and> inv_merchant_id v = or_empty (cr_merchantId req)
                   then v\<lparr> inv_status := Paid, inv_paid_at := Some now \<rparr> else v) (invoices s)
    \<and> invoice_events (snd (checkInvoice cfg ext getQrisHistory now newid req s)) =
         invoice_events s @
           [\<lparr> ev_invoice_id = js_trim (or_empty (cr_params_id req)),
              ev_merchant_id = or_empty (cr_merchantId req),
              ev_event_type = ''payment.paid'',
              ev_payload = [(''invoice_id'', JStr (js_trim (or_empty (cr_params_id req)))),
                 (''final_amount'', JNum (pt_final_amount p)), (''paid_at'', JNum now)],
              ev_created_at = now \<rparr>]"
proof -
  let ?m = "or_empty (cr_merchantId req)"
  let ?env = "case cr_gwEnv req of Some e \<Rightarrow> e | None \<Rightarrow> Production"
  let ?i = "js_trim (or_empty (cr_params_id req))"
  let ?s3 = "createInvoiceEvent
            \<lparr> ev_invoice_id = ?i, ev_merchant_id = ?m, ev_event_type = ''payment.paid'',
              ev_payload = [(''invoice_id'', JStr ?i),
                 (''final_amount'', JNum (pt_final_amount p)), (''paid_at'', JNum now)],
              ev_created_at = now \<rparr>
            (updateInvoiceStatus ?i ?m Paid (Some now) now
              (createPaidTransaction
                \<lparr> pd_id = ?i, pd_username = or_empty (cr_username req),
                  pd_final_amount = pt_final_amount p, pd_paid_at = now,
                  pd_expires_at = now + PAID_EXPIRY_SECONDS cfg \<rparr>
                (deletePendingTransaction ?i s)))"
  note cm = check_match [where getQrisHistory = getQrisHistory and cfg = cfg and ext = ext
      and newid = newid, OF pc up mt]
  have "getMerchantWebhookConfigEnv ?m ?env ?s3 = getMerchantWebhookConfigEnv ?m ?env s"
    by (simp only: webhook_cfg_frame)
  with on have "wc_webhook_enabled (getMerchantWebhookConfigEnv ?m ?env ?s3)"
    "truthy (wc_webhook_url (getMerchantWebhookConfigEnv ?m ?env ?s3))"
    by (simp_all add: webhook_on_def Let_def)
  then have "enqueue_if_enabled ext now newid ?m ?env ?i ''payment.paid''
            [(''event_type'', JStr ''payment.paid''), (''invoice_id'', JStr ?i),
             (''final_amount'', JNum (pt_final_amount p)), (''paid_at'', JNum now),
             (''created_at'', JNum now)] ?s3 = (Some (Error ''SQLITE_ERROR''), ?s3)"
    by (rule enqueue_if_enabled_on)
  then show ?thesis
    unfolding cm
    by (simp add: createInvoiceEvent_def updateInvoiceStatus_def
      createPaidTransaction_def deletePendingTransaction_def)
qed

lemma sample_pending_check_on:
  "pending_check check_inv1 1000 invoice_webhook_db
     = Some (sample_pending ''inv1'' ''merchantA'' 1 1500)"
  by (simp add: pending_check_def check_defs invoice_webhook_db_def invoice_defs request_defs
      sample_defs js_defs)

lemma sample_webhook_on: "webhook_on check_inv1 invoice_webhook_db"
  by (simp add: webhook_on_def check_defs invoice_webhook_db_def invoice_defs request_defs
      sample_defs js_defs)

theorem check_match_enqueue_raises_witness:
  "pending_check check_inv1 1000 invoice_webhook_db
     = Some (sample_pending ''inv1'' ''merchantA'' 1 1500)
   \<and> credit_history ''merchantA'' ''tok'' =
       Inr [\<lparr> he_kredit = ''5.000'', he_status = ''IN'' \<rparr>, \<lparr> he_kredit = ''10.001'', he_status = ''IN'' \<rparr>]
   \<and> pt_final_amount (sample_pending ''inv1'' ''merchantA'' 1 1500) = 10001
   \<and> webhook_on check_inv1 invoice_webhook_db
   \<and> fst (checkInvoice default_invoice_config (stub_externals (Response 200 [])) credit_history
        1000 ''wh1'' check_inv1 invoice_webhook_db) = Raised (Error ''SQLITE_ERROR'')
   \<and> map inv_status (invoices invoice_webhook_db) = [Pending]
   \<and> map inv_status (invoices (snd (checkInvoice default_invoice_config
        (stub_externals (Response 200 [])) credit_history 1000 ''wh1'' check_inv1
        invoice_webhook_db))) = [Paid]
   \<and> pending_transactions (snd (checkInvoice default_invoice_config
        (stub_externals (Response 200 [])) credit_history 1000 ''wh1'' check_inv1
        invoice_webhook_db)) = []
   \<and> map pd_id (paid_transactions (snd (checkInvoice default_invoice_config
        (stub_externals (Response 200 [])) credit_history 1000 ''wh1'' check_inv1
        invoice_webhook_db))) = [''inv1'']
   \<and> map ev_event_type (invoice_events (snd (checkInvoice default_invoice_config
        (stub_externals (Response 200 [])) credit_history 1000 ''wh1'' check_inv1
        invoice_webhook_db))) = [''payment.paid'']
   \<and> webhook_deliveries (snd (checkInvoice default_invoice_config
        (stub_externals (Response 200 [])) credit_history 1000 ''wh1'' check_inv1
        invoice_webhook_db)) = []"
proof -
  have up: "credit_history (or_empty (cr_username check_inv1)) (or_empty (cr_token check_inv1)) =
      Inr [\<lparr> he_kredit = ''5.000'', he_status = ''IN'' \<rparr>, \<lparr> he_kredit = ''10.001'', he_status = ''IN'' \<rparr>]"
    by (simp add: credit_history_def)
  note T = check_match_enqueue_raises [where getQrisHistory = credit_history
      and cfg = default_invoice_config and ext = "stub_externals (Response 200 [])"
      and newid = "''wh1''", OF sample_pending_check_on up sample_match sample_webhook_on]
  let ?r = "checkInvoice default_invoice_config (stub_externals (Response 200 [])) credit_history
        1000 ''wh1'' check_inv1 invoice_webhook_db"
  from T have rep: "fst ?r = Raised (Error ''SQLITE_ERROR'')" by blast
  from T have del: "webhook_deliveries (snd ?r) = webhook_deliveries invoice_webhook_db" by blast
  from T have pend: "pending_transactions (snd ?r) =
      filter (\<lambda>r. pt_id r \<noteq> js_trim (or_empty (cr_params_id check_inv1)))
        (pending_transactions invoice_webhook_db)" by blast
  from T have paid: "paid_transactions (snd ?r) =
         paid_transactions invoice_webhook_db @
           [\<lparr> pd_id = js_trim (or_empty (cr_params_id check_inv1)),
              pd_username = or_empty (cr_username check_inv1),
              pd_final_amount = pt_final_amount (sample_pending ''inv1'' ''merchantA'' 1 1500),
              pd_paid_at = 1000,
              pd_expires_at = 1000 + PAID_EXPIRY_SECONDS default_invoice_config \<rparr>]" by blast
  from T have invs: "invoices (snd ?r) =
         map (\<lambda>v. if inv_id v = js_trim (or_empty (cr_params_id check_inv1))
                      \<and> inv_merchant_id v = or_empty (cr_merchantId check_inv1)
                   then v\<lparr> inv_status := Paid, inv_paid_at := Some 1000 \<rparr> else v)
           (invoices invoice_webhook_db)" by blast
  from T have evs: "invoice_events (snd ?r) =
         invoice_events invoice_webhook_db @
           [\<lparr> ev_invoice_id = js_trim (or_empty (cr_params_id check_inv1)),
              ev_merchant_id = or_empty (cr_merchantId check_inv1),
              ev_event_type = ''payment.paid'',
              ev_payload = [(''invoice_id'', JStr (js_trim (or_empty (cr_params_id check_inv1)))),
                 (''final_amount'', JNum (pt_final_amount (sample_pending ''inv1'' ''merchantA'' 1 1500))),
                 (''paid_at'', JNum 1000)],
              ev_created_at = 1000 \<rparr>]" by blast
  have "webhook_deliveries (snd ?r) = []"
    unfolding del by (simp add: invoice_webhook_db_def invoice_defs request_defs sample_defs)
  moreover have "pending_transactions (snd ?r) = []"
    unfolding pend by (simp add: invoice_webhook_db_def invoice_defs request_defs sample_defs js_defs)
  moreover have "map pd_id (paid_transactions (snd ?r)) = [''inv1'']"
    unfolding paid by (simp add: invoice_webhook_db_def invoice_defs request_defs sample_defs js_defs)
  moreover have "map inv_status (invoices (snd ?r)) = [Paid]"
    unfolding invs by (simp add: invoice_webhook_db_def invoice_defs request_defs sample_defs js_defs)
  moreover have "map ev_event_type (invoice_events (snd ?r)) = [''payment.paid'']"
    unfolding evs by (simp add: invoice_webhook_db_def invoice_defs request_defs sample_defs)
  moreover have "map inv_status (invoices invoice_webhook_db) = [Pending]"
    by (simp add: invoice_webhook_db_def invoice_defs)
  moreover have "pt_final_amount (sample_pending ''inv1'' ''merchantA'' 1 1500) = 10001"
    by (simp add: sample_pending_def)
  moreover have "credit_history ''merchantA'' ''tok'' =
       Inr [\<lparr> he_kredit = ''5.000'', he_status = ''IN'' \<rparr>, \<lparr> he_kredit = ''10.001'', he_status = ''IN'' \<rparr>]"
    by (simp add: credit_history_def)
  ultimately show ?thesis using rep sample_pending_check_on sample_webhook_on by simp
qed













section \<open>Properties: IP allow-list\<close>

lemmas ip_defs = allowlist_db_def request_from_def unsigned_request_def sample_merchant_def
  empty_db_def ipv4_lib_def ipv4_parse_def ipv4_parseCIDR_def bounded_number_def
  isIpWhitelistEnabled_def listIpWhitelist_def client_ip_def unmap_ipv4_def entry_matches_def
  truthy_def or_empty_def js_trim_def is_js_space_def is_digit_def nat_of_digits_def
  digit_val_def Let_def

lemma entry_matches_iff:
  "entry_matches lib parsed c \<longleftrightarrow>
     (if CHR ''/'' \<in> set (js_trim c)
      then \<exists>rng bits. ip_parseCIDR lib (js_trim c) = Some (rng, bits)
                      \<and> ip_match lib parsed rng bits = Some True
      else \<exists>target. ip_parse lib (js_trim c) = Some target
                    \<and> ip_toNormalizedString lib parsed = ip_toNormalizedString lib target)"
  by (auto simp: entry_matches_def Let_def split: option.splits)

lemma listIpWhitelist_empty:
  "listIpWhitelist m s = [] \<longleftrightarrow> (\<forall>row \<in> set (merchant_ip_whitelist s). iw_merchant_id row \<noteq> m)"
  by (auto simp: listIpWhitelist_def filter_empty_conv)


text \<open>
  Claim C8. For a merchant \<open>m\<close> with the allow-list enabled (its row of the table
  \<^verbatim>\<open>merchants\<close> has \<^verbatim>\<open>ip_whitelist_enabled = 1\<close>), the client address is the first
  value of \<^verbatim>\<open>X-Forwarded-For\<close> (the text before the first comma, trimmed) when that is not
  empty and the connection peer otherwise, with a leading \<^verbatim>\<open>::ffff:\<close> removed. The request
  passes the check exactly when that address parses and the table
  \<^verbatim>\<open>merchant_ip_whitelist\<close> holds a row of \<open>m\<close> itself whose trimmed entry matches it: an
  entry with a slash must parse as a CIDR whose range contains the address (the library's
  \<^verbatim>\<open>match\<close> returns true; an entry that does not parse, or a match that throws, does not
  count), an entry without a slash must parse as an address with the same normalised text.
  Every other request is answered 403 \<^verbatim>\<open>IP_NOT_ALLOWED\<close>, and so is every request when the
  table holds no row of \<open>m\<close>. Rows of other merchants never admit a request.
\<close>

theorem ip_allow_list:
  assumes "truthy (rq_merchantId req)"
    and "merchants s (or_empty (rq_merchantId req)) = Some mrow" "ip_whitelist_enabled mrow = 1"
  shows "(ipWhitelist lib req s = Next \<longleftrightarrow>
           (\<exists>parsed. ip_parse lib (client_ip req) = Some parsed
              \<and> (\<exists>row \<in> set (merchant_ip_whitelist s).
                    iw_merchant_id row = or_empty (rq_merchantId req)
                    \<and> (if CHR ''/'' \<in> set (js_trim (iw_cidr row))
                       then \<exists>rng bits.
                              ip_parseCIDR lib (js_trim (iw_cidr row)) = Some (rng, bits)
                              \<and> ip_match lib parsed rng bits = Some True
                       else \<exists>target.
                              ip_parse lib (js_trim (iw_cidr row)) = Some target
                              \<and> ip_toNormalizedString lib parsed
                                  = ip_toNormalizedString lib target))))
       \<and> (ipWhitelist lib req s \<noteq> Next \<longrightarrow> ipWhitelist lib req s = Reject 403 ''IP_NOT_ALLOWED'')
       \<and> ((\<forall>row \<in> set (merchant_ip_whitelist s).
               iw_merchant_id row \<noteq> or_empty (rq_merchantId req)) \<longrightarrow>
            ipWhitelist lib req s = Reject 403 ''IP_NOT_ALLOWED'')
       \<and> client_ip req =
            unmap_ipv4
              (if js_trim (takeWhile (\<lambda>c. c \<noteq> CHR '','') (or_empty (rq_header req ''x-forwarded-for''))) \<noteq> []
               then js_trim (takeWhile (\<lambda>c. c \<noteq> CHR '','') (or_empty (rq_header req ''x-forwarded-for'')))
               else or_empty (rq_ip req))
       \<and> unmap_ipv4 (''::ffff:'' @ a) = a
       \<and> (take 7 b \<noteq> ''::ffff:'' \<longrightarrow> unmap_ipv4 b = b)"
proof -
  let ?m = "or_empty (rq_merchantId req)"
  let ?cidrs = "listIpWhitelist ?m s"
  have r: "ipWhitelist lib req s =
      (if ?cidrs = [] then Reject 403 ''IP_NOT_ALLOWED''
       else (case ip_parse lib (client_ip req) of
                   None \<Rightarrow> Reject 403 ''IP_NOT_ALLOWED''
                 | Some parsed \<Rightarrow>
                     if list_ex (entry_matches lib parsed) ?cidrs then Next
                     else Reject 403 ''IP_NOT_ALLOWED''))"
    using assms by (simp add: ipWhitelist_def isIpWhitelistEnabled_def Let_def)
  have ex: "(\<exists>c \<in> set ?cidrs. entry_matches lib parsed c) \<longleftrightarrow>
       (\<exists>row \<in> set (merchant_ip_whitelist s).
                    iw_merchant_id row = ?m
                    \<and> (if CHR ''/'' \<in> set (js_trim (iw_cidr row))
                       then \<exists>rng bits.
                              ip_parseCIDR lib (js_trim (iw_cidr row)) = Some (rng, bits)
                              \<and> ip_match lib parsed rng bits = Some True
                       else \<exists>target.
                              ip_parse lib (js_trim (iw_cidr row)) = Some target
                              \<and> ip_toNormalizedString lib parsed
                                  = ip_toNormalizedString lib target))" for parsed
    unfolding entry_matches_iff by (auto simp: listIpWhitelist_def)
  have c0: "ipWhitelist lib req s = Next \<longleftrightarrow>
           (\<exists>parsed. ip_parse lib (client_ip req) = Some parsed
              \<and> (\<exists>c \<in> set ?cidrs. entry_matches lib parsed c))"
    unfolding r by (cases "ip_parse lib (client_ip req)") (auto simp: list_ex_iff)
  have c1: "ipWhitelist lib req s = Next \<longleftrightarrow>
           (\<exists>parsed. ip_parse lib (client_ip req) = Some parsed
              \<and> (\<exists>row \<in> set (merchant_ip_whitelist s).
                    iw_merchant_id row = ?m
                    \<and> (if CHR ''/'' \<in> set (js_trim (iw_cidr row))
                       then \<exists>rng bits.
                              ip_parseCIDR lib (js_trim (iw_cidr row)) = Some (rng, bits)
                              \<and> ip_match lib parsed rng bits = Some True
                       else \<exists>target.
                              ip_parse lib (js_trim (iw_cidr row)) = Some target
                              \<and> ip_toNormalizedString lib parsed
                                  = ip_toNormalizedString lib target)))"
    unfolding c0 ex ..
  have c2: "ipWhitelist lib req s \<noteq> Next \<longrightarrow> ipWhitelist lib req s = Reject 403 ''IP_NOT_ALLOWED''"
    unfolding r by (cases "ip_parse lib (client_ip req)") auto
  have c3: "(\<forall>row \<in> set (merchant_ip_whitelist s). iw_merchant_id row \<noteq> ?m) \<longrightarrow>
            ipWhitelist lib req s = Reject 403 ''IP_NOT_ALLOWED''"
    unfolding r listIpWhitelist_empty [symmetric] by simp
  have c4: "client_ip req =
            unmap_ipv4
              (if js_trim (takeWhile (\<lambda>c. c \<noteq> CHR '','') (or_empty (rq_header req ''x-forwarded-for''))) \<noteq> []
               then js_trim (takeWhile (\<lambda>c. c \<noteq> CHR '','') (or_empty (rq_header req ''x-forwarded-for'')))
               else or_empty (rq_ip req))"
    by (simp add: client_ip_def Let_def)
  have c5: "unmap_ipv4 (''::ffff:'' @ a) = a" by (simp add: unmap_ipv4_def)
  have c6: "take 7 b \<noteq> ''::ffff:'' \<longrightarrow> unmap_ipv4 b = b" by (simp add: unmap_ipv4_def)
  from c1 c2 c3 c4 c5 c6 show ?thesis by blast
qed

theorem ip_allow_list_witness:
  "ipWhitelist ipv4_lib (request_from (Some ''10.1.2.3, 172.16.0.1'') ''11.0.0.1'')
       (allowlist_db [''10.0.0.0/8'', '' 192.168.1.5'']) = Next
   \<and> ipWhitelist ipv4_lib (request_from None ''::ffff:192.168.1.5'')
       (allowlist_db [''10.0.0.0/8'', '' 192.168.1.5'']) = Next
   \<and> ipWhitelist ipv4_lib (request_from None ''11.0.0.1'')
       (allowlist_db [''10.0.0.0/8'', '' 192.168.1.5'']) = Reject 403 ''IP_NOT_ALLOWED''
   \<and> ipWhitelist ipv4_lib (request_from None ''10.0.0.1'') (allowlist_db [''10.0.0.0/33''])
       = Reject 403 ''IP_NOT_ALLOWED''
   \<and> ipWhitelist ipv4_lib (request_from None ''11.0.0.1'') (allowlist_db [])
       = Reject 403 ''IP_NOT_ALLOWED''"
proof -
  let ?db = "allowlist_db [''10.0.0.0/8'', '' 192.168.1.5'']"
  let ?r1 = "request_from (Some ''10.1.2.3, 172.16.0.1'') ''11.0.0.1''"
  let ?r4 = "request_from None ''11.0.0.1''"
  let ?row = "\<lparr> iw_merchant_id = ''m1'', iw_cidr = ''10.0.0.0/8'' \<rparr>"
  let ?mrow = "(sample_merchant 0)\<lparr> ip_whitelist_enabled := 1 \<rparr>"
  have m1: "truthy (rq_merchantId ?r1)" "merchants ?db (or_empty (rq_merchantId ?r1)) = Some ?mrow"
    "ip_whitelist_enabled ?mrow = 1"
    by (simp_all add: ip_defs)
  have ip1: "client_ip ?r1 = ''10.1.2.3''" by (simp add: ip_defs)
  have p1: "ip_parse ipv4_lib ''10.1.2.3'' = Some 167838211" by (simp add: ip_defs)
  have row1: "?row \<in> set (merchant_ip_whitelist ?db)" "iw_merchant_id ?row = or_empty (rq_merchantId ?r1)"
    by (simp_all add: ip_defs)
  have e1: "CHR ''/'' \<in> set (js_trim (iw_cidr ?row))"
    "ip_parseCIDR ipv4_lib (js_trim (iw_cidr ?row)) = Some (167772160, 8)"
    "ip_match ipv4_lib 167838211 167772160 8 = Some True"
    by (simp_all add: ip_defs)
  have c: "\<exists>rng bits. ip_parseCIDR ipv4_lib (js_trim (iw_cidr ?row)) = Some (rng, bits)
              \<and> ip_match ipv4_lib 167838211 rng bits = Some True"
    using e1(2,3) by blast
  have d: "if CHR ''/'' \<in> set (js_trim (iw_cidr ?row))
           then \<exists>rng bits. ip_parseCIDR ipv4_lib (js_trim (iw_cidr ?row)) = Some (rng, bits)
                  \<and> ip_match ipv4_lib 167838211 rng bits = Some True
           else \<exists>target. ip_parse ipv4_lib (js_trim (iw_cidr ?row)) = Some target
                  \<and> ip_toNormalizedString ipv4_lib 167838211
                      = ip_toNormalizedString ipv4_lib target"
    using e1(1) c by (simp only: if_True)
  have a1: "ipWhitelist ipv4_lib ?r1 ?db = Next"
    apply (rule ip_allow_list [OF m1, of ipv4_lib, THEN conjunct1, THEN iffD2])
    apply (rule exI [of _ 167838211])
    apply (rule conjI)
     apply (simp only: ip1 p1)
    apply (rule bexI [OF _ row1(1)])
    apply (rule conjI)
     apply (rule row1(2))
    apply (rule d)
    done
  have m4: "truthy (rq_merchantId ?r4)"
    "merchants (allowlist_db []) (or_empty (rq_merchantId ?r4)) = Some ?mrow"
    "ip_whitelist_enabled ?mrow = 1"
    by (simp_all add: ip_defs)
  have l4: "\<forall>row \<in> set (merchant_ip_whitelist (allowlist_db [])).
               iw_merchant_id row \<noteq> or_empty (rq_merchantId ?r4)"
    by (simp add: ip_defs)
  have a5: "ipWhitelist ipv4_lib ?r4 (allowlist_db []) = Reject 403 ''IP_NOT_ALLOWED''"
    using ip_allow_list [OF m4, of ipv4_lib] l4 by blast
  have a2: "ipWhitelist ipv4_lib (request_from None ''::ffff:192.168.1.5'') ?db = Next"
    by (simp add: ipWhitelist_def ip_defs js_string_of_int_def)
  have ne: "string_of_nat 184549377 \<noteq> string_of_nat 3232235781"
    by (simp add: string_of_nat.simps [of 184549377] string_of_nat.simps [of 3232235781]
        digit_char_def)
  have a3: "ipWhitelist ipv4_lib (request_from None ''11.0.0.1'') ?db = Reject 403 ''IP_NOT_ALLOWED''"
    by (simp add: ipWhitelist_def ip_defs js_string_of_int_def ne)
  have a4: "ipWhitelist ipv4_lib (request_from None ''10.0.0.1'') (allowlist_db [''10.0.0.0/33''])
      = Reject 403 ''IP_NOT_ALLOWED''"
    by (simp add: ipWhitelist_def ip_defs)
  from a1 a2 a3 a4 a5 show ?thesis by simp
qed

section \<open>Properties: QRIS codec\<close>

lemma digit_char_props:
  assumes "d < 10"
  shows "is_digit (digit_char d)" "digit_val (digit_char d) = d"
  using assms by (simp_all add: is_digit_def digit_val_def digit_char_def)

lemma two_digits_props:
  assumes "n \<le> 99"
  shows "length (two_digits n) = 2" "list_all is_digit (two_digits n)"
    "nat_of_digits (two_digits n) = n"
proof -
  have a: "n div 10 mod 10 < 10" "n mod 10 < 10" by simp_all
  show "length (two_digits n) = 2" by (simp add: two_digits_def)
  show "list_all is_digit (two_digits n)"
    using a by (simp add: two_digits_def digit_char_props)
  have "n div 10 mod 10 = n div 10" using assms by simp
  then show "nat_of_digits (two_digits n) = n"
    using a by (simp add: two_digits_def nat_of_digits_def digit_char_props)
qed

lemma digit_val_bound: "is_digit c \<Longrightarrow> digit_val c \<le> 9"
  by (auto simp: is_digit_def digit_val_def)

lemma two_digit_value:
  assumes "length l = 2" "list_all is_digit l"
  shows "nat_of_digits l \<le> 99"
proof -
  from assms(1) obtain a b where l: "l = [a, b]"
    by (cases l; cases "tl l") auto
  with assms(2) have "digit_val a \<le> 9" "digit_val b \<le> 9"
    by (simp_all add: digit_val_bound)
  with l show ?thesis by (simp add: nat_of_digits_def)
qed

lemma parse_tlv_Nil: "parse_tlv [] = Some []"
  by (simp add: parse_tlv.simps)

lemma parse_tlv_record:
  assumes "wf_tlv (t, v)"
  shows "parse_tlv (t @ two_digits (length v) @ v @ rest) = map_option (Cons (t, v)) (parse_tlv rest)"
proof -
  from assms have t: "length t = 2" "list_all is_digit t" and v: "length v \<le> 99"
    by (simp_all add: wf_tlv_def)
  note d = two_digits_props [OF v]
  let ?s = "t @ two_digits (length v) @ v @ rest"
  from t have tne: "t \<noteq> []" by auto
  have ne: "?s \<noteq> []" "\<not> length ?s < 4" using t d(1) by auto
  have tk: "take 2 ?s = t" "take 2 (drop 2 ?s) = two_digits (length v)" "drop 4 ?s = v @ rest"
    using t d(1) by simp_all
  show ?thesis
    by (subst parse_tlv.simps) (simp add: tne ne tk Let_def t d del: append_assoc)
qed

lemma render_tlv_Cons:
  "render_tlv ((t, v) # recs) = t @ two_digits (length v) @ v @ render_tlv recs"
  by (simp add: render_tlv_def)

lemma parse_render:
  "\<forall>r \<in> set recs. wf_tlv r \<Longrightarrow> parse_tlv (render_tlv recs @ rest) = map_option ((@) recs) (parse_tlv rest)"
proof (induction recs)
  case Nil
  show ?case by (cases "parse_tlv rest") (simp_all add: render_tlv_def)
next
  case (Cons r recs)
  obtain t v where r: "r = (t, v)" by (cases r)
  with Cons.prems have wf: "wf_tlv (t, v)" by simp
  from Cons have IH: "parse_tlv (render_tlv recs @ rest) = map_option ((@) recs) (parse_tlv rest)"
    by simp
  have "parse_tlv (render_tlv (r # recs) @ rest)
      = parse_tlv (t @ two_digits (length v) @ v @ (render_tlv recs @ rest))"
    by (simp add: r render_tlv_Cons)
  also have "\<dots> = map_option (Cons (t, v)) (parse_tlv (render_tlv recs @ rest))"
    by (rule parse_tlv_record [OF wf])
  also have "\<dots> = map_option ((@) (r # recs)) (parse_tlv rest)"
    unfolding IH r by (cases "parse_tlv rest") simp_all
  finally show ?case .
qed

lemma parse_tlv_wf:
  "parse_tlv s = Some recs \<Longrightarrow> \<forall>r \<in> set recs. wf_tlv r"
proof (induction s arbitrary: recs rule: parse_tlv.induct)
  case (1 s)
  show ?case
  proof (cases "s = []")
    case True
    with "1.prems" show ?thesis by (simp add: parse_tlv_Nil)
  next
    case ne: False
    let ?tag = "take 2 s" and ?len = "take 2 (drop 2 s)" and ?rest = "drop 4 s"
    from "1.prems" ne have c: "\<not> length s < 4" "list_all is_digit ?tag" "list_all is_digit ?len"
        "\<not> length ?rest < nat_of_digits ?len"
      by (auto simp: parse_tlv.simps [of s] Let_def split: if_splits)
    with "1.prems" ne obtain tl where tl: "parse_tlv (drop (nat_of_digits ?len) ?rest) = Some tl"
        and recs: "recs = (?tag, take (nat_of_digits ?len) ?rest) # tl"
      by (auto simp: parse_tlv.simps [of s] Let_def split: if_splits)
    have "\<forall>r \<in> set tl. wf_tlv r"
      using "1.IH" [OF ne c(1) refl refl refl _ c(4) tl] c(2,3) by simp
    moreover have "length ?len = 2" using c(1) by simp
    then have "nat_of_digits ?len \<le> 99" using c(3) by (rule two_digit_value)
    then have "wf_tlv (?tag, take (nat_of_digits ?len) ?rest)"
      using c by (simp add: wf_tlv_def)
    ultimately show ?thesis by (simp add: recs)
  qed
qed


lemma string_of_nat_length:
  "n < 10 ^ Suc k \<Longrightarrow> length (string_of_nat n) \<le> Suc k"
proof (induction k arbitrary: n)
  case 0
  then show ?case by (simp add: string_of_nat.simps [of n])
next
  case (Suc k)
  show ?case
  proof (cases "n < 10")
    case True
    then show ?thesis by (simp add: string_of_nat.simps [of n])
  next
    case False
    from Suc.prems have "n div 10 < 10 ^ Suc k" by (simp add: less_mult_imp_div_less)
    then have "length (string_of_nat (n div 10)) \<le> Suc k" by (rule Suc.IH)
    with False show ?thesis by (simp add: string_of_nat.simps [of n])
  qed
qed

lemma amount_length:
  assumes "0 < n" "n < 10 ^ 99"
  shows "length (js_string_of_int n) \<le> 99"
proof -
  from assms have "nat n < 10 ^ Suc 98" by (simp add: nat_less_iff)
  then have "length (string_of_nat (nat n)) \<le> Suc 98" by (rule string_of_nat_length)
  with assms(1) show ?thesis by (simp add: js_string_of_int_def)
qed

lemma wf_set_dynamic:
  assumes "\<forall>r \<in> set recs. wf_tlv r"
  shows "\<forall>r \<in> set (set_dynamic recs). wf_tlv r"
proof -
  have "wf_tlv (case r of (t, v) \<Rightarrow> if t = ''01'' \<and> v = ''11'' then (t, ''12'') else (t, v))"
    if "wf_tlv r" for r
    using that by (cases r) (auto simp: wf_tlv_def is_digit_def)
  with assms show ?thesis by (auto simp: set_dynamic_def)
qed

lemma wf_54: "length a \<le> 99 \<Longrightarrow> wf_tlv (''54'', a)"
  by (simp add: wf_tlv_def is_digit_def)

lemma wf_insert_before_58:
  "wf_tlv r \<Longrightarrow> \<forall>x \<in> set recs. wf_tlv x \<Longrightarrow> \<forall>x \<in> set (insert_before_58 r recs). wf_tlv x"
  by (induction r recs rule: insert_before_58.induct) auto

lemma wf_set_amount:
  assumes "length a \<le> 99" "\<forall>r \<in> set recs. wf_tlv r"
  shows "\<forall>r \<in> set (set_amount a recs). wf_tlv r"
proof (cases "''54'' \<in> set (map fst recs)")
  case True
  have "wf_tlv (case r of (t, v) \<Rightarrow> if t = ''54'' then (t, a) else (t, v))"
    if "wf_tlv r" for r
    using that assms(1) by (cases r) (auto simp: wf_tlv_def is_digit_def)
  with assms(2) True show ?thesis by (auto simp: set_amount_def)
next
  case False
  with wf_insert_before_58 [OF wf_54 [OF assms(1)] assms(2)] show ?thesis
    by (simp add: set_amount_def)
qed

lemma wf_strip_crc: "\<forall>r \<in> set recs. wf_tlv r \<Longrightarrow> \<forall>r \<in> set (strip_crc recs). wf_tlv r"
  by (simp add: strip_crc_def)

lemma hex4_length: "length (hex4_upper w) = 4"
  by (simp add: hex4_upper_def)

lemma upper_hex_digit_fixed:
  assumes "k < 16"
  shows "js_toUpperCase [upper_hex_digit k] = [upper_hex_digit k]"
  using assms by (simp add: js_toUpperCase_def upper_hex_digit_def)

lemma nibble_bound: "unat ((x :: 16 word) AND 0xF) < 16"
proof -
  have "x AND 0xF \<le> 0xF" by (rule word_and_le1)
  then have "unat (x AND 0xF) \<le> unat (0xF :: 16 word)" by (simp add: word_le_nat_alt)
  then show ?thesis by simp
qed

lemma hex4_upper_fixed: "js_toUpperCase (hex4_upper w) = hex4_upper w"
proof -
  have "js_toUpperCase [upper_hex_digit (unat (x AND 0xF))] = [upper_hex_digit (unat (x AND 0xF))]"
    for x :: "16 word"
    by (rule upper_hex_digit_fixed [OF nibble_bound])
  then show ?thesis by (simp add: hex4_upper_def js_toUpperCase_def)
qed

lemma crc_record: "wf_tlv (''63'', hex4_upper w)" "''63'' @ two_digits (length (hex4_upper w)) = ''6304''"
  by (simp_all add: wf_tlv_def hex4_length is_digit_def two_digits_def digit_char_def
      char_of_eq_iff)

lemma funpow8: "(f ^^ 8) x = f (f (f (f (f (f (f (f x)))))))"
  by (simp add: eval_nat_numeral)

lemma crc_byte_unrolled:
  "crc_byte c b = crc_shift (crc_shift (crc_shift (crc_shift (crc_shift (crc_shift (crc_shift
     (crc_shift (c XOR of_nat (of_char b)))))))))"
  by (simp add: crc_byte_def funpow8)

lemma crc_check_value: "crc16_x25 ''123456789'' = 0x906E"
  by (simp add: crc16_x25_def crc_byte_unrolled crc_shift_def)

text \<open>
  Claim C9. For every valid static payload and every positive integer amount \<open>n\<close> of at
  most 99 decimal digits (the longest value a two-digit length can announce; this covers
  every integer a JavaScript number holds exactly, which lies below \<open>2 ^ 53\<close>), amount
  injection yields a payload of the form \<open>body @ 6304 @ crc\<close>, where \<open>crc\<close> is the
  CRC-16/X.25 of \<open>body @ 6304\<close> in four uppercase hexadecimal digits, and that payload
  passes validation. The checksum of the model is CRC-16/X.25: it maps the standard check
  input \<open>123456789\<close> to \<open>0x906E\<close>.
\<close>

theorem dynamic_qris_validates:
  assumes "validateQris static" "0 < n" "n < 10 ^ 99"
  shows "\<exists>body. generateDynamicQris static n =
            Inr (body @ ''6304'' @ hex4_upper (crc16_x25 (body @ ''6304'')))
          \<and> validateQris (body @ ''6304'' @ hex4_upper (crc16_x25 (body @ ''6304'')))
          \<and> crc16_x25 ''123456789'' = 0x906E"
proof -
  from assms(1) obtain recs where p: "parse_tlv static = Some recs"
    by (auto simp: validateQris_def split: option.splits)
  let ?recs = "strip_crc (set_amount (js_string_of_int n) (set_dynamic recs))"
  let ?body = "render_tlv ?recs"
  let ?h = "hex4_upper (crc16_x25 (?body @ ''6304''))"
  let ?d = "?body @ ''6304'' @ ?h"
  have wf: "\<forall>r \<in> set ?recs. wf_tlv r"
    using parse_tlv_wf [OF p] amount_length [OF assms(2,3)]
    by (intro wf_strip_crc wf_set_amount wf_set_dynamic)
  have gen: "generateDynamicQris static n = Inr ?d"
    by (simp add: generateDynamicQris_def p Let_def)
  have "parse_tlv (''63'' @ two_digits (length ?h) @ ?h @ []) = map_option (Cons (''63'', ?h)) (parse_tlv [])"
    by (rule parse_tlv_record [OF crc_record(1)])
  then have last: "parse_tlv (''6304'' @ ?h) = Some [(''63'', ?h)]"
    using crc_record(2) [of "crc16_x25 (?body @ ''6304'')"] by (simp add: parse_tlv_Nil)
  have parsed: "parse_tlv ?d = Some (?recs @ [(''63'', ?h)])"
    using parse_render [OF wf, of "''6304'' @ ?h"] last by simp
  have cut: "take (length ?d - 4) ?d = ?body @ ''6304''"
    by (simp add: hex4_length)
  have "validateQris ?d"
    unfolding validateQris_def parsed cut
    by (simp add: hex4_length hex4_upper_fixed)
  with gen crc_check_value show ?thesis by blast
qed

lemma sample_static_crc: "hex4_upper (crc16_x25 ''0002010102115802ID6304'') = ''62A4''"
  by (simp add: crc16_x25_def crc_byte_unrolled crc_shift_def hex4_upper_def upper_hex_digit_def
      char_of_eq_iff)

lemma sample_static_parse:
  "parse_tlv sample_static = Some [(''00'', ''01''), (''01'', ''11''), (''58'', ''ID''), (''63'', ''62A4'')]"
proof -
  have wf: "\<forall>r \<in> set [(''00'', ''01''), (''01'', ''11''), (''58'', ''ID''), (''63'', ''62A4'')]. wf_tlv r"
    by (simp add: wf_tlv_def is_digit_def)
  have "render_tlv [(''00'', ''01''), (''01'', ''11''), (''58'', ''ID''), (''63'', ''62A4'')] = sample_static"
    by (simp add: render_tlv_def two_digits_def digit_char_def char_of_eq_iff sample_static_def)
  with parse_render [OF wf, of "[]"] show ?thesis by (simp add: parse_tlv_Nil)
qed

lemma sample_static_valid: "validateQris sample_static"
proof -
  have "take (length sample_static - 4) sample_static = ''0002010102115802ID6304''"
    by (simp add: sample_static_def)
  then show ?thesis
    by (simp add: validateQris_def sample_static_parse sample_static_crc js_toUpperCase_def)
qed

lemma sample_amount: "js_string_of_int 10001 = ''10001''"
  by (simp add: js_string_of_int_def string_of_nat.simps [of 10001] string_of_nat.simps [of 1000]
      string_of_nat.simps [of 100] string_of_nat.simps [of 10] string_of_nat.simps [of "Suc 0"]
      digit_char_def char_of_eq_iff)

lemma sample_records:
  "strip_crc (set_amount ''10001'' (set_dynamic
      [(''00'', ''01''), (''01'', ''11''), (''58'', ''ID''), (''63'', ''62A4'')]))
   = [(''00'', ''01''), (''01'', ''12''), (''54'', ''10001''), (''58'', ''ID'')]"
  by (simp add: set_dynamic_def set_amount_def strip_crc_def)

lemma sample_body:
  "render_tlv [(''00'', ''01''), (''01'', ''12''), (''54'', ''10001''), (''58'', ''ID'')] @ ''6304''
   = ''0002010102125405100015802ID6304''"
  by (simp add: render_tlv_def two_digits_def digit_char_def char_of_eq_iff)

lemma sample_dynamic_crc: "hex4_upper (crc16_x25 ''0002010102125405100015802ID6304'') = ''A016''"
  by (simp add: crc16_x25_def crc_byte_unrolled crc_shift_def hex4_upper_def upper_hex_digit_def
      char_of_eq_iff)

theorem dynamic_qris_validates_witness:
  "validateQris sample_static
   \<and> generateDynamicQris sample_static 10001 = Inr ''0002010102125405100015802ID6304A016''
   \<and> validateQris ''0002010102125405100015802ID6304A016''"
proof -
  have gen: "generateDynamicQris sample_static 10001 = Inr ''0002010102125405100015802ID6304A016''"
    unfolding generateDynamicQris_def sample_static_parse sample_amount option.case Let_def
      sample_records sample_body sample_dynamic_crc
    by simp
  have n: "(0::int) < 10001" "(10001::int) < 10 ^ 99" by simp_all
  from dynamic_qris_validates [OF sample_static_valid n] gen
  have "validateQris ''0002010102125405100015802ID6304A016''" by auto
  with sample_static_valid gen show ?thesis by simp
qed

end
